(* ===== verification/GoBase.thy ===== *)
theory GoBase
  imports Main "HOL-Library.Char_ord" "HOL-Library.List_Lexorder"
    "HOL-Library.Product_Lexorder" "HOL-Library.Sublist"
begin

text \<open>
  What the Go language gives every component, and what their proofs share.

  \<^item> A Go \<open>string\<close> (and a \<open>[]byte\<close>) is a HOL \<open>string\<close>: a list of \<open>char\<close>, one \<open>char\<close> per
    byte, so that \<open>len\<close> is \<open>length\<close> and slicing is \<open>take\<close>/\<open>drop\<close>.
  \<^item> A Go \<open>error\<close> is its text (what \<open>Error()\<close> returns); a function that returns
    \<open>(v, error)\<close> returns \<open>Inl\<close> of the text or \<open>Inr\<close> of the value.
  \<^item> A Go \<open>int\<close>, \<open>int64\<close> or \<open>time.Duration\<close> is an \<open>int\<close>; wherever the code computes
    with a value it did not bound itself, the 64-bit wrap-around is written out with
    \<open>wrap64\<close>.
  \<^item> A \<open>time.Time\<close> is a \<open>gtime\<close>: nanoseconds since the Unix epoch, with the zero
    \<open>time.Time\<close> as \<open>zero_time\<close>.
\<close>

section \<open>Collections of facts\<close>

named_theorems str_simps \<open>equations of the string library that rewrite towards shorter terms\<close>
named_theorems go_defs \<open>definitions of the small wrappers a proof always unfolds\<close>

section \<open>Results\<close>

type_synonym go_error = string
type_synonym 'a res = "go_error + 'a"

abbreviation Err :: "go_error \<Rightarrow> 'a res" where "Err \<equiv> Inl"
abbreviation Ok :: "'a \<Rightarrow> 'a res" where "Ok \<equiv> Inr"

definition is_ok :: "'a res \<Rightarrow> bool" where
  "is_ok r = (case r of Inl _ \<Rightarrow> False | Inr _ \<Rightarrow> True)"

lemma is_ok_simps [simp]: "is_ok (Inl e) = False" "is_ok (Inr v) = True"
  by (simp_all add: is_ok_def)

lemma is_ok_iff: "is_ok r \<longleftrightarrow> (\<exists>v. r = Inr v)"
  by (cases r) auto

section \<open>64-bit integers\<close>

definition max_int64 :: int where "max_int64 = 9223372036854775807"
definition min_int64 :: int where "min_int64 = -9223372036854775808"

text \<open>Two's complement wrap-around of a 64-bit sum or product.\<close>

definition wrap64 :: "int \<Rightarrow> int" where
  "wrap64 x = (x + 9223372036854775808) mod 18446744073709551616 - 9223372036854775808"

lemma wrap64_range: "min_int64 \<le> wrap64 x \<and> wrap64 x \<le> max_int64"
proof -
  have "0 \<le> (x + 9223372036854775808) mod 18446744073709551616"
    and "(x + 9223372036854775808) mod 18446744073709551616 < 18446744073709551616"
    by simp_all
  then show ?thesis by (simp add: wrap64_def min_int64_def max_int64_def)
qed

lemma wrap64_id: "min_int64 \<le> x \<Longrightarrow> x \<le> max_int64 \<Longrightarrow> wrap64 x = x"
  by (simp add: wrap64_def min_int64_def max_int64_def mod_pos_pos_trivial)

section \<open>Time\<close>

datatype gtime = GTime (nanos: int)

instantiation gtime :: linorder
begin

definition less_eq_gtime :: "gtime \<Rightarrow> gtime \<Rightarrow> bool" where
  "less_eq_gtime a b = (nanos a \<le> nanos b)"

definition less_gtime :: "gtime \<Rightarrow> gtime \<Rightarrow> bool" where
  "less_gtime a b = (nanos a < nanos b)"

instance
  by standard (auto simp: less_eq_gtime_def less_gtime_def intro: gtime.expand)

end

lemma gtime_order [simp]:
  "(GTime a \<le> GTime b) = (a \<le> b)"
  "(GTime a < GTime b) = (a < b)"
  by (simp_all add: less_eq_gtime_def less_gtime_def)

text \<open>\<open>time.Time{}\<close> is 1 January of year 1, UTC; \<open>IsZero\<close> tests for it.\<close>

definition zero_time :: gtime where "zero_time = GTime (-62135596800000000000)"

definition is_zero_time :: "gtime \<Rightarrow> bool" where "is_zero_time t = (t = zero_time)"

text \<open>\<open>Time.Add\<close>, and \<open>Time.Sub\<close>, which saturates at the bounds of \<open>Duration\<close>.\<close>

definition time_add :: "gtime \<Rightarrow> int \<Rightarrow> gtime" where
  "time_add t d = GTime (nanos t + d)"

definition time_sub :: "gtime \<Rightarrow> gtime \<Rightarrow> int" where
  "time_sub a b = max min_int64 (min max_int64 (nanos a - nanos b))"

definition unix_milli :: "int \<Rightarrow> gtime" where
  "unix_milli ms = GTime (ms * 1000000)"

definition second_ns :: int where "second_ns = 1000000000"
definition millisecond_ns :: int where "millisecond_ns = 1000000"

lemmas time_defs = zero_time_def is_zero_time_def time_add_def time_sub_def unix_milli_def
  second_ns_def millisecond_ns_def

section \<open>Lists\<close>

lemma takeWhile_cong_all: "(\<forall>x \<in> set xs. P x) \<Longrightarrow> takeWhile P xs = xs"
  by (induction xs) auto

text \<open>A Go slice expression \<open>xs[a:b]\<close>: panics (None) unless \<open>0 \<le> a \<le> b \<le> len\<close>.\<close>

definition slice :: "'a list \<Rightarrow> int \<Rightarrow> int \<Rightarrow> 'a list option" where
  "slice xs a b =
     (if 0 \<le> a \<and> a \<le> b \<and> b \<le> int (length xs)
      then Some (take (nat (b - a)) (drop (nat a) xs)) else None)"

lemma slice_length: "slice xs a b = Some ys \<Longrightarrow> int (length ys) = b - a"
  by (auto simp: slice_def split: if_splits)

lemma slice_append:
  "slice xs a b = Some ys \<Longrightarrow> slice xs b c = Some zs \<Longrightarrow> slice xs a c = Some (ys @ zs)"
proof -
  assume 1: "slice xs a b = Some ys" and 2: "slice xs b c = Some zs"
  then have le: "0 \<le> a" "a \<le> b" "b \<le> c" "c \<le> int (length xs)"
    and ys: "ys = take (nat (b - a)) (drop (nat a) xs)"
    and zs: "zs = take (nat (c - b)) (drop (nat b) xs)"
    by (auto simp: slice_def split: if_splits)
  have d: "nat b = nat (b - a) + nat a" and n: "nat (c - a) = nat (b - a) + nat (c - b)"
    using le by linarith+
  have "take (nat (c - a)) (drop (nat a) xs) = ys @ zs"
    unfolding n ys zs d by (simp add: take_add)
  with le show ?thesis by (simp add: slice_def)
qed

lemma slice_set: "slice xs a b = Some ys \<Longrightarrow> set ys \<subseteq> set xs"
  by (auto simp: slice_def split: if_splits dest: in_set_takeD in_set_dropD)

section \<open>Maps whose keys are listed\<close>

text \<open>
  A Go \<open>map[string]T\<close> is a partial function where only look-ups matter, and an
  association list with distinct keys where the code ranges over it.
\<close>

abbreviation keys :: "('k \<times> 'v) list \<Rightarrow> 'k list" where "keys \<equiv> map fst"

definition put :: "'k \<Rightarrow> 'v \<Rightarrow> ('k \<times> 'v) list \<Rightarrow> ('k \<times> 'v) list" where
  "put k v m = (if k \<in> set (keys m)
     then map (\<lambda>(k', v'). if k' = k then (k, v) else (k', v')) m
     else m @ [(k, v)])"

definition del :: "'k \<Rightarrow> ('k \<times> 'v) list \<Rightarrow> ('k \<times> 'v) list" where
  "del k m = filter (\<lambda>(k', _). k' \<noteq> k) m"

lemma keys_put: "keys (put k v m) = (if k \<in> set (keys m) then keys m else keys m @ [k])"
  by (auto simp: put_def case_prod_unfold intro!: map_cong)

lemma map_of_replace:
  "map_of (map (\<lambda>(k', v'). if k' = k then (k, v) else (k', v')) m) =
    (if k \<in> set (keys m) then (map_of m)(k \<mapsto> v) else map_of m)"
  by (induction m) (auto simp: fun_eq_iff)

lemma map_of_put [simp]: "map_of (put k v m) = (map_of m)(k \<mapsto> v)"
proof (cases "k \<in> set (keys m)")
  case True
  then show ?thesis by (simp add: put_def map_of_replace)
next
  case False
  then have "map_of m k = None" by (simp add: map_of_eq_None_iff)
  with False show ?thesis
    by (auto simp: put_def fun_eq_iff map_add_def split: option.splits)
qed

lemma map_of_del [simp]: "map_of (del k m) = (map_of m)(k := None)"
  by (rule ext, induction m) (auto simp: del_def)

lemma distinct_put: "distinct (keys m) \<Longrightarrow> distinct (keys (put k v m))"
  by (simp add: keys_put)

lemma distinct_del: "distinct (keys m) \<Longrightarrow> distinct (keys (del k m))"
  by (induction m) (auto simp: del_def)

lemma keys_del: "set (keys (del k m)) = set (keys m) - {k}"
  by (auto simp: del_def)

end
