(* ===== verification/GoStrings.thy ===== *)
theory GoStrings
  imports GoBase
begin

text \<open>
  The functions of Go's packages \<open>strings\<close>, \<open>strconv\<close> and \<open>sort\<close> that the program calls,
  on byte strings.

  White space is exact for every byte string: \<open>unicode.IsSpace\<close> holds of 25 runes, and the
  UTF-8 encoding of each starts with a byte that is never a continuation byte, so trimming
  and splitting on the encodings is what the rune-wise code does, on invalid UTF-8 too.
  Case mapping is exact for ASCII; bytes from \<open>0x80\<close> are left as they are, so \<open>ToLower\<close>,
  \<open>ToUpper\<close> and \<open>EqualFold\<close> are the code's on every string whose letters outside ASCII have
  no other case.
\<close>

abbreviation NL :: char where "NL \<equiv> CHR 0x0A"
abbreviation CR :: char where "CR \<equiv> CHR 0x0D"

section \<open>Prefixes, suffixes, search\<close>

fun has_prefix :: "string \<Rightarrow> string \<Rightarrow> bool" where
  "has_prefix _ [] = True"
| "has_prefix [] (_ # _) = False"
| "has_prefix (x # xs) (p # ps) = (x = p \<and> has_prefix xs ps)"

definition has_suffix :: "string \<Rightarrow> string \<Rightarrow> bool" where
  "has_suffix s p = has_prefix (rev s) (rev p)"

lemma has_prefix_iff: "has_prefix s p \<longleftrightarrow> (\<exists>r. s = p @ r)"
  by (induction s p rule: has_prefix.induct) auto

lemma has_prefix_append [simp]: "has_prefix (p @ r) p"
  by (auto simp: has_prefix_iff)

lemma has_prefix_mono: "has_prefix t p \<Longrightarrow> has_prefix (t @ r) p"
  by (auto simp: has_prefix_iff)

lemma has_suffix_append [simp]: "has_suffix (r @ p) p"
  by (simp add: has_suffix_def)

text \<open>\<open>strings.TrimPrefix\<close>.\<close>

definition trim_prefix :: "string \<Rightarrow> string \<Rightarrow> string" where
  "trim_prefix s p = (if has_prefix s p then drop (length p) s else s)"

lemma trim_prefix_append [simp]: "trim_prefix (p @ r) p = r"
  by (simp add: trim_prefix_def)

text \<open>\<open>strings.Index\<close>: the first position of a substring.\<close>

fun index_of :: "string \<Rightarrow> string \<Rightarrow> nat option" where
  "index_of [] p = (if p = [] then Some 0 else None)"
| "index_of (x # xs) p =
     (if has_prefix (x # xs) p then Some 0 else map_option Suc (index_of xs p))"

definition contains :: "string \<Rightarrow> string \<Rightarrow> bool" where
  "contains s p = (index_of s p \<noteq> None)"

lemma index_of_Some: "index_of s p = Some i \<Longrightarrow> i \<le> length s \<and> has_prefix (drop i s) p"
proof (induction s arbitrary: i)
  case (Cons x s)
  then show ?case by (cases "has_prefix (x # s) p") auto
qed (auto split: if_splits)

lemma contains_append: "contains (a @ p @ b) p"
proof (induction a)
  case Nil
  have "has_prefix (p @ b) p" by simp
  then have "index_of (p @ b) p = Some 0" by (cases "p @ b") auto
  then show ?case by (simp add: contains_def)
next
  case (Cons x a)
  then show ?case by (auto simp: contains_def)
qed

lemma contains_iff: "contains s p \<longleftrightarrow> (\<exists>a b. s = a @ p @ b)"
proof
  assume "contains s p"
  then obtain i where "index_of s p = Some i" by (auto simp: contains_def)
  then have "i \<le> length s" and "has_prefix (drop i s) p" by (auto dest: index_of_Some)
  then obtain r where "drop i s = p @ r" by (auto simp: has_prefix_iff)
  then have "s = take i s @ p @ r" by (metis append_take_drop_id)
  then show "\<exists>a b. s = a @ p @ b" by blast
qed (auto simp: contains_append)

lemma contains_char: "contains s [c] \<longleftrightarrow> c \<in> set s"
  by (auto simp: contains_iff in_set_conv_decomp)

section \<open>Splitting and joining\<close>

text \<open>\<open>strings.Split(s, c)\<close> for a separator of one byte.\<close>

fun split_on :: "char \<Rightarrow> string \<Rightarrow> string list" where
  "split_on c [] = [[]]"
| "split_on c (x # xs) =
     (if x = c then [] # split_on c xs
      else (case split_on c xs of [] \<Rightarrow> [[x]] | y # ys \<Rightarrow> (x # y) # ys))"

fun join :: "string \<Rightarrow> string list \<Rightarrow> string" where
  "join sep [] = []"
| "join sep [x] = x"
| "join sep (x # y # ys) = x @ sep @ join sep (y # ys)"

lemma split_on_not_Nil [simp]: "split_on c s \<noteq> []"
  by (induction s) (auto split: list.splits)

lemma join_split_on: "join [c] (split_on c s) = s"
proof (induction s)
  case (Cons x s)
  obtain y ys where "split_on c s = y # ys" by (cases "split_on c s") auto
  with Cons.IH show ?case by (cases ys) auto
qed simp

lemma split_on_no_sep: "p \<in> set (split_on c s) \<Longrightarrow> c \<notin> set p"
proof (induction s arbitrary: p)
  case (Cons x s)
  then show ?case by (cases "split_on c s") (auto split: if_splits)
qed simp

lemma split_on_single: "c \<notin> set s \<Longrightarrow> split_on c s = [s]"
  by (induction s) auto

lemma split_on_append:
  "c \<notin> set p \<Longrightarrow> split_on c (p @ c # s) = p # split_on c s"
  by (induction p) auto

lemma split_on_glue: "split_on c (a @ c # b) = split_on c a @ split_on c b"
proof (induction a)
  case (Cons x a)
  then show ?case by (auto split: list.splits simp: append_eq_Cons_conv)
qed simp

lemma split_on_join:
  "xs \<noteq> [] \<Longrightarrow> (\<forall>x \<in> set xs. c \<notin> set x) \<Longrightarrow> split_on c (join [c] xs) = xs"
  by (induction "[c]" xs rule: join.induct) (auto simp: split_on_single split_on_append)

text \<open>\<open>strings.SplitN(s, c, 2)\<close>: one or two parts, cut at the first separator.\<close>

definition split_n2 :: "char \<Rightarrow> string \<Rightarrow> string list" where
  "split_n2 c s =
     (if c \<in> set s then [takeWhile (\<lambda>x. x \<noteq> c) s, tl (dropWhile (\<lambda>x. x \<noteq> c) s)] else [s])"

lemma cut_append:
  "c \<notin> set p \<Longrightarrow> takeWhile (\<lambda>x. x \<noteq> c) (p @ c # s) = p"
  "c \<notin> set p \<Longrightarrow> dropWhile (\<lambda>x. x \<noteq> c) (p @ c # s) = c # s"
  by (induction p) auto

lemma split_n2_append: "c \<notin> set p \<Longrightarrow> split_n2 c (p @ c # s) = [p, s]"
  by (simp add: split_n2_def cut_append)

lemma split_n2_none: "c \<notin> set s \<Longrightarrow> split_n2 c s = [s]"
  by (simp add: split_n2_def)

text \<open>\<open>strings.ReplaceAll(s, "\r\n", "\n")\<close>.\<close>

fun crlf_to_lf :: "string \<Rightarrow> string" where
  "crlf_to_lf (x # y # xs) =
     (if x = CR \<and> y = NL then NL # crlf_to_lf xs else x # crlf_to_lf (y # xs))"
| "crlf_to_lf xs = xs"

section \<open>Cut sets\<close>

definition trim_right_set :: "string \<Rightarrow> char list \<Rightarrow> string" where
  "trim_right_set s cs = rev (dropWhile (\<lambda>x. x \<in> set cs) (rev s))"

definition trim_set :: "string \<Rightarrow> char list \<Rightarrow> string" where
  "trim_set s cs = trim_right_set (dropWhile (\<lambda>x. x \<in> set cs) s) cs"

lemma dropWhile_twice: "dropWhile P (dropWhile P xs) = dropWhile P xs"
  by (induction xs) auto

lemma trim_right_set_idem [simp]: "trim_right_set (trim_right_set s cs) cs = trim_right_set s cs"
  by (simp add: trim_right_set_def dropWhile_twice)

lemma trim_right_set_id: "s \<noteq> [] \<Longrightarrow> last s \<notin> set cs \<Longrightarrow> trim_right_set s cs = s"
  by (cases s rule: rev_cases) (auto simp: trim_right_set_def)

lemma trim_right_set_Nil [simp]: "trim_right_set [] cs = []"
  by (simp add: trim_right_set_def)

lemma trim_right_set_last:
  "trim_right_set s cs \<noteq> [] \<Longrightarrow> last (trim_right_set s cs) \<notin> set cs"
  using hd_dropWhile [of "\<lambda>x. x \<in> set cs" "rev s"]
  by (auto simp: trim_right_set_def last_rev)

lemma set_trim_right_set: "set (trim_right_set s cs) \<subseteq> set s"
  by (auto simp: trim_right_set_def dest: set_dropWhileD)

end
