(* ===== verification/GoSpace.thy ===== *)
theory GoSpace
  imports GoStrings
begin

text \<open>
  White space and case: \<open>strings.TrimSpace\<close>, \<open>strings.Fields\<close>, \<open>strings.ToLower\<close>,
  \<open>strings.ToUpper\<close> and \<open>strings.EqualFold\<close>, with the facts the normalisations of the
  program rest on: trimming and lowering are idempotent and commute.
\<close>

section \<open>White space\<close>

text \<open>The UTF-8 encodings of the 25 runes of \<open>unicode.IsSpace\<close>.\<close>

definition space_encodings :: "string list" where
  "space_encodings =
    [[CHR 0x20], [CHR 0x0A], [CHR 0x09], [CHR 0x0D], [CHR 0x0B], [CHR 0x0C],
     [CHR 0xC2, CHR 0x85], [CHR 0xC2, CHR 0xA0], [CHR 0xE1, CHR 0x9A, CHR 0x80],
     [CHR 0xE2, CHR 0x80, CHR 0x80], [CHR 0xE2, CHR 0x80, CHR 0x81],
     [CHR 0xE2, CHR 0x80, CHR 0x82], [CHR 0xE2, CHR 0x80, CHR 0x83],
     [CHR 0xE2, CHR 0x80, CHR 0x84], [CHR 0xE2, CHR 0x80, CHR 0x85],
     [CHR 0xE2, CHR 0x80, CHR 0x86], [CHR 0xE2, CHR 0x80, CHR 0x87],
     [CHR 0xE2, CHR 0x80, CHR 0x88], [CHR 0xE2, CHR 0x80, CHR 0x89],
     [CHR 0xE2, CHR 0x80, CHR 0x8A], [CHR 0xE2, CHR 0x80, CHR 0xA8],
     [CHR 0xE2, CHR 0x80, CHR 0xA9], [CHR 0xE2, CHR 0x80, CHR 0xAF],
     [CHR 0xE2, CHR 0x81, CHR 0x9F], [CHR 0xE3, CHR 0x80, CHR 0x80]]"

text \<open>Strip the first of the given encodings that starts the string.\<close>

fun strip_any :: "string list \<Rightarrow> string \<Rightarrow> string option" where
  "strip_any [] s = None"
| "strip_any (e # es) s =
     (if e \<noteq> [] \<and> has_prefix s e then Some (drop (length e) s) else strip_any es s)"

lemma strip_any_None: "strip_any es s = None \<longleftrightarrow> (\<forall>e \<in> set es. e \<noteq> [] \<longrightarrow> \<not> has_prefix s e)"
  by (induction es) auto

lemma strip_any_Some:
  "strip_any es s = Some r \<Longrightarrow> \<exists>e \<in> set es. e \<noteq> [] \<and> s = e @ r"
  by (induction es) (auto simp: has_prefix_iff split: if_splits)

lemma strip_any_shorter: "strip_any es s = Some r \<Longrightarrow> length r < length s"
  by (auto dest!: strip_any_Some)

lemma strip_any_prefix: "strip_any es (t @ r) = None \<Longrightarrow> strip_any es t = None"
  by (auto simp: strip_any_None dest: has_prefix_mono)

function trim_lead :: "string list \<Rightarrow> string \<Rightarrow> string" where
  "trim_lead es s = (case strip_any es s of None \<Rightarrow> s | Some r \<Rightarrow> trim_lead es r)"
  by pat_completeness auto
termination
  by (relation "measure (\<lambda>(es, s). length s)") (auto dest: strip_any_shorter)

declare trim_lead.simps [simp del]

lemma trim_lead_fix: "strip_any es s = None \<Longrightarrow> trim_lead es s = s"
  by (simp add: trim_lead.simps)

lemma trim_lead_step: "strip_any es s = Some r \<Longrightarrow> trim_lead es s = trim_lead es r"
  by (simp add: trim_lead.simps [of es s])

lemma trim_lead_clean: "strip_any es (trim_lead es s) = None"
proof (induction es s rule: trim_lead.induct)
  case (1 es s)
  then show ?case by (cases "strip_any es s") (auto simp: trim_lead_fix trim_lead_step)
qed

lemma trim_lead_suffix: "\<exists>w. s = w @ trim_lead es s"
proof (induction es s rule: trim_lead.induct)
  case (1 es s)
  show ?case
  proof (cases "strip_any es s")
    case (Some r)
    then obtain e where e: "s = e @ r" by (auto dest: strip_any_Some)
    from 1 [OF Some] obtain w where w: "r = w @ trim_lead es r" by blast
    from e w have "s = (e @ w) @ trim_lead es r" by simp
    with Some show ?thesis by (auto simp: trim_lead_step)
  qed (simp add: trim_lead_fix)
qed

definition trim_trail :: "string list \<Rightarrow> string \<Rightarrow> string" where
  "trim_trail es s = rev (trim_lead (map rev es) (rev s))"

lemma trim_trail_prefix: "\<exists>w. s = trim_trail es s @ w"
proof -
  obtain w where "rev s = w @ trim_lead (map rev es) (rev s)"
    using trim_lead_suffix by blast
  then have "s = rev (w @ trim_lead (map rev es) (rev s))" by (metis rev_rev_ident)
  then show ?thesis unfolding trim_trail_def by auto
qed

text \<open>\<open>strings.TrimSpace\<close>.\<close>

definition trim_space :: "string \<Rightarrow> string" where
  "trim_space s = trim_trail space_encodings (trim_lead space_encodings s)"

text \<open>A string that \<open>TrimSpace\<close> leaves alone.\<close>

definition trimmed :: "string \<Rightarrow> bool" where
  "trimmed s \<longleftrightarrow> strip_any space_encodings s = None
     \<and> strip_any (map rev space_encodings) (rev s) = None"

lemma trimmed_trim_space [simp]: "trimmed (trim_space s)"
proof -
  let ?l = "trim_lead space_encodings s"
  obtain w where w: "?l = trim_space s @ w"
    using trim_trail_prefix unfolding trim_space_def by blast
  have "strip_any space_encodings (trim_space s @ w) = None"
    using trim_lead_clean [of space_encodings s] by (simp flip: w)
  then show ?thesis
    by (auto simp: trimmed_def trim_space_def trim_trail_def trim_lead_clean
        dest: strip_any_prefix)
qed

lemma trim_space_id: "trimmed s \<Longrightarrow> trim_space s = s"
  by (simp add: trimmed_def trim_space_def trim_trail_def trim_lead_fix)

lemma trim_space_eq_iff: "trim_space s = s \<longleftrightarrow> trimmed s"
  by (metis trim_space_id trimmed_trim_space)

lemma trim_space_idem [simp]: "trim_space (trim_space s) = trim_space s"
  by (simp add: trim_space_id)

lemma trim_space_sub: "\<exists>a b. s = a @ trim_space s @ b"
proof -
  let ?l = "trim_lead space_encodings s"
  obtain a where a: "s = a @ ?l" using trim_lead_suffix by blast
  obtain b where b: "?l = trim_trail space_encodings ?l @ b" using trim_trail_prefix by blast
  from a b have "s = a @ trim_trail space_encodings ?l @ b" by metis
  then show ?thesis unfolding trim_space_def by blast
qed

lemma trim_space_blank [simp]: "trim_space (CHR '' '' # v) = trim_space v"
proof -
  have "strip_any space_encodings (CHR '' '' # v) = Some v" by (simp add: space_encodings_def)
  then show ?thesis by (simp add: trim_space_def trim_lead_step)
qed

lemma set_trim_space: "set (trim_space s) \<subseteq> set s"
  using trim_space_sub [of s] by (metis le_supI1 set_append subset_refl sup_ge2 order_trans)

lemma length_trim_space: "length (trim_space s) \<le> length s"
proof -
  obtain a b where "s = a @ trim_space s @ b" using trim_space_sub by blast
  then have "length s = length a + length (trim_space s) + length b"
    by (metis add.assoc length_append)
  then show ?thesis by simp
qed

lemma trimmed_Nil [simp]: "trimmed []"
  by (simp add: trimmed_def strip_any_None space_encodings_def)

lemma trim_space_Nil [simp]: "trim_space [] = []"
  by (simp add: trim_space_id)

text \<open>A printable ASCII byte starts and ends no white space.\<close>

definition plain_char :: "char \<Rightarrow> bool" where
  "plain_char c \<longleftrightarrow> (33::nat) \<le> of_char c \<and> of_char c < (127::nat)"

lemma plain_not_space:
  assumes "plain_char c"
  shows "\<forall>e \<in> set space_encodings. hd e \<noteq> c \<and> last e \<noteq> c"
proof -
  have "plain_char (hd e) = False \<and> plain_char (last e) = False"
    if "e \<in> set space_encodings" for e
    using that by (auto simp: space_encodings_def plain_char_def)
  with assms show ?thesis by blast
qed

lemma space_encodings_not_Nil: "e \<in> set space_encodings \<Longrightarrow> e \<noteq> []"
  by (auto simp: space_encodings_def)

lemma trimmed_plain:
  assumes "s \<noteq> []" "plain_char (hd s)" "plain_char (last s)"
  shows "trimmed s"
proof -
  have "\<not> has_prefix s e" if e: "e \<in> set space_encodings" for e
  proof
    assume "has_prefix s e"
    then obtain r where "s = e @ r" by (auto simp: has_prefix_iff)
    then have "hd s = hd e" using space_encodings_not_Nil [OF e] by simp
    with plain_not_space [OF assms(2)] e show False by auto
  qed
  moreover have "\<not> has_prefix (rev s) (rev e)" if e: "e \<in> set space_encodings" for e
  proof
    assume "has_prefix (rev s) (rev e)"
    then obtain r where "rev s = rev e @ r" by (auto simp: has_prefix_iff)
    then have "s = rev r @ e" by (metis rev_append rev_rev_ident)
    then have "last s = last e" using space_encodings_not_Nil [OF e] by simp
    with plain_not_space [OF assms(3)] e show False by auto
  qed
  ultimately show ?thesis by (auto simp: trimmed_def strip_any_None)
qed

lemma trim_space_plain:
  "s \<noteq> [] \<Longrightarrow> plain_char (hd s) \<Longrightarrow> plain_char (last s) \<Longrightarrow> trim_space s = s"
  by (simp add: trim_space_id trimmed_plain)

section \<open>Case\<close>

definition lower_char :: "char \<Rightarrow> char" where
  "lower_char c = (if CHR ''A'' \<le> c \<and> c \<le> CHR ''Z'' then char_of (of_char c + (32::nat)) else c)"

definition upper_char :: "char \<Rightarrow> char" where
  "upper_char c = (if CHR ''a'' \<le> c \<and> c \<le> CHR ''z'' then char_of (of_char c - (32::nat)) else c)"

definition to_lower :: "string \<Rightarrow> string" where "to_lower s = map lower_char s"
definition to_upper :: "string \<Rightarrow> string" where "to_upper s = map upper_char s"

definition equal_fold :: "string \<Rightarrow> string \<Rightarrow> bool" where
  "equal_fold a b = (to_lower a = to_lower b)"

lemma char_range:
  "(CHR ''A'' \<le> c \<and> c \<le> CHR ''Z'') = ((65::nat) \<le> of_char c \<and> of_char c \<le> (90::nat))"
  "(CHR ''a'' \<le> c \<and> c \<le> CHR ''z'') = ((97::nat) \<le> of_char c \<and> of_char c \<le> (122::nat))"
  by (simp_all add: less_eq_char_def)

lemma lower_char_code:
  "(of_char (lower_char c) :: nat) =
     (if 65 \<le> (of_char c :: nat) \<and> (of_char c :: nat) \<le> 90 then of_char c + 32 else of_char c)"
  by (simp add: lower_char_def char_range)

lemma upper_char_code:
  "(of_char (upper_char c) :: nat) =
     (if 97 \<le> (of_char c :: nat) \<and> (of_char c :: nat) \<le> 122 then of_char c - 32 else of_char c)"
  by (auto simp add: upper_char_def char_range)

lemma char_eqI: "(of_char c :: nat) = of_char d \<Longrightarrow> c = d"
  by (simp add: of_char_eq_iff)

lemma lower_char_idem [simp]: "lower_char (lower_char c) = lower_char c"
  by (rule char_eqI) (simp add: lower_char_code)

lemma upper_char_idem [simp]: "upper_char (upper_char c) = upper_char c"
  by (rule char_eqI) (auto simp add: upper_char_code)

lemma lower_upper_char [simp]: "lower_char (upper_char c) = lower_char c"
  by (rule char_eqI) (auto simp: lower_char_code upper_char_code)

lemma to_lower_simps [simp]:
  "to_lower [] = []" "to_lower (c # s) = lower_char c # to_lower s"
  "to_lower (a @ b) = to_lower a @ to_lower b"
  "length (to_lower s) = length s" "(to_lower s = []) = (s = [])"
  "to_lower (to_lower s) = to_lower s" "to_lower (rev s) = rev (to_lower s)"
  by (simp_all add: to_lower_def rev_map)

lemma to_upper_simps [simp]:
  "to_upper [] = []" "to_upper (c # s) = upper_char c # to_upper s"
  "to_upper (a @ b) = to_upper a @ to_upper b"
  "length (to_upper s) = length s" "(to_upper s = []) = (s = [])"
  "to_upper (to_upper s) = to_upper s" "to_lower (to_upper s) = to_lower s"
  by (simp_all add: to_upper_def to_lower_def)

lemma equal_fold_refl [simp]: "equal_fold a a"
  by (simp add: equal_fold_def)

lemma equal_fold_lower [simp]:
  "equal_fold (to_lower a) b = equal_fold a b" "equal_fold a (to_lower b) = equal_fold a b"
  by (simp_all add: equal_fold_def)

section \<open>White space and case together\<close>

text \<open>
  Case mapping changes letters only, so it neither makes nor breaks white space: the two
  normalisations of the program, \<open>ToLower(TrimSpace(s))\<close> and \<open>TrimSpace(ToLower(s))\<close>, agree.
\<close>

definition caseless :: "string \<Rightarrow> bool" where
  "caseless e \<longleftrightarrow> (\<forall>c \<in> set e. \<not> (97 \<le> (of_char c :: nat) \<and> (of_char c :: nat) \<le> 122)
     \<and> \<not> (65 \<le> (of_char c :: nat) \<and> (of_char c :: nat) \<le> 90))"

lemma caseless_spaces: "e \<in> set space_encodings \<Longrightarrow> caseless e"
  by (auto simp: space_encodings_def caseless_def)

lemma lower_char_fixes:
  assumes "caseless [d]"
  shows "(lower_char c = d) = (c = d)"
proof -
  have "(lower_char c = d) = ((of_char (lower_char c) :: nat) = of_char d)"
    and "(c = d) = ((of_char c :: nat) = of_char d)"
    by (simp_all add: of_char_eq_iff)
  then show ?thesis
    using assms unfolding lower_char_code by (auto simp: caseless_def)
qed

lemma drop_to_lower: "drop n (to_lower s) = to_lower (drop n s)"
  by (simp add: to_lower_def drop_map)

lemma has_prefix_to_lower: "caseless e \<Longrightarrow> has_prefix (to_lower s) e = has_prefix s e"
proof (induction s e rule: has_prefix.induct)
  case (3 x xs p ps)
  then have "caseless [p]" "caseless ps" by (auto simp: caseless_def)
  with 3 show ?case by (simp add: lower_char_fixes)
qed auto

lemma strip_any_to_lower:
  "\<forall>e \<in> set es. caseless e \<Longrightarrow>
    strip_any es (to_lower s) = map_option to_lower (strip_any es s)"
  by (induction es) (auto simp: has_prefix_to_lower drop_to_lower)

lemma trim_lead_to_lower:
  "\<forall>e \<in> set es. caseless e \<Longrightarrow> trim_lead es (to_lower s) = to_lower (trim_lead es s)"
proof (induction es s rule: trim_lead.induct)
  case (1 es s)
  then show ?case
    by (cases "strip_any es s")
      (auto simp: trim_lead_fix trim_lead_step strip_any_to_lower)
qed

lemma trim_space_to_lower [simp]: "trim_space (to_lower s) = to_lower (trim_space s)"
proof -
  have a: "\<forall>e \<in> set space_encodings. caseless e"
    and b: "\<forall>e \<in> set (map rev space_encodings). caseless e"
    using caseless_spaces by (auto simp: caseless_def)
  have "rev (to_lower x) = to_lower (rev x)" for x by simp
  then show ?thesis
    by (simp add: trim_space_def trim_trail_def trim_lead_to_lower [OF a]
        trim_lead_to_lower [OF b] del: to_lower_simps(7))
qed

lemma trimmed_to_lower: "trimmed s \<Longrightarrow> trimmed (to_lower s)"
  by (metis trim_space_eq_iff trim_space_to_lower)

text \<open>The normal form of a key: what most components compare.\<close>

definition normal_key :: "string \<Rightarrow> string" where
  "normal_key s = to_lower (trim_space s)"

lemma normal_key_idem [simp]: "normal_key (normal_key s) = normal_key s"
  by (simp add: normal_key_def)

lemma normal_key_trim [simp]: "normal_key (trim_space s) = normal_key s"
  "trim_space (normal_key s) = normal_key s" "to_lower (normal_key s) = normal_key s"
  by (simp_all add: normal_key_def)

section \<open>Fields\<close>

text \<open>\<open>strings.Fields\<close>: the maximal runs of non-white-space bytes.\<close>

function fields_from :: "string \<Rightarrow> string \<Rightarrow> string list" where
  "fields_from cur s =
     (case strip_any space_encodings s of
        Some r \<Rightarrow> (if cur = [] then fields_from [] r else cur # fields_from [] r)
      | None \<Rightarrow>
          (case s of
             [] \<Rightarrow> (if cur = [] then [] else [cur])
           | c # s' \<Rightarrow> fields_from (cur @ [c]) s'))"
  by pat_completeness auto
termination
  by (relation "measure (\<lambda>(cur, s). length s)") (auto dest: strip_any_shorter)

declare fields_from.simps [simp del]

definition str_fields :: "string \<Rightarrow> string list" where
  "str_fields s = fields_from [] s"

lemma fields_from_space:
  "strip_any space_encodings s = Some r \<Longrightarrow>
    fields_from cur s = (if cur = [] then [] else [cur]) @ fields_from [] r"
  by (simp add: fields_from.simps [of cur s])

lemma strip_any_Nil [simp]: "strip_any es [] = None"
  by (induction es) (auto simp: has_prefix_iff)

lemma fields_from_end [simp]: "fields_from cur [] = (if cur = [] then [] else [cur])"
  by (simp add: fields_from.simps [of cur "[]"])

lemma fields_from_char:
  "strip_any space_encodings (c # s) = None \<Longrightarrow>
    fields_from cur (c # s) = fields_from (cur @ [c]) s"
  by (simp add: fields_from.simps [of cur "c # s"])

lemma fields_induct [case_names space stop char]:
  assumes "\<And>cur s r. strip_any space_encodings s = Some r \<Longrightarrow> P [] r \<Longrightarrow> P cur s"
    and "\<And>cur. P cur []"
    and "\<And>cur c s. strip_any space_encodings (c # s) = None \<Longrightarrow> P (cur @ [c]) s \<Longrightarrow> P cur (c # s)"
  shows "P cur s"
proof (induction cur s rule: fields_from.induct)
  case (1 cur s)
  show ?case
  proof (cases "strip_any space_encodings s")
    case None
    with 1 show ?thesis by (cases s) (auto intro: assms)
  next
    case (Some r)
    with 1 have "P [] r" by (cases "cur = []") auto
    with Some show ?thesis by (rule assms(1))
  qed
qed

lemma fields_from_nonempty: "w \<in> set (fields_from cur s) \<Longrightarrow> w \<noteq> []"
  by (induction cur s rule: fields_induct)
    (auto simp: fields_from_space fields_from_char split: if_splits)

lemma fields_nonempty: "w \<in> set (str_fields s) \<Longrightarrow> w \<noteq> []"
  by (auto simp: str_fields_def dest: fields_from_nonempty)

lemma fields_from_bytes: "w \<in> set (fields_from cur s) \<Longrightarrow> set w \<subseteq> set cur \<union> set s"
proof (induction cur s arbitrary: w rule: fields_induct)
  case (space cur s r)
  then have "set r \<subseteq> set s" by (auto dest!: strip_any_Some)
  with space show ?case by (fastforce simp: fields_from_space split: if_splits)
next
  case (char cur c s)
  then show ?case by (fastforce simp: fields_from_char)
qed (simp split: if_splits)

lemma fields_bytes: "w \<in> set (str_fields s) \<Longrightarrow> set w \<subseteq> set s"
  using fields_from_bytes [of w "[]" s] by (simp add: str_fields_def)

text \<open>A word: non-empty, and no white space starts anywhere inside it.\<close>

definition spaceless :: "string \<Rightarrow> bool" where
  "spaceless s \<longleftrightarrow> (\<forall>i < length s. strip_any space_encodings (drop i s) = None)"

lemma spaceless_Nil [simp]: "spaceless []"
  by (simp add: spaceless_def)

lemma spaceless_Cons:
  "spaceless (c # s) \<longleftrightarrow> strip_any space_encodings (c # s) = None \<and> spaceless s"
  by (auto simp: spaceless_def less_Suc_eq_0_disj)

lemma fields_from_word:
  "spaceless w \<Longrightarrow> fields_from cur w = (if cur @ w = [] then [] else [cur @ w])"
  by (induction w arbitrary: cur) (auto simp: spaceless_Cons fields_from_char)

lemma fields_word: "spaceless w \<Longrightarrow> w \<noteq> [] \<Longrightarrow> str_fields w = [w]"
  by (simp add: str_fields_def fields_from_word)

lemma fields_Nil [simp]: "str_fields [] = []"
  by (simp add: str_fields_def)

end
