(* ===== verification/GoNum.thy ===== *)
theory GoNum
  imports GoSpace
begin

text \<open>
  Decimal numbers: \<open>strconv.Itoa\<close>, \<open>strconv.FormatInt(_, 10)\<close> and the \<open>%d\<close> verb as \<open>itoa\<close>,
  \<open>strconv.Atoi\<close> and \<open>strconv.ParseInt(_, 10, 64)\<close> as \<open>atoi\<close> (\<open>None\<close> where they return an
  error: a syntax error or a value out of the 64-bit range), and that reading what was
  printed gives the number back.
\<close>

definition digit_char :: "nat \<Rightarrow> char" where
  "digit_char d = char_of (48 + d)"

definition is_digit :: "char \<Rightarrow> bool" where
  "is_digit c \<longleftrightarrow> (48::nat) \<le> of_char c \<and> of_char c \<le> (57::nat)"

definition digit_val :: "char \<Rightarrow> int" where
  "digit_val c = int (of_char c) - 48"

lemma digit_char_val:
  "d < 10 \<Longrightarrow> is_digit (digit_char d)" "d < 10 \<Longrightarrow> digit_val (digit_char d) = int d"
  by (simp_all add: digit_char_def is_digit_def digit_val_def)

fun nat_itoa :: "nat \<Rightarrow> string" where
  "nat_itoa n = (if n < 10 then [digit_char n] else nat_itoa (n div 10) @ [digit_char (n mod 10)])"

declare nat_itoa.simps [simp del]

definition itoa :: "int \<Rightarrow> string" where
  "itoa i = (if i < 0 then CHR ''-'' # nat_itoa (nat (- i)) else nat_itoa (nat i))"

text \<open>The value of a non-empty run of digits, read from the left.\<close>

fun digits_val :: "int \<Rightarrow> string \<Rightarrow> int option" where
  "digits_val acc [] = Some acc"
| "digits_val acc (c # s) = (if is_digit c then digits_val (10 * acc + digit_val c) s else None)"

definition parse_nat :: "string \<Rightarrow> int option" where
  "parse_nat s = (if s = [] then None else digits_val 0 s)"

definition atoi :: "string \<Rightarrow> int option" where
  "atoi s =
     (case s of
        [] \<Rightarrow> None
      | c # r \<Rightarrow>
          (let neg = (c = CHR ''-'');
               body = (if c = CHR ''-'' \<or> c = CHR ''+'' then r else s)
           in case parse_nat body of
                None \<Rightarrow> None
              | Some n \<Rightarrow>
                  (let i = (if neg then - n else n)
                   in if min_int64 \<le> i \<and> i \<le> max_int64 then Some i else None)))"

lemma digits_val_append:
  "digits_val acc (a @ b) = (case digits_val acc a of None \<Rightarrow> None | Some v \<Rightarrow> digits_val v b)"
  by (induction acc a rule: digits_val.induct) auto

lemma nat_itoa_not_Nil [simp]: "nat_itoa n \<noteq> []"
  by (subst nat_itoa.simps) simp

lemma nat_itoa_digits: "c \<in> set (nat_itoa n) \<Longrightarrow> is_digit c"
proof (induction n rule: nat_itoa.induct)
  case (1 n)
  then show ?case
    by (auto simp: nat_itoa.simps [of n] digit_char_val split: if_splits)
qed

lemma digits_val_nat_itoa: "digits_val 0 (nat_itoa n) = Some (int n)"
proof (induction n rule: nat_itoa.induct)
  case (1 n)
  show ?case
  proof (cases "n < 10")
    case True
    then show ?thesis by (simp add: nat_itoa.simps [of n] digit_char_val)
  next
    case False
    with 1 have "digits_val 0 (nat_itoa (n div 10)) = Some (int (n div 10))" by simp
    with False show ?thesis
      by (simp add: nat_itoa.simps [of n] digits_val_append digit_char_val zdiv_int zmod_int)
  qed
qed

lemma parse_nat_itoa [simp]: "parse_nat (nat_itoa n) = Some (int n)"
  by (simp add: parse_nat_def digits_val_nat_itoa)

lemma nat_itoa_inject [simp]: "nat_itoa m = nat_itoa n \<longleftrightarrow> m = n"
  by (metis option.inject of_nat_eq_iff parse_nat_itoa)

lemma nat_itoa_hd: "nat_itoa n = c # r \<Longrightarrow> c \<noteq> CHR ''-'' \<and> c \<noteq> CHR ''+''"
proof -
  assume "nat_itoa n = c # r"
  then have "is_digit c" using nat_itoa_digits [of c n] by simp
  then show ?thesis by (auto simp: is_digit_def)
qed

lemma itoa_not_Nil [simp]: "itoa i \<noteq> []"
  by (simp add: itoa_def)

lemma atoi_itoa:
  assumes "min_int64 \<le> i" "i \<le> max_int64"
  shows "atoi (itoa i) = Some i"
proof (cases "i < 0")
  case True
  with assms show ?thesis by (simp add: itoa_def atoi_def)
next
  case False
  obtain c r where cr: "nat_itoa (nat i) = c # r" by (cases "nat_itoa (nat i)") auto
  have p: "parse_nat (c # r) = Some i"
    using parse_nat_itoa [of "nat i"] cr False by simp
  from nat_itoa_hd [OF cr] have c: "c \<noteq> CHR ''-''" "c \<noteq> CHR ''+''" by auto
  have "atoi (c # r) = Some i"
    using assms False c p by (simp add: atoi_def)
  with False cr show ?thesis by (simp add: itoa_def)
qed

lemma itoa_inject [simp]: "itoa i = itoa j \<longleftrightarrow> i = j"
proof
  assume eq: "itoa i = itoa j"
  have hd_neg: "hd (itoa k) = CHR ''-'' \<longleftrightarrow> k < 0" for k
    by (cases "nat_itoa (nat k)") (auto simp: itoa_def dest: nat_itoa_hd)
  from eq have "i < 0 \<longleftrightarrow> j < 0" by (metis hd_neg)
  with eq show "i = j" by (auto simp: itoa_def split: if_splits)
qed simp

lemma plain_digit: "is_digit c \<Longrightarrow> plain_char c"
  by (auto simp: is_digit_def plain_char_def)

lemma itoa_plain: "c \<in> set (itoa i) \<Longrightarrow> plain_char c"
  by (auto simp: itoa_def plain_digit dest: nat_itoa_digits split: if_splits)
    (simp add: plain_char_def)

lemma trim_space_itoa [simp]: "trim_space (itoa i) = itoa i"
  by (rule trim_space_plain) (auto intro: itoa_plain [of _ i])

text \<open>The \<open>%v\<close> and \<open>%t\<close> verbs of a Boolean.\<close>

definition show_bool :: "bool \<Rightarrow> string" where
  "show_bool b = (if b then ''true'' else ''false'')"

text \<open>
  The verb \<open>%q\<close>: a Go string literal. Exact for ASCII; a byte from \<open>0x80\<close> is kept as it is,
  as \<open>strconv.Quote\<close> keeps every printable rune.
\<close>

definition hex_digit :: "nat \<Rightarrow> char" where
  "hex_digit n = (if n < 10 then char_of (48 + n) else char_of (87 + n))"

definition quote_char :: "char \<Rightarrow> string" where
  "quote_char c =
     (if c = CHR 0x22 then [CHR 0x5C, CHR 0x22]
      else if c = CHR 0x5C then [CHR 0x5C, CHR 0x5C]
      else if c = CHR 0x07 then [CHR 0x5C, CHR ''a'']
      else if c = CHR 0x08 then [CHR 0x5C, CHR ''b'']
      else if c = CHR 0x0C then [CHR 0x5C, CHR ''f'']
      else if c = CHR 0x0A then [CHR 0x5C, CHR ''n'']
      else if c = CHR 0x0D then [CHR 0x5C, CHR ''r'']
      else if c = CHR 0x09 then [CHR 0x5C, CHR ''t'']
      else if c = CHR 0x0B then [CHR 0x5C, CHR ''v'']
      else if c < CHR 0x20 \<or> c = CHR 0x7F then
        [CHR 0x5C, CHR ''x'', hex_digit (of_char c div 16), hex_digit (of_char c mod 16)]
      else [c])"

definition go_quote :: "string \<Rightarrow> string" where
  "go_quote s = [CHR 0x22] @ concat (map quote_char s) @ [CHR 0x22]"

end
