(* ===== verification/GoUtf8.thy ===== *)
theory GoUtf8
  imports GoNum
begin

text \<open>
  Runes: what \<open>for _, r := range s\<close> and \<open>[]rune(s)\<close> read from a byte string and what
  \<open>string(runes)\<close> writes. Decoding follows \<open>utf8.DecodeRune\<close>: an invalid or truncated
  sequence is the rune \<open>U+FFFD\<close> of size one. Decoding what was encoded gives the runes back.
\<close>

definition byte_val :: "char \<Rightarrow> nat" where "byte_val c = of_char c"
definition byte_chr :: "nat \<Rightarrow> char" where "byte_chr n = char_of n"

lemma byte_val_chr: "n < 256 \<Longrightarrow> byte_val (byte_chr n) = n"
  by (simp add: byte_val_def byte_chr_def)

lemma byte_chr_val [simp]: "byte_chr (byte_val c) = c"
  by (simp add: byte_val_def byte_chr_def)

lemma byte_val_less [simp]: "byte_val c < 256"
  by (simp add: byte_val_def)

definition rune_error :: nat where "rune_error = 65533"

text \<open>A continuation byte within bounds.\<close>

definition cont :: "nat \<Rightarrow> nat \<Rightarrow> char \<Rightarrow> bool" where
  "cont lo hi c \<longleftrightarrow> lo \<le> byte_val c \<and> byte_val c \<le> hi"

text \<open>The bounds of the second byte, by the first (the table \<open>acceptRanges\<close>).\<close>

definition second_lo :: "nat \<Rightarrow> nat" where
  "second_lo b = (if b = 224 then 160 else if b = 240 then 144 else 128)"

definition second_hi :: "nat \<Rightarrow> nat" where
  "second_hi b = (if b = 237 then 159 else if b = 244 then 143 else 191)"

definition decode_rune :: "char \<Rightarrow> string \<Rightarrow> nat \<times> nat" where
  "decode_rune c s =
     (let b = byte_val c in
      if b < 128 then (b, 1)
      else if 194 \<le> b \<and> b < 224 then
        (case s of
           c1 # _ \<Rightarrow> if cont 128 191 c1 then ((b - 192) * 64 + (byte_val c1 - 128), 2)
                    else (rune_error, 1)
         | _ \<Rightarrow> (rune_error, 1))
      else if 224 \<le> b \<and> b < 240 then
        (case s of
           c1 # c2 # _ \<Rightarrow>
             if cont (second_lo b) (second_hi b) c1 \<and> cont 128 191 c2
             then ((b - 224) * 4096 + (byte_val c1 - 128) * 64 + (byte_val c2 - 128), 3)
             else (rune_error, 1)
         | _ \<Rightarrow> (rune_error, 1))
      else if 240 \<le> b \<and> b < 245 then
        (case s of
           c1 # c2 # c3 # _ \<Rightarrow>
             if cont (second_lo b) (second_hi b) c1 \<and> cont 128 191 c2 \<and> cont 128 191 c3
             then ((b - 240) * 262144 + (byte_val c1 - 128) * 4096 + (byte_val c2 - 128) * 64
                   + (byte_val c3 - 128), 4)
             else (rune_error, 1)
         | _ \<Rightarrow> (rune_error, 1))
      else (rune_error, 1))"

text \<open>\<open>[]rune(s)\<close>.\<close>

fun runes :: "string \<Rightarrow> nat list" where
  "runes [] = []"
| "runes (c # s) =
     (let (r, n) = decode_rune c s in r # runes (drop (n - 1) s))"

text \<open>\<open>utf8.EncodeRune\<close> and \<open>string(runes)\<close>.\<close>

definition scalar :: "nat \<Rightarrow> bool" where
  "scalar r \<longleftrightarrow> r \<le> 1114111 \<and> \<not> (55296 \<le> r \<and> r \<le> 57343)"

definition encode_rune :: "nat \<Rightarrow> string" where
  "encode_rune r =
     (if r < 128 then [byte_chr r]
      else if r < 2048 then [byte_chr (192 + r div 64), byte_chr (128 + r mod 64)]
      else if \<not> scalar r then [CHR 0xEF, CHR 0xBF, CHR 0xBD]
      else if r < 65536 then
        [byte_chr (224 + r div 4096), byte_chr (128 + r div 64 mod 64), byte_chr (128 + r mod 64)]
      else
        [byte_chr (240 + r div 262144), byte_chr (128 + r div 4096 mod 64),
         byte_chr (128 + r div 64 mod 64), byte_chr (128 + r mod 64)])"

definition encode_runes :: "nat list \<Rightarrow> string" where
  "encode_runes rs = concat (map encode_rune rs)"

lemma encode_runes_simps [simp]:
  "encode_runes [] = []" "encode_runes (r # rs) = encode_rune r @ encode_runes rs"
  "encode_runes (xs @ ys) = encode_runes xs @ encode_runes ys"
  by (simp_all add: encode_runes_def)

lemma encode_runes_concat: "encode_runes (concat xss) = concat (map encode_runes xss)"
  by (induction xss) simp_all

lemma runes_ascii: "byte_val c < 128 \<Longrightarrow> runes (c # s) = byte_val c # runes s"
  by (simp add: decode_rune_def)

lemma runes_step:
  "decode_rune c s = (r, n) \<Longrightarrow> runes (c # s) = r # runes (drop (n - 1) s)"
  by simp

lemma decode_two:
  assumes "194 \<le> byte_val c" "byte_val c < 224" "cont 128 191 c1"
  shows "decode_rune c (c1 # s) = ((byte_val c - 192) * 64 + (byte_val c1 - 128), 2)"
  using assms unfolding decode_rune_def Let_def by simp

lemma decode_three:
  assumes "224 \<le> byte_val c" "byte_val c < 240"
    and "cont (second_lo (byte_val c)) (second_hi (byte_val c)) c1" "cont 128 191 c2"
  shows "decode_rune c (c1 # c2 # s) =
    ((byte_val c - 224) * 4096 + (byte_val c1 - 128) * 64 + (byte_val c2 - 128), 3)"
  using assms unfolding decode_rune_def Let_def by simp

lemma decode_four:
  assumes "240 \<le> byte_val c" "byte_val c < 245"
    and "cont (second_lo (byte_val c)) (second_hi (byte_val c)) c1"
    and "cont 128 191 c2" "cont 128 191 c3"
  shows "decode_rune c (c1 # c2 # c3 # s) =
    ((byte_val c - 240) * 262144 + (byte_val c1 - 128) * 4096 + (byte_val c2 - 128) * 64
      + (byte_val c3 - 128), 4)"
  using assms unfolding decode_rune_def Let_def by simp

text \<open>A rune in base 64, with its digits as variables: the rest is linear arithmetic.\<close>

lemma base64_digits:
  fixes r :: nat
  obtains a b c d where "r = a * 262144 + b * 4096 + c * 64 + d"
    and "b < 64" "c < 64" "d < 64" "a = r div 262144" "b = r div 4096 mod 64"
    and "c = r div 64 mod 64" "d = r mod 64" "r div 4096 = a * 64 + b" "r div 64 = a * 4096 + b * 64 + c"
proof -
  have p: "r div 4096 = r div 64 div 64" and a: "r div 262144 = r div 64 div 64 div 64"
    by (simp_all flip: div_mult2_eq)
  have 1: "r = r div 64 * 64 + r mod 64" by simp
  have 2: "r div 64 = r div 4096 * 64 + r div 64 mod 64" unfolding p by simp
  have 3: "r div 4096 = r div 262144 * 64 + r div 4096 mod 64" unfolding p a by simp
  show thesis
  proof (rule that)
    show "r div 4096 = r div 262144 * 64 + r div 4096 mod 64" by (rule 3)
    show "r div 64 = r div 262144 * 4096 + r div 4096 mod 64 * 64 + r div 64 mod 64"
      using 2 3 by linarith
    show "r = r div 262144 * 262144 + r div 4096 mod 64 * 4096 + r div 64 mod 64 * 64 + r mod 64"
      using 1 2 3 by linarith
  qed simp_all
qed

lemma runes_encode_rune:
  assumes "scalar r"
  shows "runes (encode_rune r @ s) = r # runes s"
proof -
  obtain a b c d where r: "r = a * 262144 + b * 4096 + c * 64 + d"
    and lt: "b < 64" "c < 64" "d < 64"
    and digits: "r div 262144 = a" "r div 4096 mod 64 = b" "r div 64 mod 64 = c" "r mod 64 = d"
      "r div 4096 = a * 64 + b" "r div 64 = a * 4096 + b * 64 + c"
    using base64_digits [of r] by metis
  consider "r < 128" | "128 \<le> r" "r < 2048" | "2048 \<le> r" "r < 65536" | "65536 \<le> r" by linarith
  then show ?thesis
  proof cases
    case 1
    then show ?thesis by (simp add: encode_rune_def runes_ascii byte_val_chr del: runes.simps)
  next
    case 2
    then have ab: "a = 0" "b = 0" using r lt by linarith+
    have z: "2 \<le> c" "c < 32" using 2 r lt unfolding ab by linarith+
    note z = ab z
    from z have v: "byte_val (byte_chr (192 + c)) = 192 + c" "byte_val (byte_chr (128 + d)) = 128 + d"
      using lt by (simp_all add: byte_val_chr)
    have e: "encode_rune r = [byte_chr (192 + c), byte_chr (128 + d)]"
      using 2 z digits by (simp add: encode_rune_def)
    have "decode_rune (byte_chr (192 + c)) (byte_chr (128 + d) # s) = (c * 64 + d, 2)"
      using decode_two [of "byte_chr (192 + c)" "byte_chr (128 + d)" s] z lt
      unfolding v cont_def by simp
    moreover have "c * 64 + d = r" using r z by simp
    ultimately show ?thesis unfolding e append.simps by (simp add: runes_step del: runes.simps)
  next
    case 3
    then have a: "a = 0" using r lt by linarith
    have "b < 16" using 3 r lt unfolding a by linarith
    note z = a this
    from z have v: "byte_val (byte_chr (224 + b)) = 224 + b" "byte_val (byte_chr (128 + c)) = 128 + c"
      "byte_val (byte_chr (128 + d)) = 128 + d"
      using lt by (simp_all add: byte_val_chr)
    have e: "encode_rune r = [byte_chr (224 + b), byte_chr (128 + c), byte_chr (128 + d)]"
      using 3 z digits assms by (simp add: encode_rune_def)
    have "b = 0 \<Longrightarrow> 32 \<le> c" and "b = 13 \<Longrightarrow> c < 32"
      using 3 r z lt assms by (auto simp: scalar_def)
    then have "cont (second_lo (224 + b)) (second_hi (224 + b)) (byte_chr (128 + c))"
      using lt z by (auto simp: cont_def v second_lo_def second_hi_def)
    then have "decode_rune (byte_chr (224 + b)) (byte_chr (128 + c) # byte_chr (128 + d) # s)
        = (b * 4096 + c * 64 + d, 3)"
      using decode_three [of "byte_chr (224 + b)" "byte_chr (128 + c)" "byte_chr (128 + d)" s] z lt
      unfolding v by (simp add: cont_def v)
    moreover have "b * 4096 + c * 64 + d = r" using r z by simp
    ultimately show ?thesis
      unfolding e append.simps by (simp add: runes_step del: runes.simps)
  next
    case 4
    then have z: "a < 5" using r lt assms by (auto simp: scalar_def)
    then have v: "byte_val (byte_chr (240 + a)) = 240 + a" "byte_val (byte_chr (128 + b)) = 128 + b"
      "byte_val (byte_chr (128 + c)) = 128 + c" "byte_val (byte_chr (128 + d)) = 128 + d"
      using lt by (simp_all add: byte_val_chr)
    have e: "encode_rune r =
        [byte_chr (240 + a), byte_chr (128 + b), byte_chr (128 + c), byte_chr (128 + d)]"
      using 4 digits assms by (simp add: encode_rune_def)
    have "a = 0 \<Longrightarrow> 16 \<le> b" and "a = 4 \<Longrightarrow> b < 16"
      using 4 r z lt assms by (auto simp: scalar_def)
    then have "cont (second_lo (240 + a)) (second_hi (240 + a)) (byte_chr (128 + b))"
      using lt z by (auto simp: cont_def v second_lo_def second_hi_def)
    then have "decode_rune (byte_chr (240 + a))
          (byte_chr (128 + b) # byte_chr (128 + c) # byte_chr (128 + d) # s)
        = (a * 262144 + b * 4096 + c * 64 + d, 4)"
      using decode_four [of "byte_chr (240 + a)" "byte_chr (128 + b)" "byte_chr (128 + c)"
          "byte_chr (128 + d)" s] z lt
      unfolding v by (simp add: cont_def v)
    moreover have "a * 262144 + b * 4096 + c * 64 + d = r" using r by simp
    ultimately show ?thesis
      unfolding e append.simps by (simp add: runes_step del: runes.simps)
  qed
qed

lemma runes_encode [simp]: "\<forall>r \<in> set rs. scalar r \<Longrightarrow> runes (encode_runes rs) = rs"
  by (induction rs) (simp_all add: runes_encode_rune)

lemma decode_scalar: "scalar (fst (decode_rune c s))"
proof -
  have b: "byte_val x \<le> 255" for x
    using byte_val_less [of x] by linarith
  show ?thesis
    using b [of c]
    by (auto simp: decode_rune_def Let_def scalar_def rune_error_def cont_def second_lo_def
        second_hi_def split: list.splits)
qed

lemma runes_scalar: "r \<in> set (runes s) \<Longrightarrow> scalar r"
proof (induction s rule: runes.induct)
  case (2 c s)
  then show ?case
    using decode_scalar [of c s] by (cases "decode_rune c s") auto
qed simp

lemma runes_of_slice:
  "set rs \<subseteq> set (runes s) \<Longrightarrow> runes (encode_runes rs) = rs"
  by (rule runes_encode) (auto dest: runes_scalar)

section \<open>What was decoded\<close>

text \<open>A valid rune occupies the bytes \<open>EncodeRune\<close> writes for it, and what follows does not matter.\<close>

lemma decode_size:
  "decode_rune c s = (r, n) \<Longrightarrow> 1 \<le> n \<and> n - 1 \<le> length s"
  by (auto simp: decode_rune_def Let_def split: if_splits list.splits)

lemma decode_local:
  "decode_rune c s = (r, n) \<Longrightarrow> \<not> (r = rune_error \<and> n = 1) \<Longrightarrow> decode_rune c (take (n - 1) s @ t) = (r, n)"
  by (auto simp: decode_rune_def Let_def split: if_splits list.splits)

lemma decode_high:
  assumes "decode_rune c s = (r, n)" "\<not> (r = rune_error \<and> n = 1)" "128 \<le> byte_val c"
  shows "\<forall>x \<in> set (c # take (n - 1) s). 128 \<le> byte_val x"
  using assms by (auto simp: decode_rune_def Let_def cont_def second_lo_def split: if_splits list.splits)

lemma byte_chr_eqI: "n = byte_val c \<Longrightarrow> byte_chr n = c"
  by simp

lemma digit64: "(d :: nat) < 64 \<Longrightarrow> (a * 64 + d) div 64 = a" "d < 64 \<Longrightarrow> (a * 64 + d) mod 64 = d"
  by simp_all

lemma decode_encode:
  assumes "decode_rune c s = (r, n)" "\<not> (r = rune_error \<and> n = 1)"
  shows "encode_rune r = c # take (n - 1) s"
proof -
  let ?b = "byte_val c"
  consider (one) "?b < 128" "r = ?b" "n = 1"
    | (two) c1 s' where "s = c1 # s'" "194 \<le> ?b" "?b < 224" "cont 128 191 c1" "r = (?b - 192) * 64 + (byte_val c1 - 128)" "n = 2"
    | (three) c1 c2 s' where "s = c1 # c2 # s'" "224 \<le> ?b" "?b < 240" "cont (second_lo ?b) (second_hi ?b) c1" "cont 128 191 c2"
        "r = (?b - 224) * 4096 + (byte_val c1 - 128) * 64 + (byte_val c2 - 128)" "n = 3"
    | (four) c1 c2 c3 s' where "s = c1 # c2 # c3 # s'" "240 \<le> ?b" "?b < 245" "cont (second_lo ?b) (second_hi ?b) c1"
        "cont 128 191 c2" "cont 128 191 c3"
        "r = (?b - 240) * 262144 + (byte_val c1 - 128) * 4096 + (byte_val c2 - 128) * 64 + (byte_val c3 - 128)" "n = 4"
    using assms by (auto simp: decode_rune_def Let_def split: if_splits list.splits)
  then show ?thesis
  proof cases
    case one
    then show ?thesis by (simp add: encode_rune_def)
  next
    case two
    define x y where "x = ?b - 192" and "y = byte_val c1 - 128"
    have xy: "?b = 192 + x" "byte_val c1 = 128 + y" "2 \<le> x" "x < 32" "y < 64"
      using two by (auto simp: x_def y_def cont_def)
    then have "r = x * 64 + y" using two by simp
    with xy two(1,6) show ?thesis by (simp add: encode_rune_def byte_chr_eqI)
  next
    case three
    define x y z where "x = ?b - 224" and "y = byte_val c1 - 128" and "z = byte_val c2 - 128"
    have xy: "?b = 224 + x" "byte_val c1 = 128 + y" "byte_val c2 = 128 + z" "x < 16" "y < 64" "z < 64"
      "x = 0 \<longrightarrow> 32 \<le> y" "x = 13 \<longrightarrow> y < 32"
      using three by (auto simp: x_def y_def z_def cont_def second_lo_def second_hi_def split: if_splits)
    have r: "r = x * 4096 + y * 64 + z" using three xy by simp
    have "r = (x * 64 + y) * 64 + z" unfolding r by simp
    then have d: "r div 64 = x * 64 + y" "r mod 64 = z" using xy digit64 [of z "x * 64 + y"] by simp_all
    have "r div 4096 = r div 64 div 64" by (simp flip: div_mult2_eq)
    then have e: "r div 4096 = x" "r div 64 mod 64 = y" using d xy digit64 [of y x] by simp_all
    have "2048 \<le> r" "r < 65536" using xy r by linarith+
    moreover have "scalar r"
    proof (cases "x = 13")
      case False
      then consider "x \<le> 12" | "14 \<le> x" by linarith
      then show ?thesis using xy r by cases (auto simp: scalar_def)
    qed (use xy r in \<open>simp add: scalar_def\<close>)
    moreover note d e
    ultimately
    show ?thesis using xy three(1,7) by (simp add: encode_rune_def byte_chr_eqI)
  next
    case four
    define x y z w where "x = ?b - 240" and "y = byte_val c1 - 128" and "z = byte_val c2 - 128" and "w = byte_val c3 - 128"
    have xy: "?b = 240 + x" "byte_val c1 = 128 + y" "byte_val c2 = 128 + z" "byte_val c3 = 128 + w"
      "x < 5" "y < 64" "z < 64" "w < 64" "x = 0 \<longrightarrow> 16 \<le> y" "x = 4 \<longrightarrow> y < 16"
      using four by (auto simp: x_def y_def z_def w_def cont_def second_lo_def second_hi_def split: if_splits)
    have r: "r = x * 262144 + y * 4096 + z * 64 + w" using four xy by simp
    have "r = ((x * 64 + y) * 64 + z) * 64 + w" unfolding r by simp
    then have d: "r div 64 = (x * 64 + y) * 64 + z" "r mod 64 = w"
      using xy digit64 [of w "(x * 64 + y) * 64 + z"] by simp_all
    have "r div 4096 = r div 64 div 64" by (simp flip: div_mult2_eq)
    then have e: "r div 4096 = x * 64 + y" "r div 64 mod 64 = z" using d xy digit64 [of z "x * 64 + y"] by simp_all
    have "r div 262144 = r div 4096 div 64" by (simp flip: div_mult2_eq)
    then have f: "r div 262144 = x" "r div 4096 mod 64 = y" using e xy digit64 [of y x] by simp_all
    have "65536 \<le> r" using xy r by (cases "x = 0") auto
    moreover have "scalar r" using xy r calculation by (cases "x = 4") (auto simp: scalar_def)
    moreover note d e f
    ultimately
    show ?thesis using xy four(1,8) by (simp add: encode_rune_def byte_chr_eqI)
  qed
qed

end
