(* ===== verification/GoPath.thy ===== *)
theory GoPath
  imports GoUtf8
begin

text \<open>
  Package \<open>path/filepath\<close> on Unix, on the functions the program calls, and a file system:
  a finite map from path to file or directory, with the faults of the environment as a
  function of the operation and the path, so that every error branch of the code is a branch
  of the model. Two different path strings are two different entries (the program builds
  every path with \<open>filepath.Join\<close>, which cleans it); links are not modelled.
\<close>

section \<open>Paths\<close>

abbreviation SEP :: char where "SEP \<equiv> CHR ''/''"

definition is_abs :: "string \<Rightarrow> bool" where "is_abs p = has_prefix p ''/''"

text \<open>The loop of \<open>filepath.Clean\<close> over the elements; \<open>out\<close> is the stack, last element first.\<close>

fun clean_elems :: "bool \<Rightarrow> string list \<Rightarrow> string list \<Rightarrow> string list" where
  "clean_elems rooted out [] = rev out"
| "clean_elems rooted out (c # cs) =
     (if c = [] \<or> c = ''.'' then clean_elems rooted out cs
      else if c = ''..'' then
        (case out of
           x # xs \<Rightarrow> if x \<noteq> ''..'' then clean_elems rooted xs cs
                     else clean_elems rooted (''..'' # out) cs
         | [] \<Rightarrow> if rooted then clean_elems rooted [] cs else clean_elems rooted [''..''] cs)
      else clean_elems rooted (c # out) cs)"

definition path_clean :: "string \<Rightarrow> string" where
  "path_clean p =
     (if p = [] then ''.''
      else (let s = join ''/'' (clean_elems (is_abs p) [] (split_on SEP p))
            in if is_abs p then SEP # s else if s = [] then ''.'' else s))"

definition path_join :: "string list \<Rightarrow> string" where
  "path_join es =
     (case dropWhile (\<lambda>e. e = []) es of [] \<Rightarrow> [] | xs \<Rightarrow> path_clean (join ''/'' xs))"

definition path_base :: "string \<Rightarrow> string" where
  "path_base p =
     (if p = [] then ''.''
      else (let s = trim_right_set p [SEP] in if s = [] then ''/'' else last (split_on SEP s)))"

definition path_dir :: "string \<Rightarrow> string" where
  "path_dir p = path_clean (rev (dropWhile (\<lambda>c. c \<noteq> SEP) (rev p)))"

text \<open>\<open>filepath.Abs\<close> in a process whose working directory is \<open>wd\<close>.\<close>

definition path_abs :: "string \<Rightarrow> string \<Rightarrow> string" where
  "path_abs wd p = (if is_abs p then path_clean p else path_join [wd, p])"

text \<open>\<open>filepath.Rel\<close> of two absolute paths: up from the base, then down to the target.\<close>

definition path_elems :: "string \<Rightarrow> string list" where
  "path_elems p = filter (\<lambda>e. e \<noteq> []) (split_on SEP p)"

fun drop_common :: "string list \<Rightarrow> string list \<Rightarrow> string list \<times> string list" where
  "drop_common (b # bs) (t # ts) = (if b = t then drop_common bs ts else (b # bs, t # ts))"
| "drop_common bs ts = (bs, ts)"

definition path_rel_abs :: "string \<Rightarrow> string \<Rightarrow> string" where
  "path_rel_abs base targ =
     (let (bs, ts) = drop_common (path_elems (path_clean base)) (path_elems (path_clean targ))
      in if bs = [] \<and> ts = [] then ''.'' else join ''/'' (map (\<lambda>_. ''..'') bs @ ts))"

lemma drop_common_prefix:
  "drop_common bs ts = ([], us) \<Longrightarrow> ts = bs @ us"
  by (induction bs ts rule: drop_common.induct) (auto split: if_splits)

lemma base_no_sep: "p \<noteq> ''/'' \<Longrightarrow> SEP \<notin> set (path_base p) \<or> path_base p = ''/''"
proof -
  have "SEP \<notin> set (last (split_on SEP s))" for s
    using last_in_set [of "split_on SEP s"] split_on_no_sep [of _ SEP s] by simp
  then show ?thesis by (simp add: path_base_def Let_def)
qed

section \<open>Files\<close>

datatype node = NFile (content: string) (mtime: gtime) | NDir

datatype fs_op = OpRead | OpWrite | OpRename | OpMkdir | OpStat | OpRemove | OpReadDir | OpAppend

record fs =
  fs_ents :: "(string \<times> node) list"
  fs_fault :: "fs_op \<Rightarrow> string \<Rightarrow> go_error option"

datatype io_error = NotExist | IoError (io_text: go_error)

text \<open>What \<open>Error()\<close> of an \<open>io_error\<close> returns, up to the path it names.\<close>

definition io_msg :: "io_error \<Rightarrow> go_error" where
  "io_msg e = (case e of NotExist \<Rightarrow> ''no such file or directory'' | IoError t \<Rightarrow> t)"

definition fs_get :: "fs \<Rightarrow> string \<Rightarrow> node option" where
  "fs_get s p = map_of (fs_ents s) p"

definition is_dir :: "fs \<Rightarrow> string \<Rightarrow> bool" where
  "is_dir s p = (p = ''.'' \<or> p = ''/'' \<or> fs_get s p = Some NDir)"

definition is_file :: "fs \<Rightarrow> string \<Rightarrow> bool" where
  "is_file s p = (case fs_get s p of Some (NFile _ _) \<Rightarrow> True | _ \<Rightarrow> False)"

lemma is_file_iff: "is_file s p \<longleftrightarrow> (\<exists>c t. fs_get s p = Some (NFile c t))"
  by (auto simp: is_file_def split: option.splits node.splits)

definition guard_fault :: "fs \<Rightarrow> fs_op \<Rightarrow> string \<Rightarrow> (io_error + 'a) \<Rightarrow> io_error + 'a" where
  "guard_fault s op p r = (case fs_fault s op p of Some e \<Rightarrow> Inl (IoError e) | None \<Rightarrow> r)"

definition read_file :: "fs \<Rightarrow> string \<Rightarrow> io_error + string" where
  "read_file s p = guard_fault s OpRead p
     (case fs_get s p of
        None \<Rightarrow> Inl NotExist
      | Some NDir \<Rightarrow> Inl (IoError ''is a directory'')
      | Some (NFile c _) \<Rightarrow> Inr c)"

definition stat :: "fs \<Rightarrow> string \<Rightarrow> io_error + node" where
  "stat s p = guard_fault s OpStat p
     (if is_dir s p then Inr NDir else case fs_get s p of None \<Rightarrow> Inl NotExist | Some n \<Rightarrow> Inr n)"

definition stat_ok :: "fs \<Rightarrow> string \<Rightarrow> bool" where
  "stat_ok s p = (case stat s p of Inl _ \<Rightarrow> False | Inr _ \<Rightarrow> True)"

definition write_file :: "gtime \<Rightarrow> string \<Rightarrow> string \<Rightarrow> fs \<Rightarrow> io_error + fs" where
  "write_file now p c s = guard_fault s OpWrite p
     (if is_dir s p then Inl (IoError ''is a directory'')
      else if \<not> is_dir s (path_dir p) then Inl NotExist
      else Inr (s\<lparr>fs_ents := put p (NFile c now) (fs_ents s)\<rparr>))"

text \<open>Opening with \<open>O_CREATE | O_APPEND\<close> and writing at the end.\<close>

definition append_file :: "gtime \<Rightarrow> string \<Rightarrow> string \<Rightarrow> fs \<Rightarrow> io_error + fs" where
  "append_file now p c s = guard_fault s OpAppend p
     (if is_dir s p then Inl (IoError ''is a directory'')
      else if \<not> is_dir s (path_dir p) then Inl NotExist
      else (let old = (case fs_get s p of Some (NFile o' _) \<Rightarrow> o' | _ \<Rightarrow> [])
            in Inr (s\<lparr>fs_ents := put p (NFile (old @ c) now) (fs_ents s)\<rparr>)))"

definition rename :: "string \<Rightarrow> string \<Rightarrow> fs \<Rightarrow> io_error + fs" where
  "rename a b s = guard_fault s OpRename b
     (case fs_get s a of
        None \<Rightarrow> Inl NotExist
      | Some n \<Rightarrow> if is_dir s b then Inl (IoError ''file exists'')
                  else Inr (s\<lparr>fs_ents := put b n (del a (fs_ents s))\<rparr>))"

definition remove_file :: "string \<Rightarrow> fs \<Rightarrow> io_error + fs" where
  "remove_file p s = guard_fault s OpRemove p
     (case fs_get s p of None \<Rightarrow> Inl NotExist | Some _ \<Rightarrow> Inr (s\<lparr>fs_ents := del p (fs_ents s)\<rparr>))"

text \<open>\<open>os.MkdirAll\<close>: the path and each of its parents that is missing.\<close>

definition ancestors :: "string \<Rightarrow> string list" where
  "ancestors p = map (\<lambda>i. take i p) (filter (\<lambda>i. p ! i = SEP) [1..<length p]) @ [p]"

definition mkdir_one :: "string \<Rightarrow> fs \<Rightarrow> fs" where
  "mkdir_one p s = (if is_dir s p then s else s\<lparr>fs_ents := put p NDir (fs_ents s)\<rparr>)"

definition mkdir_all :: "string \<Rightarrow> fs \<Rightarrow> io_error + fs" where
  "mkdir_all p s = guard_fault s OpMkdir p
     (if \<exists>a \<in> set (ancestors p). is_file s a
      then Inl (IoError ''not a directory'')
      else Inr (fold mkdir_one (ancestors p) s))"

text \<open>\<open>os.ReadDir\<close>: the entries of a directory in the order of their names.\<close>

definition child_name :: "string \<Rightarrow> string \<Rightarrow> string option" where
  "child_name d p =
     (let pre = (if d = ''.'' then [] else if d = ''/'' then d else d @ ''/'')
      in if has_prefix p pre \<and> p \<noteq> pre \<and> p \<noteq> d \<and> SEP \<notin> set (drop (length pre) p)
         then Some (drop (length pre) p) else None)"

definition read_dir :: "fs \<Rightarrow> string \<Rightarrow> io_error + (string \<times> bool) list" where
  "read_dir s d = guard_fault s OpReadDir d
     (if is_dir s d then
        Inr (sort_key fst (List.map_filter
          (\<lambda>(p, n). map_option (\<lambda>c. (c, n = NDir)) (child_name d p)) (fs_ents s)))
      else if fs_get s d = None then Inl NotExist else Inl (IoError ''not a directory''))"

lemmas fs_defs = read_file_def stat_def write_file_def append_file_def rename_def
  remove_file_def mkdir_all_def guard_fault_def fs_get_def

lemma fs_get_put [simp]:
  "fs_get (s\<lparr>fs_ents := put p n (fs_ents s)\<rparr>) q = (if q = p then Some n else fs_get s q)"
  by (simp add: fs_get_def)

lemma write_then_read:
  assumes "write_file now p c s = Inr s'" "fs_fault s OpRead p = None"
  shows "read_file s' p = Inr c"
  using assms by (auto simp: fs_defs split: option.splits if_splits)

lemma write_fault: "write_file now p c s = Inr s' \<Longrightarrow> fs_fault s' = fs_fault s"
  by (auto simp: fs_defs split: option.splits if_splits)

lemma write_frame: "write_file now p c s = Inr s' \<Longrightarrow> q \<noteq> p \<Longrightarrow> fs_get s' q = fs_get s q"
  by (auto simp: fs_defs split: option.splits if_splits)

lemma rename_result:
  assumes "rename a b s = Inr s'"
  shows "fs_fault s' = fs_fault s" "fs_get s' b = fs_get s a"
    "q \<noteq> a \<Longrightarrow> q \<noteq> b \<Longrightarrow> fs_get s' q = fs_get s q"
  using assms by (auto simp: fs_defs split: option.splits if_splits)

lemma mkdir_one_get: "fs_get (mkdir_one p s) q =
    (if q = p \<and> \<not> is_dir s p then Some NDir else fs_get s q)"
  by (simp add: mkdir_one_def)

lemma mkdir_fold_files:
  assumes "\<forall>a \<in> set ps. \<not> (\<exists>c t. fs_get s a = Some (NFile c t))"
  shows "fs_get (fold mkdir_one ps s) q = Some (NFile c t) \<longleftrightarrow> fs_get s q = Some (NFile c t)"
  using assms
proof (induction ps arbitrary: s)
  case (Cons p ps)
  then have "\<forall>a \<in> set ps. \<not> (\<exists>c t. fs_get (mkdir_one p s) a = Some (NFile c t))"
    by (auto simp: mkdir_one_get)
  with Cons.IH [of "mkdir_one p s"] Cons.prems show ?case
    by (auto simp: mkdir_one_get)
qed simp

lemma mkdir_all_files:
  assumes "mkdir_all p s = Inr s'"
  shows "fs_get s' q = Some (NFile c t) \<longleftrightarrow> fs_get s q = Some (NFile c t)"
proof -
  from assms have "\<forall>a \<in> set (ancestors p). \<not> (\<exists>c t. fs_get s a = Some (NFile c t))"
    and "s' = fold mkdir_one (ancestors p) s"
    by (auto simp: mkdir_all_def guard_fault_def is_file_iff split: option.splits if_splits)
  then show ?thesis by (simp add: mkdir_fold_files)
qed

lemma mkdir_fold_fault: "fs_fault (fold mkdir_one ps s) = fs_fault s"
  by (induction ps arbitrary: s) (auto simp: mkdir_one_def)

lemma mkdir_all_fault: "mkdir_all p s = Inr s' \<Longrightarrow> fs_fault s' = fs_fault s"
  by (auto simp: mkdir_all_def guard_fault_def mkdir_fold_fault split: option.splits if_splits)

text \<open>A file system of the given files in which no operation fails.\<close>

definition plain_fs :: "(string \<times> string) list \<Rightarrow> fs" where
  "plain_fs fs = \<lparr>fs_ents = map (\<lambda>(p, c). (p, NFile c (GTime 0))) fs, fs_fault = (\<lambda>_ _. None)\<rparr>"

end
