(* ===== verification/Domain.thy ===== *)
theory Domain
  imports GoPath
begin

text \<open>
  The types every component exchanges: \<open>internal/domain/types.go\<close>, and the values Go keeps
  in an \<open>any\<close> after \<open>encoding/json\<close> has decoded them. A string enumeration of the code
  (\<open>ChatType\<close>, the kinds of an event) stays a string: the code compares texts and accepts
  any other. A Go map of this file is an association list.
\<close>

text \<open>
  \<open>any\<close>: a JSON number is a \<open>float64\<close>, given exactly as \<open>m * 2 ^ e\<close>; \<open>VInt\<close> stands for the
  signed integer kinds, which Go code itself puts into an \<open>any\<close>.
\<close>

datatype goany =
    VNil
  | VBool bool
  | VInt int
  | VNum int int
  | VStr string
  | VList "goany list"
  | VMap "(string \<times> goany) list"

type_synonym gomap = "(string \<times> goany) list"

definition chat_direct :: string where "chat_direct = ''direct''"
definition chat_group :: string where "chat_group = ''group''"
definition chat_channel :: string where "chat_channel = ''channel''"

record inbound =
  im_channel :: string
  im_account :: string
  im_peer :: string
  im_peer_type :: string
  im_user :: string
  im_text :: string
  im_thread :: string
  im_run :: string
  im_at :: gtime

record outbound =
  om_channel :: string
  om_account :: string
  om_target :: string
  om_thread :: string
  om_session :: string
  om_text :: string

record route =
  rt_agent :: string
  rt_session :: string
  rt_matched :: string
  rt_channel :: string
  rt_account :: string

record conv_msg =
  cm_role :: string
  cm_text :: string

record tool_call =
  tc_name :: string
  tc_input :: gomap
  tc_output :: goany
  tc_error :: string
  tc_status :: string

record usage =
  us_input :: int
  us_output :: int
  us_total :: int

record agent_event =
  ev_kind :: string
  ev_run :: string
  ev_session :: string
  ev_text :: string
  ev_provider :: string
  ev_tool :: "tool_call option"
  ev_usage :: "usage option"
  ev_done :: bool
  ev_aborted :: bool
  ev_err :: "go_error option"

record identity =
  id_name :: string
  id_avatar :: string
  id_emoji :: string

record run_request =
  rq_agent :: string
  rq_session :: string
  rq_run :: string
  rq_message :: inbound
  rq_history :: "conv_msg list"
  rq_summary :: string

text \<open>An event with the zero value in every field the literal does not name.\<close>

definition event :: "string \<Rightarrow> string \<Rightarrow> string \<Rightarrow> string \<Rightarrow> agent_event" where
  "event kind run session text =
     \<lparr>ev_kind = kind, ev_run = run, ev_session = session, ev_text = text, ev_provider = [],
      ev_tool = None, ev_usage = None, ev_done = False, ev_aborted = False, ev_err = None\<rparr>"

lemma event_fields [simp]:
  "ev_kind (event k r s t) = k" "ev_run (event k r s t) = r" "ev_session (event k r s t) = s"
  "ev_text (event k r s t) = t" "ev_done (event k r s t) = False"
  "ev_err (event k r s t) = None" "ev_provider (event k r s t) = []"
  "ev_aborted (event k r s t) = False" "ev_tool (event k r s t) = None"
  "ev_usage (event k r s t) = None"
  by (simp_all add: event_def)

text \<open>\<open>parsePeerType\<close> of the daemon and of the WebSocket handler.\<close>

definition parse_peer_type :: "string \<Rightarrow> string" where
  "parse_peer_type v =
     (let k = to_lower (trim_space v)
      in if k = ''group'' then chat_group
         else if k = ''channel'' then chat_channel
         else chat_direct)"

end
