(* ===== verification/Tools.thy ===== *)
theory Tools
  imports Domain
begin

text \<open>
  \<open>internal/tools\<close>: the registry of tools and the two tools that are built in, the clock and
  the shell. A tool is a record of what the interface \<open>Tool\<close> asks for; running it may change
  the world outside, whose type is a parameter. Running a command is an argument of the shell
  tool: it is given the directory, the command and the timeout and answers with the pieces
  written to each stream and how the process ended.
\<close>

section \<open>Tools and their registry\<close>

record metadata =
  md_name :: string
  md_desc :: string
  md_in :: "goany option"
  md_out :: "goany option"

record 'w tool =
  tl_name :: string
  tl_meta :: "metadata option"
  tl_exec :: "gomap \<Rightarrow> 'w \<Rightarrow> (go_error + goany) \<times> 'w"

type_synonym 'w registry = "(string \<times> 'w tool) list"

definition new_registry :: "'w registry" where "new_registry = []"

definition reg_register :: "'w tool \<Rightarrow> 'w registry \<Rightarrow> 'w registry" where
  "reg_register t r = put (tl_name t) t r"

definition reg_get :: "'w registry \<Rightarrow> string \<Rightarrow> 'w tool option" where
  "reg_get r name = map_of r name"

definition tool_not_found :: go_error where "tool_not_found = ''tools: tool not found''"

definition reg_execute ::
    "'w registry \<Rightarrow> string \<Rightarrow> gomap \<Rightarrow> 'w \<Rightarrow> (go_error + goany) \<times> 'w" where
  "reg_execute r name input w =
     (case reg_get r name of
        None \<Rightarrow> (Inl tool_not_found, w)
      | Some t \<Rightarrow> tl_exec t input w)"

definition reg_list :: "'w registry \<Rightarrow> string list" where
  "reg_list r = sort (remdups (keys r))"

definition object_schema :: goany where "object_schema = VMap [(''type'', VStr ''object'')]"

definition tool_metadata :: "string \<Rightarrow> 'w tool \<Rightarrow> metadata" where
  "tool_metadata name t =
     (case tl_meta t of
        None \<Rightarrow> \<lparr>md_name = name, md_desc = [], md_in = Some object_schema, md_out = None\<rparr>
      | Some md \<Rightarrow> md\<lparr>md_name := (if md_name md = [] then name else md_name md),
                      md_in := Some (case md_in md of None \<Rightarrow> object_schema | Some s \<Rightarrow> s)\<rparr>)"

definition reg_catalog :: "'w registry \<Rightarrow> metadata list" where
  "reg_catalog r =
     List.map_filter (\<lambda>n. map_option (tool_metadata n) (reg_get r n)) (reg_list r)"

text \<open>What the runtime and the gateway expect of a registry.\<close>

locale tool_registry =
  fixes reg :: "'w tool \<Rightarrow> 'r \<Rightarrow> 'r"
    and look :: "'r \<Rightarrow> string \<Rightarrow> 'w tool option"
    and listing :: "'r \<Rightarrow> string list"
  assumes look_reg: "look (reg t r) n = (if n = tl_name t then Some t else look r n)"
    and listing_set: "n \<in> set (listing r) \<longleftrightarrow> look r n \<noteq> None"
    and listing_sorted: "sorted (listing r)" "distinct (listing r)"
begin

lemma registered_found: "look (reg t r) (tl_name t) = Some t"
  by (simp add: look_reg)

lemma fold_found:
  assumes "distinct (map tl_name ts)" "t \<in> set ts"
  shows "look (fold reg ts r) (tl_name t) = Some t"
  using assms
proof (induction ts arbitrary: r rule: rev_induct)
  case (snoc x ts)
  have "tl_name x = tl_name t \<Longrightarrow> x = t" using snoc.prems by (auto simp: image_iff)
  moreover have "t \<noteq> x \<Longrightarrow> look (fold reg ts r) (tl_name t) = Some t"
    using snoc by auto
  ultimately show ?case by (auto simp: look_reg)
qed simp

lemma fold_other: "n \<notin> tl_name ` set ts \<Longrightarrow> look (fold reg ts r) n = look r n"
  by (induction ts arbitrary: r) (auto simp: look_reg)

lemma fold_found_iff:
  "look (fold reg ts r) n \<noteq> None \<longleftrightarrow> look r n \<noteq> None \<or> n \<in> tl_name ` set ts"
  by (induction ts arbitrary: r) (auto simp: look_reg)

lemma listing_reg: "set (listing (reg t r)) = insert (tl_name t) (set (listing r))"
  by (auto simp: listing_set look_reg split: if_splits)

end

interpretation tr: tool_registry reg_register reg_get reg_list
  by unfold_locales
    (auto simp: reg_register_def reg_get_def reg_list_def map_of_eq_None_iff)

section \<open>The clock\<close>

definition now_schema :: goany where
  "now_schema = VMap [(''type'', VStr ''object''),
     (''properties'', VMap [(''now'', VMap [(''type'', VStr ''string''), (''format'', VStr ''date-time'')])]),
     (''required'', VList [VStr ''now''])]"

definition now_metadata :: metadata where
  "now_metadata = \<lparr>md_name = ''time_now'',
     md_desc = ''Returns the current server timestamp in RFC3339 format.'',
     md_in = Some (VMap [(''type'', VStr ''object''), (''properties'', VMap [])]),
     md_out = Some now_schema\<rparr>"

definition now_tool :: "('w \<Rightarrow> string \<times> 'w) \<Rightarrow> 'w tool" where
  "now_tool rfc3339 = \<lparr>tl_name = ''time_now'', tl_meta = Some now_metadata,
     tl_exec = (\<lambda>_ w. case rfc3339 w of (s, w') \<Rightarrow> (Inr (VMap [(''now'', VStr s)]), w'))\<rparr>"

section \<open>The shell\<close>

record shell_tool =
  sh_dir :: string
  sh_default :: int
  sh_max :: int
  sh_bytes :: int

definition new_shell_tool :: "string \<Rightarrow> shell_tool" where
  "new_shell_tool dir = \<lparr>sh_dir = trim_space dir, sh_default = 10 * second_ns,
     sh_max = 60 * second_ns, sh_bytes = 16 * 1024\<rparr>"

subsection \<open>Bounded output\<close>

record limited_buffer =
  lb_buf :: string
  lb_remaining :: int
  lb_truncated :: bool

definition new_limited_buffer :: "int \<Rightarrow> limited_buffer" where
  "new_limited_buffer limit =
     \<lparr>lb_buf = [], lb_remaining = (if limit \<le> 0 then 16 * 1024 else limit), lb_truncated = False\<rparr>"

definition lb_write :: "limited_buffer \<Rightarrow> string \<Rightarrow> limited_buffer" where
  "lb_write b p =
     (if p = [] then b
      else if lb_remaining b \<le> 0 then b\<lparr>lb_truncated := True\<rparr>
      else if int (length p) > lb_remaining b
      then b\<lparr>lb_buf := lb_buf b @ take (nat (lb_remaining b)) p, lb_remaining := 0, lb_truncated := True\<rparr>
      else b\<lparr>lb_buf := lb_buf b @ p, lb_remaining := lb_remaining b - int (length p)\<rparr>)"

definition lb_writes :: "string list \<Rightarrow> limited_buffer \<Rightarrow> limited_buffer" where
  "lb_writes ps b = fold (\<lambda>p b. lb_write b p) ps b"

subsection \<open>Arguments\<close>

definition as_string :: "goany \<Rightarrow> string" where
  "as_string v = (case v of VStr s \<Rightarrow> s | _ \<Rightarrow> [])"

definition arg :: "gomap \<Rightarrow> string \<Rightarrow> goany" where
  "arg m k = (case map_of m k of Some v \<Rightarrow> v | None \<Rightarrow> VNil)"

text \<open>
  A \<open>float64\<close> equals \<open>float64(int(value))\<close> when it is integral and within \<open>int\<close>: a conversion out
  of range gives the least \<open>int\<close> on the platforms the daemon is built for.
\<close>

definition integral :: "int \<Rightarrow> int \<Rightarrow> int option" where
  "integral m e =
     (if 0 \<le> e then Some (m * 2 ^ nat e)
      else if m mod 2 ^ nat (- e) = 0 then Some (m div 2 ^ nat (- e)) else None)"

definition as_int :: "goany \<Rightarrow> go_error + int" where
  "as_int v =
     (case v of
        VInt i \<Rightarrow> Inr i
      | VNum m e \<Rightarrow>
          (case integral m e of
             Some i \<Rightarrow> if min_int64 \<le> i \<and> i \<le> max_int64 then Inr i else Inl ''not an integer''
           | None \<Rightarrow> Inl ''not an integer'')
      | VStr s \<Rightarrow>
          (case atoi (trim_space s) of Some i \<Rightarrow> Inr i | None \<Rightarrow> Inl ''invalid syntax'')
      | _ \<Rightarrow> Inl ''unsupported type'')"

definition resolve_timeout :: "shell_tool \<Rightarrow> goany \<Rightarrow> go_error + int" where
  "resolve_timeout t raw =
     (if raw = VNil then Inr (sh_default t)
      else (case as_int raw of
              Inl _ \<Rightarrow> Inl ''shell: timeoutSec must be an integer''
            | Inr sec \<Rightarrow>
                if sec \<le> 0 then Inl ''shell: timeoutSec must be >= 1''
                else if wrap64 (sec * second_ns) > sh_max t
                then Inl (''shell: timeoutSec must be <= '' @ itoa (sh_max t div second_ns))
                else Inr (wrap64 (sec * second_ns))))"

definition outside :: "string \<Rightarrow> bool" where
  "outside rel \<longleftrightarrow> rel = ''..'' \<or> has_prefix rel ''../''"

text \<open>The working directory \<open>wd\<close> of the process, which \<open>os.Getwd\<close> returns.\<close>

definition shell_base :: "string \<Rightarrow> shell_tool \<Rightarrow> string" where
  "shell_base wd t = path_abs wd (if trim_space (sh_dir t) = [] then wd else trim_space (sh_dir t))"

definition shell_target :: "string \<Rightarrow> string \<Rightarrow> string \<Rightarrow> string" where
  "shell_target wd base raw =
     path_abs wd
       (if trim_space raw = [] then base
        else if is_abs (trim_space raw) then path_clean (trim_space raw)
        else path_join [base, trim_space raw])"

definition resolve_cwd :: "string \<Rightarrow> fs \<Rightarrow> shell_tool \<Rightarrow> string \<Rightarrow> go_error + string" where
  "resolve_cwd wd s t raw =
     (let base = shell_base wd t; target = shell_target wd base raw
      in if outside (path_rel_abs base target) then Inl ''shell: cwd must stay inside workspace''
         else (case stat s target of
                 Inl e \<Rightarrow> Inl (''shell: stat cwd: '' @ io_msg e)
               | Inr NDir \<Rightarrow> Inr target
               | Inr (NFile _ _) \<Rightarrow> Inl ''shell: cwd must be a directory''))"

subsection \<open>Running a command\<close>

datatype run_end = RanOk | RanExit int | RanError go_error

record command_run =
  cr_stdout :: "string list"
  cr_stderr :: "string list"
  cr_end :: run_end
  cr_timed_out :: bool

definition exit_code :: "command_run \<Rightarrow> go_error + int" where
  "exit_code r =
     (case cr_end r of
        RanOk \<Rightarrow> Inr 0
      | RanExit c \<Rightarrow> Inr (if cr_timed_out r then -1 else c)
      | RanError e \<Rightarrow> if cr_timed_out r then Inr (-1) else Inl (''shell: run command: '' @ e))"

definition shell_result :: "shell_tool \<Rightarrow> string \<Rightarrow> string \<Rightarrow> command_run \<Rightarrow> go_error + goany" where
  "shell_result t command cwd r =
     (let out = lb_writes (cr_stdout r) (new_limited_buffer (sh_bytes t));
          err = lb_writes (cr_stderr r) (new_limited_buffer (sh_bytes t))
      in case exit_code r of
           Inl e \<Rightarrow> Inl e
         | Inr code \<Rightarrow> Inr (VMap [
             (''command'', VStr command), (''cwd'', VStr cwd), (''exitCode'', VInt code),
             (''stdout'', VStr (lb_buf out)), (''stderr'', VStr (lb_buf err)),
             (''timedOut'', VBool (cr_timed_out r)),
             (''truncated'', VBool (lb_truncated out \<or> lb_truncated err))]))"

definition shell_execute ::
    "string \<Rightarrow> ('w \<Rightarrow> fs) \<Rightarrow> (string \<Rightarrow> string \<Rightarrow> int \<Rightarrow> 'w \<Rightarrow> command_run \<times> 'w) \<Rightarrow> shell_tool
      \<Rightarrow> gomap \<Rightarrow> 'w \<Rightarrow> (go_error + goany) \<times> 'w" where
  "shell_execute wd files run t input w =
     (let command = trim_space (as_string (arg input ''command''))
      in if command = [] then (Inl ''shell: command is required'', w)
         else (case resolve_cwd wd (files w) t (as_string (arg input ''cwd'')) of
                 Inl e \<Rightarrow> (Inl e, w)
               | Inr cwd \<Rightarrow>
                   (case resolve_timeout t (arg input ''timeoutSec'') of
                      Inl e \<Rightarrow> (Inl e, w)
                    | Inr timeout \<Rightarrow>
                        (case run cwd command timeout w of
                           (r, w') \<Rightarrow> (shell_result t command cwd r, w')))))"

definition typed :: "string \<Rightarrow> goany" where "typed ty = VMap [(''type'', VStr ty)]"

definition shell_metadata :: metadata where
  "shell_metadata = \<lparr>md_name = ''shell'',
     md_desc = ''Runs a short shell command from the workspace with bounded output and timeout.'',
     md_in = Some (VMap [(''type'', VStr ''object''),
       (''properties'', VMap [
          (''command'', VMap [(''type'', VStr ''string''), (''description'', VStr ''Shell command to run.'')]),
          (''cwd'', VMap [(''type'', VStr ''string''),
             (''description'', VStr ''Optional working directory inside the workspace.'')]),
          (''timeoutSec'', VMap [(''type'', VStr ''integer''),
             (''description'', VStr ''Optional timeout in seconds (1-60).''),
             (''minimum'', VInt 1), (''maximum'', VInt 60)])]),
       (''required'', VList [VStr ''command''])]),
     md_out = Some (VMap [(''type'', VStr ''object''),
       (''properties'', VMap [
          (''command'', typed ''string''), (''cwd'', typed ''string''), (''exitCode'', typed ''integer''),
          (''stdout'', typed ''string''), (''stderr'', typed ''string''),
          (''timedOut'', typed ''boolean''), (''truncated'', typed ''boolean'')]),
       (''required'', VList (map VStr [''command'', ''cwd'', ''exitCode'', ''stdout'', ''stderr'',
          ''timedOut'', ''truncated'']))])\<rparr>"

definition shell_tool_of ::
    "string \<Rightarrow> ('w \<Rightarrow> fs) \<Rightarrow> (string \<Rightarrow> string \<Rightarrow> int \<Rightarrow> 'w \<Rightarrow> command_run \<times> 'w) \<Rightarrow> shell_tool \<Rightarrow> 'w tool"
where
  "shell_tool_of wd files run t = \<lparr>tl_name = ''shell'', tl_meta = Some shell_metadata,
     tl_exec = shell_execute wd files run t\<rparr>"

section \<open>Properties\<close>

lemma lb_writes_spec:
  "0 \<le> lb_remaining b \<Longrightarrow>
     lb_buf (lb_writes ps b) = lb_buf b @ take (nat (lb_remaining b)) (concat ps)
     \<and> (lb_truncated (lb_writes ps b) \<longleftrightarrow> lb_truncated b \<or> int (length (concat ps)) > lb_remaining b)"
proof (induction ps arbitrary: b)
  case (Cons p ps)
  have "0 \<le> lb_remaining (lb_write b p)"
    using Cons.prems by (simp add: lb_write_def)
  note IH = Cons.IH [OF this]
  have "lb_writes (p # ps) b = lb_writes ps (lb_write b p)" by (simp add: lb_writes_def)
  with IH Cons.prems show ?case
    by (auto simp: lb_write_def nat_diff_distrib)
qed (simp add: lb_writes_def)

text \<open>
  Output is bounded and truncation is told. Whatever pieces a command writes, a buffer
  holds the first bytes of its output up to the limit, 16384 if none is set, and it says it
  is truncated exactly when there was more.
\<close>

theorem output_bounded:
  fixes ps limit
  defines "n \<equiv> (if limit \<le> 0 then 16 * 1024 else limit)"
  shows "lb_buf (lb_writes ps (new_limited_buffer limit)) = take (nat n) (concat ps)
    \<and> (lb_truncated (lb_writes ps (new_limited_buffer limit)) \<longleftrightarrow> int (length (concat ps)) > n)"
  using lb_writes_spec [of "new_limited_buffer limit" ps]
  by (simp add: n_def new_limited_buffer_def)

lemma rel_outside:
  assumes "drop_common (path_elems (path_clean b)) (path_elems (path_clean t)) = (x # bs, ts)"
  shows "outside (path_rel_abs b t)"
proof -
  have "join ''/'' (''..'' # ys) = ''..'' \<or> has_prefix (join ''/'' (''..'' # ys)) ''../''" for ys
    by (cases ys) auto
  with assms show ?thesis by (simp add: path_rel_abs_def outside_def)
qed


definition demo_dirs :: fs where
  "demo_dirs = \<lparr>fs_ents = [(''/w'', NDir), (''/w/a'', NDir), (''/etc'', NDir)], fs_fault = (\<lambda>_ _. None)\<rparr>"


text \<open>
  A timeout in range is what was asked for. A number of seconds from 1 to 60, as a JSON
  number or as text, gives exactly that timeout, and one from 61 up to nine thousand million
  is refused.
\<close>

theorem timeout_in_range:
  assumes "as_int raw = Inr sec" "1 \<le> sec" "sec \<le> 9223372036"
  shows "resolve_timeout (new_shell_tool d) raw =
    (if sec \<le> 60 then Inr (sec * second_ns) else Inl ''shell: timeoutSec must be <= 60'')"
proof -
  have "wrap64 (sec * second_ns) = sec * second_ns"
    using assms by (intro wrap64_id) (simp_all add: second_ns_def min_int64_def max_int64_def)
  moreover have "raw \<noteq> VNil" using assms(1) by (auto simp: as_int_def)
  moreover have "itoa 60 = ''60''" by code_simp
  ultimately show ?thesis
    using assms by (simp add: resolve_timeout_def new_shell_tool_def second_ns_def)
qed

theorem timeout_in_range_witness:
  "resolve_timeout (new_shell_tool ''/work'') (VNum 15 1) = Inr (30 * second_ns)"
proof -
  have "as_int (VNum 15 1) = Inr 30" by code_simp
  from timeout_in_range [OF this, of "''/work''"] show ?thesis by simp
qed

text \<open>
  A timeout that overflows gets past the maximum. The seconds are multiplied by a
  thousand million before they are compared, in 64 bits: 9223372037 seconds turn into a
  negative timeout and 18446744074 seconds into less than half a second, and both are
  accepted although the tool promises at most 60.
\<close>

theorem timeout_overflow_accepted:
  "resolve_timeout (new_shell_tool d) (VInt 9223372037) = Inr (-9223372036709551616)
   \<and> resolve_timeout (new_shell_tool d) (VInt 18446744074) = Inr 290448384"
  by (simp add: resolve_timeout_def as_int_def wrap64_def second_ns_def new_shell_tool_def)

lemma map_filter_all: "(\<And>x. x \<in> set xs \<Longrightarrow> f x = Some (g x)) \<Longrightarrow> List.map_filter f xs = map g xs"
  by (induction xs) auto

text \<open>
  The catalogue lists every registered tool once, in the order of the names, and every
  entry has a name and an input schema.
\<close>

theorem catalog_sorted:
  "length (reg_catalog r) = length (reg_list r) \<and> sorted (reg_list r) \<and> distinct (reg_list r)
   \<and> set (reg_list r) = {n. reg_get r n \<noteq> None}
   \<and> reg_catalog r = map (\<lambda>n. tool_metadata n (the (reg_get r n))) (reg_list r)"
proof -
  have "reg_catalog r = map (\<lambda>n. tool_metadata n (the (reg_get r n))) (reg_list r)"
    unfolding reg_catalog_def
    by (rule map_filter_all) (auto simp: tr.listing_set)
  then show ?thesis using tr.listing_sorted [of r] tr.listing_set [of _ r] by auto
qed

end
