(* ===== verification/Mcp.thy ===== *)
theory Mcp
  imports Tools
begin

text \<open>
  \<open>internal/mcp/loader.go\<close> and the parts of \<open>client.go\<close> that read a server's configuration:
  which transport and framing a server uses, and how the tools of the servers of a file are
  named and put into the registry. Starting a client, listing its tools and calling one are
  arguments (the client itself is the theory \<open>McpClient\<close>); a client is a value of the type \<open>'c\<close>.
\<close>

section \<open>Server configuration\<close>

record server_config =
  sv_transport :: string
  sv_type :: string
  sv_command :: string
  sv_args :: "string list"
  sv_env :: "(string \<times> string) list"
  sv_cwd :: string
  sv_url :: string
  sv_message_url :: string
  sv_headers :: "(string \<times> string) list"
  sv_timeout :: int
  sv_framing :: string

datatype transport = Stdio | Sse | StreamableHttp

definition transport_name :: "transport \<Rightarrow> string" where
  "transport_name t = (case t of Stdio \<Rightarrow> ''stdio'' | Sse \<Rightarrow> ''sse'' | StreamableHttp \<Rightarrow> ''streamable_http'')"

definition resolve_transport :: "server_config \<Rightarrow> go_error + transport" where
  "resolve_transport c =
     (let t = (if normal_key (sv_transport c) = [] then normal_key (sv_type c)
               else normal_key (sv_transport c))
      in if t = [] then
           (if trim_space (sv_command c) \<noteq> [] then Inr Stdio
            else if trim_space (sv_url c) \<noteq> [] then
              (if trim_space (sv_message_url c) \<noteq> [] then Inr Sse
               else if contains (to_lower (sv_url c)) ''/sse'' then Inr Sse
               else Inr StreamableHttp)
            else Inl ''transport is not set and neither command nor url is provided'')
         else if t = ''stdio'' then Inr Stdio
         else if t = ''sse'' then Inr Sse
         else if t \<in> {''streamable_http'', ''streamable-http'', ''http''} then Inr StreamableHttp
         else Inl (''unsupported transport '' @ go_quote t))"

datatype framing = Lsp | Ndjson

definition resolve_framing :: "server_config \<Rightarrow> framing" where
  "resolve_framing c =
     (let f = normal_key (sv_framing c)
      in if f \<in> {''ndjson'', ''newline'', ''jsonlines'', ''jsonl''} then Ndjson
         else if f \<in> {''lsp'', ''content_length'', ''content-length''} then Lsp
         else if contains (normal_key (sv_command c)) ''server-filesystem''
           \<or> contains (to_lower (join '' '' (sv_args c))) ''server-filesystem'' then Ndjson
         else Lsp)"

definition resolve_dir :: "string \<Rightarrow> string \<Rightarrow> string" where
  "resolve_dir base configured =
     (let d = trim_space configured
      in if d = [] then base else if is_abs d then d else path_join [base, d])"

definition merge_env :: "string list \<Rightarrow> (string \<times> string) list \<Rightarrow> string list" where
  "merge_env base extra =
     base @ map (\<lambda>k. k @ ''='' @ (case map_of extra k of Some v \<Rightarrow> v | None \<Rightarrow> []))
       (sort (remdups (keys extra)))"

section \<open>Names\<close>

definition name_byte :: "nat \<Rightarrow> char" where
  "name_byte r = (if 97 \<le> r \<and> r \<le> 122 \<or> 48 \<le> r \<and> r \<le> 57 then byte_chr r else CHR ''_'')"

definition sanitize_name :: "string \<Rightarrow> string" where
  "sanitize_name s =
     (let k = normal_key s; out = trim_set (map name_byte (runes k)) ''_''
      in if k = [] \<or> out = [] then []
         else if hd out < CHR ''a'' \<or> hd out > CHR ''z'' then ''t_'' @ out else out)"

text \<open>
  The loop of \<open>uniqueToolName\<close> over \<open>_2\<close>, \<open>_3\<close>, ... has no bound; it is given one more round than
  there are names, which \<open>next_name_total\<close> shows is enough.
\<close>

definition the_default :: "'a \<Rightarrow> 'a option \<Rightarrow> 'a" where
  "the_default d x = (case x of Some v \<Rightarrow> v | None \<Rightarrow> d)"

fun next_name :: "string list \<Rightarrow> string \<Rightarrow> nat \<Rightarrow> int \<Rightarrow> string option" where
  "next_name existing base 0 i = None"
| "next_name existing base (Suc n) i =
     (if base @ ''_'' @ itoa i \<notin> set existing then Some (base @ ''_'' @ itoa i)
      else next_name existing base n (i + 1))"

definition unique_tool_name :: "string list \<Rightarrow> string \<Rightarrow> string" where
  "unique_tool_name existing base =
     (let b = (if base = [] then ''mcp_tool'' else base)
      in if b \<notin> set existing then b
         else the_default b (next_name existing b (Suc (length existing)) 2))"

section \<open>Tools of a server\<close>

record remote_tool =
  rm_name :: string
  rm_desc :: string
  rm_schema :: "goany option"

record tool_mapping =
  tm_local :: string
  tm_server :: string
  tm_remote :: string
  tm_desc :: string
  tm_transport :: string

record server_status =
  ss_name :: string
  ss_transport :: string
  ss_tools :: int

record 'c mcp_manager =
  mm_clients :: "'c list"
  mm_file :: string
  mm_prefix :: string
  mm_servers :: "server_status list"
  mm_tools :: "tool_mapping list"

definition mcp_metadata :: "string \<Rightarrow> string \<Rightarrow> remote_tool \<Rightarrow> metadata" where
  "mcp_metadata name server rt =
     \<lparr>md_name = name,
      md_desc = (if trim_space (rm_desc rt) = []
                 then ''MCP tool '' @ rm_name rt @ '' from server '' @ server
                 else trim_space (rm_desc rt)),
      md_in = Some (case rm_schema rt of None \<Rightarrow> object_schema | Some s \<Rightarrow> s),
      md_out = Some object_schema\<rparr>"

definition mcp_tool ::
    "('c \<Rightarrow> string \<Rightarrow> gomap \<Rightarrow> 'w \<Rightarrow> (go_error + goany) \<times> 'w) \<Rightarrow> 'c \<Rightarrow> string \<Rightarrow> string \<Rightarrow> remote_tool
      \<Rightarrow> 'w tool" where
  "mcp_tool call c name server rt =
     \<lparr>tl_name = name, tl_meta = Some (mcp_metadata name server rt),
      tl_exec = call c (rm_name rt)\<rparr>"

text \<open>What the loop of \<open>RegisterFromFile\<close> carries.\<close>

record ('c, 'w) load_state =
  ld_reg :: "'w registry"
  ld_names :: "string list"
  ld_manager :: "'c mcp_manager"
  ld_closed :: "'c list"

definition register_tool ::
    "('c \<Rightarrow> string \<Rightarrow> gomap \<Rightarrow> 'w \<Rightarrow> (go_error + goany) \<times> 'w) \<Rightarrow> 'c \<Rightarrow> string \<Rightarrow> string \<Rightarrow> remote_tool
      \<Rightarrow> ('c, 'w) load_state \<Rightarrow> ('c, 'w) load_state" where
  "register_tool call c server transport rt s =
     (let safe = (if sanitize_name server = [] then ''server'' else sanitize_name server);
          name = unique_tool_name (ld_names s)
             (mm_prefix (ld_manager s) @ ''_'' @ safe @ ''_'' @ sanitize_name (rm_name rt))
      in s\<lparr>ld_reg := reg_register (mcp_tool call c name server rt) (ld_reg s),
           ld_names := name # ld_names s,
           ld_manager := (ld_manager s)\<lparr>mm_tools := mm_tools (ld_manager s) @
             [\<lparr>tm_local = name, tm_server = server, tm_remote = rm_name rt,
               tm_desc = trim_space (rm_desc rt), tm_transport = transport\<rparr>]\<rparr>\<rparr>)"

definition register_tools where
  "register_tools call c server transport rts s = fold (register_tool call c server transport) rts s"

text \<open>
  \<open>manager.Close\<close> closes the clients that were added to the manager. A server whose transport
  cannot be resolved ends the load without it; one that cannot be started, or does not list
  its tools, ends it with it.
\<close>

definition close_all :: "('c, 'w) load_state \<Rightarrow> ('c, 'w) load_state" where
  "close_all s = s\<lparr>ld_closed := ld_closed s @ mm_clients (ld_manager s)\<rparr>"

definition add_server :: "'c \<Rightarrow> string \<Rightarrow> string \<Rightarrow> int \<Rightarrow> ('c, 'w) load_state \<Rightarrow> ('c, 'w) load_state" where
  "add_server c name tr n s = s\<lparr>ld_manager := (ld_manager s)\<lparr>
     mm_servers := mm_servers (ld_manager s) @ [\<lparr>ss_name = name, ss_transport = tr, ss_tools = n\<rparr>],
     mm_clients := mm_clients (ld_manager s) @ [c]\<rparr>\<rparr>"

fun load_servers ::
    "(string \<Rightarrow> server_config \<Rightarrow> go_error + 'c) \<Rightarrow> ('c \<Rightarrow> go_error + remote_tool list)
      \<Rightarrow> ('c \<Rightarrow> string \<Rightarrow> gomap \<Rightarrow> 'w \<Rightarrow> (go_error + goany) \<times> 'w)
      \<Rightarrow> (string \<times> server_config) list \<Rightarrow> ('c, 'w) load_state \<Rightarrow> go_error option \<times> ('c, 'w) load_state" where
  "load_servers start lister call [] s = (None, s)"
| "load_servers start lister call ((name, cfg) # rest) s =
     (case resolve_transport cfg of
        Inl e \<Rightarrow> (Some (''mcp: server '' @ name @ '': '' @ e), s)
      | Inr tr \<Rightarrow>
          (case start name cfg of
             Inl e \<Rightarrow> (Some e, close_all s)
           | Inr c \<Rightarrow>
               (case lister c of
                  Inl e \<Rightarrow> (Some e, close_all (s\<lparr>ld_closed := ld_closed s @ [c]\<rparr>))
                | Inr rts \<Rightarrow>
                    load_servers start lister call rest
                      (add_server c name (transport_name tr) (int (length rts))
                        (register_tools call c name (transport_name tr) (sort_key rm_name rts) s)))))"

definition start_state :: "string \<Rightarrow> string \<Rightarrow> 'w registry \<Rightarrow> ('c, 'w) load_state" where
  "start_state path pre reg =
     \<lparr>ld_reg = reg, ld_names = reg_list reg,
      ld_manager = \<lparr>mm_clients = [], mm_file = path,
        mm_prefix = (if sanitize_name pre = [] then ''mcp'' else sanitize_name pre),
        mm_servers = [], mm_tools = []\<rparr>,
      ld_closed = []\<rparr>"

definition register_from_file ::
    "(string \<Rightarrow> go_error + (string \<times> server_config) list)
      \<Rightarrow> (string \<Rightarrow> server_config \<Rightarrow> go_error + 'c) \<Rightarrow> ('c \<Rightarrow> go_error + remote_tool list)
      \<Rightarrow> ('c \<Rightarrow> string \<Rightarrow> gomap \<Rightarrow> 'w \<Rightarrow> (go_error + goany) \<times> 'w)
      \<Rightarrow> fs \<Rightarrow> string \<Rightarrow> string \<Rightarrow> 'w registry
      \<Rightarrow> (go_error + 'c mcp_manager option \<times> int) \<times> ('c, 'w) load_state" where
  "register_from_file dec start lister call s path pre reg =
     (let s0 = start_state path pre reg
      in if trim_space path = [] then (Inl ''mcp: config path is empty'', s0)
         else (case read_file s path of
                 Inl NotExist \<Rightarrow> (Inr (None, 0), s0)
               | Inl (IoError e) \<Rightarrow> (Inl (''mcp: read config file: '' @ e), s0)
               | Inr raw \<Rightarrow>
                   (case dec raw of
                      Inl e \<Rightarrow> (Inl (''mcp: parse config file: '' @ e), s0)
                    | Inr servers \<Rightarrow>
                        if servers = [] then (Inr (None, 0), s0)
                        else (case load_servers start lister call (sort_key fst servers) s0 of
                                (Some e, s1) \<Rightarrow> (Inl e, s1)
                              | (None, s1) \<Rightarrow>
                                  (Inr (Some (ld_manager s1), int (length (mm_tools (ld_manager s1)))), s1)))))"

record status_snapshot =
  sn_available :: bool
  sn_file :: string
  sn_prefix :: string
  sn_tools :: int
  sn_servers :: "server_status list"

definition mcp_status :: "'c mcp_manager option \<Rightarrow> status_snapshot" where
  "mcp_status mo =
     (case mo of
        None \<Rightarrow> \<lparr>sn_available = False, sn_file = [], sn_prefix = [], sn_tools = 0, sn_servers = []\<rparr>
      | Some m \<Rightarrow> \<lparr>sn_available = True, sn_file = mm_file m, sn_prefix = mm_prefix m,
                   sn_tools = int (length (mm_tools m)), sn_servers = mm_servers m\<rparr>)"

definition mcp_tools :: "'c mcp_manager option \<Rightarrow> tool_mapping list" where
  "mcp_tools mo = (case mo of None \<Rightarrow> [] | Some m \<Rightarrow> mm_tools m)"

section \<open>Names are well formed and fresh\<close>

definition name_char :: "char \<Rightarrow> bool" where
  "name_char c \<longleftrightarrow> (CHR ''a'' \<le> c \<and> c \<le> CHR ''z'') \<or> is_digit c \<or> c = CHR ''_''"

definition tool_name_ok :: "string \<Rightarrow> bool" where
  "tool_name_ok n \<longleftrightarrow> n \<noteq> [] \<and> CHR ''a'' \<le> hd n \<and> hd n \<le> CHR ''z'' \<and> (\<forall>c \<in> set n. name_char c)"

lemma name_byte_char: "name_char (name_byte r)"
proof -
  have "97 \<le> r \<and> r \<le> 122 \<or> 48 \<le> r \<and> r \<le> 57 \<Longrightarrow> name_char (byte_chr r)"
    by (auto simp: name_char_def is_digit_def less_eq_char_def byte_chr_def)
  then show ?thesis by (simp add: name_byte_def name_char_def)
qed

lemma set_trim_set: "set (trim_set s cs) \<subseteq> set s"
  unfolding trim_set_def using set_trim_right_set by (fastforce dest: set_dropWhileD)

lemma sanitize_name_ok: "sanitize_name s = [] \<or> tool_name_ok (sanitize_name s)"
proof -
  let ?o = "trim_set (map name_byte (runes (normal_key s))) ''_''"
  have o: "\<forall>c \<in> set ?o. name_char c" using set_trim_set name_byte_char by fastforce
  have "name_char (CHR ''t'')" "name_char (CHR ''_'')" "CHR ''a'' \<le> CHR ''t''" "CHR ''t'' \<le> CHR ''z''"
    by code_simp+
  with o show ?thesis
    by (auto simp: sanitize_name_def Let_def tool_name_ok_def not_less)
qed

lemma tool_name_ok_app: "tool_name_ok a \<Longrightarrow> (\<forall>c \<in> set b. name_char c) \<Longrightarrow> tool_name_ok (a @ b)"
  by (auto simp: tool_name_ok_def)

lemma itoa_digits: "0 \<le> i \<Longrightarrow> c \<in> set (itoa i) \<Longrightarrow> is_digit c"
  by (auto simp: itoa_def dest: nat_itoa_digits)

lemma next_name_fresh:
  "next_name existing base n i = Some m \<Longrightarrow> 0 \<le> i \<Longrightarrow>
     m \<notin> set existing \<and> (\<exists>k. 0 \<le> k \<and> m = base @ ''_'' @ itoa k)"
  by (induction existing base n i rule: next_name.induct) (auto split: if_splits)

lemma next_name_None:
  "next_name existing base n i = None \<Longrightarrow> (\<forall>k < n. base @ ''_'' @ itoa (i + int k) \<in> set existing)"
proof (induction existing base n i rule: next_name.induct)
  case (2 existing base n i)
  then have IH: "\<forall>k < n. base @ ''_'' @ itoa (i + 1 + int k) \<in> set existing"
    and 0: "base @ ''_'' @ itoa i \<in> set existing" by (auto split: if_splits)
  show ?case
  proof (intro allI impI)
    fix k assume "k < Suc n"
    then show "base @ ''_'' @ itoa (i + int k) \<in> set existing"
      using IH 0 by (cases k) (auto simp: algebra_simps)
  qed
qed simp

lemma next_name_total: "next_name existing base (Suc (length existing)) i \<noteq> None"
proof
  assume "next_name existing base (Suc (length existing)) i = None"
  then have "(\<lambda>k. base @ ''_'' @ itoa (i + int k)) ` {..< Suc (length existing)} \<subseteq> set existing"
    using next_name_None by blast
  then have "card ((\<lambda>k. base @ ''_'' @ itoa (i + int k)) ` {..< Suc (length existing)}) \<le> length existing"
    by (meson List.finite_set card_length card_mono order_trans)
  moreover have "inj_on (\<lambda>k. base @ ''_'' @ itoa (i + int k)) {..< Suc (length existing)}"
    by (auto simp: inj_on_def)
  ultimately show False by (simp add: card_image)
qed

lemma unique_tool_name_spec:
  assumes "tool_name_ok base"
  shows "unique_tool_name existing base \<notin> set existing \<and> tool_name_ok (unique_tool_name existing base)"
proof (cases "base \<in> set existing")
  case False
  with assms show ?thesis by (auto simp: unique_tool_name_def tool_name_ok_def Let_def)
next
  case True
  have b: "base \<noteq> []" using assms by (simp add: tool_name_ok_def)
  obtain n where n: "next_name existing base (Suc (length existing)) 2 = Some n"
    using next_name_total [of existing base 2] by blast
  from next_name_fresh [OF n] obtain k where k: "n \<notin> set existing" "0 \<le> k" "n = base @ ''_'' @ itoa k"
    by auto
  have "tool_name_ok n" unfolding k(3)
    using assms k(2) by (intro tool_name_ok_app) (auto simp: name_char_def dest: itoa_digits)
  moreover have "unique_tool_name existing base = n"
    using True b n by (simp add: unique_tool_name_def the_default_def Let_def)
  ultimately show ?thesis using k(1) by simp
qed

section \<open>Loading\<close>

text \<open>What holds of a load in progress, from the registry it started on.\<close>

definition load_inv :: "'w registry \<Rightarrow> ('c, 'w) load_state \<Rightarrow> bool" where
  "load_inv reg0 s \<longleftrightarrow> tool_name_ok (mm_prefix (ld_manager s))
     \<and> set (ld_names s) = set (reg_list (ld_reg s))
     \<and> set (reg_list (ld_reg s)) = set (reg_list reg0) \<union> tm_local ` set (mm_tools (ld_manager s))
     \<and> distinct (map tm_local (mm_tools (ld_manager s)))
     \<and> (\<forall>n \<in> set (reg_list reg0). reg_get (ld_reg s) n = reg_get reg0 n)
     \<and> (\<forall>m \<in> set (mm_tools (ld_manager s)). tm_local m \<notin> set (reg_list reg0) \<and> tool_name_ok (tm_local m)
          \<and> (\<exists>t. reg_get (ld_reg s) (tm_local m) = Some t \<and> tl_name t = tm_local m))"

lemma register_tool_inv:
  assumes "load_inv reg0 s" shows "load_inv reg0 (register_tool call c server tr rt s)"
proof -
  let ?safe = "if sanitize_name server = [] then ''server'' else sanitize_name server"
  let ?base = "mm_prefix (ld_manager s) @ ''_'' @ ?safe @ ''_'' @ sanitize_name (rm_name rt)"
  have chars: "\<forall>c \<in> set (sanitize_name x). name_char c" for x
    using sanitize_name_ok [of x] by (auto simp: tool_name_ok_def)
  have "\<forall>c \<in> set ''server''. name_char c" "name_char (CHR ''_'')" by code_simp+
  with chars have "\<forall>c \<in> set (''_'' @ ?safe @ ''_'' @ sanitize_name (rm_name rt)). name_char c" by auto
  then have "tool_name_ok ?base"
    using assms by (intro tool_name_ok_app) (simp_all add: load_inv_def)
  note n = unique_tool_name_spec [OF this, of "ld_names s"]
  then show ?thesis
    using assms
    by (auto simp: load_inv_def register_tool_def Let_def tr.look_reg tr.listing_reg mcp_tool_def)
qed

lemma register_tools_inv:
  "load_inv reg0 s \<Longrightarrow> load_inv reg0 (register_tools call c server tr rts s)"
  unfolding register_tools_def by (induction rts arbitrary: s) (auto intro: register_tool_inv)

lemma load_servers_inv:
  "load_servers start lister call svs s = (r, s') \<Longrightarrow> load_inv reg0 s \<Longrightarrow> load_inv reg0 s'"
proof (induction start lister call svs s rule: load_servers.induct)
  case (2 start lister call name cfg rest s)
  have add: "load_inv reg0 (add_server c n t k x) = load_inv reg0 x"
    and close: "load_inv reg0 (close_all x) = load_inv reg0 x"
    and closed: "load_inv reg0 (x\<lparr>ld_closed := cs\<rparr>) = load_inv reg0 x" for c n t k x cs
    by (simp_all add: load_inv_def add_server_def close_all_def)
  from 2 show ?case
    by (auto simp: add close closed register_tools_inv split: sum.splits)
qed simp

lemma load_inv_start: "load_inv reg (start_state path pre reg)"
proof -
  have "tool_name_ok ''mcp''" by code_simp
  then show ?thesis using sanitize_name_ok [of pre]
    by (auto simp: load_inv_def start_state_def)
qed

lemma register_from_file_inv:
  assumes "register_from_file dec start lister call s path pre reg = (r, s')"
  shows "load_inv reg s'"
proof -
  have "s' = start_state path pre reg
      \<or> (\<exists>svs e. load_servers start lister call svs (start_state path pre reg) = (e, s'))"
    using assms by (auto simp: register_from_file_def Let_def split: if_splits sum.splits io_error.splits
        prod.splits option.splits)
  then show ?thesis using load_inv_start [of reg path pre] load_servers_inv by metis
qed

text \<open>
  Loading servers never disturbs a tool. Whatever servers and tools a file names, and
  whether or not the load succeeds, every tool that was registered stays as it was, the new
  tools have names of their own, all different, made of lower-case letters, digits and
  underscores and starting with a letter, and each is found under its name.
\<close>

theorem mcp_names_fresh:
  assumes "register_from_file dec start lister call s path pre reg = (r, s')"
  shows "(\<forall>n \<in> set (reg_list reg). reg_get (ld_reg s') n = reg_get reg n)
    \<and> distinct (map tm_local (mm_tools (ld_manager s')))
    \<and> (\<forall>m \<in> set (mm_tools (ld_manager s')). tm_local m \<notin> set (reg_list reg) \<and> tool_name_ok (tm_local m)
         \<and> (\<exists>t. reg_get (ld_reg s') (tm_local m) = Some t \<and> tl_name t = tm_local m))"
  using register_from_file_inv [OF assms] by (simp add: load_inv_def)

definition demo_server :: server_config where
  "demo_server = \<lparr>sv_transport = [], sv_type = [], sv_command = ''srv'', sv_args = [], sv_env = [],
     sv_cwd = [], sv_url = [], sv_message_url = [], sv_headers = [], sv_timeout = 0, sv_framing = []\<rparr>"

definition demo_load where
  "demo_load = register_from_file (\<lambda>_. Inr [(''My Srv'', demo_server)]) (\<lambda>n _. Inr n)
     (\<lambda>_. Inr [\<lparr>rm_name = ''do-it'', rm_desc = [], rm_schema = None\<rparr>,
             \<lparr>rm_name = ''do it'', rm_desc = [], rm_schema = None\<rparr>])
     (\<lambda>_ _ _ w. (Inr VNil, w)) (plain_fs [(''m.json'', ''{}'')]) ''m.json'' ''MCP'' ([] :: unit registry)"

theorem mcp_names_fresh_witness:
  "map tm_local (mm_tools (ld_manager (snd demo_load))) = [''mcp_my_srv_do_it'', ''mcp_my_srv_do_it_2'']
   \<and> distinct (map tm_local (mm_tools (ld_manager (snd demo_load))))"
proof -
  have "map tm_local (mm_tools (ld_manager (snd demo_load))) = [''mcp_my_srv_do_it'', ''mcp_my_srv_do_it_2'']"
    by code_simp
  moreover have "register_from_file (\<lambda>_. Inr [(''My Srv'', demo_server)]) (\<lambda>n _. Inr n)
     (\<lambda>_. Inr [\<lparr>rm_name = ''do-it'', rm_desc = [], rm_schema = None\<rparr>,
             \<lparr>rm_name = ''do it'', rm_desc = [], rm_schema = None\<rparr>])
     (\<lambda>_ _ _ w. (Inr VNil, w)) (plain_fs [(''m.json'', ''{}'')]) ''m.json'' ''MCP'' ([] :: unit registry)
     = (fst demo_load, snd demo_load)"
    by (simp add: demo_load_def)
  from mcp_names_fresh [OF this] have "distinct (map tm_local (mm_tools (ld_manager (snd demo_load))))"
    by blast
  ultimately show ?thesis by blast
qed

text \<open>
  An unknown transport leaks the servers before it. When the transport of a server cannot
  be resolved the load ends with an error, no manager is returned and nothing is closed, so
  that the clients started until then go on running with nobody to stop them; a server that
  cannot be started, in the same place, has them all closed.
\<close>

theorem transport_error_leaks_clients:
  fixes s :: "('c, 'w) load_state"
  assumes "resolve_transport cfg = Inl e" "resolve_transport cfg' = Inr tr" "start name cfg' = Inl e'"
  shows "ld_closed (snd (load_servers start lister call ((name, cfg) # rest) s)) = ld_closed s
    \<and> ld_closed (snd (load_servers start lister call ((name, cfg') # rest) s))
        = ld_closed s @ mm_clients (ld_manager s)"
  using assms by (simp add: close_all_def)

theorem transport_error_leaks_clients_witness:
  "ld_closed (snd (load_servers (\<lambda>n _. Inl ''no'') (\<lambda>_. Inr []) (\<lambda>_ _ _ w. (Inr VNil, w))
       [(''b'', demo_server\<lparr>sv_transport := ''carrier pigeon''\<rparr>)]
       ((add_server (7::int) ''a'' ''stdio'' 0 (start_state ''m.json'' [] [])) :: (int, unit) load_state))) = []
   \<and> ld_closed (snd (load_servers (\<lambda>n _. Inl ''no'') (\<lambda>_. Inr []) (\<lambda>_ _ _ w. (Inr VNil, w))
       [(''b'', demo_server)]
       ((add_server (7::int) ''a'' ''stdio'' 0 (start_state ''m.json'' [] [])) :: (int, unit) load_state))) = [7]"
proof -
  let ?s = "(add_server (7::int) ''a'' ''stdio'' 0 (start_state ''m.json'' [] [])) :: (int, unit) load_state"
  have "\<not> is_ok (resolve_transport (demo_server\<lparr>sv_transport := ''carrier pigeon''\<rparr>))" by code_simp
  then obtain e where e: "resolve_transport (demo_server\<lparr>sv_transport := ''carrier pigeon''\<rparr>) = Inl e"
    by (cases "resolve_transport (demo_server\<lparr>sv_transport := ''carrier pigeon''\<rparr>)") auto
  have t: "resolve_transport demo_server = Inr Stdio" by code_simp
  from transport_error_leaks_clients [OF e t, of "\<lambda>n _. Inl ''no''" "''b''" "''no''"
      "\<lambda>_. Inr []" "\<lambda>_ _ _ w. (Inr VNil, w)" "[]" ?s]
  show ?thesis by (simp add: add_server_def start_state_def)
qed

end
