(* ===== verification/McpWire.thy ===== *)
theory McpWire
  imports Mcp
begin

text \<open>
  The wire of \<open>internal/mcp/client.go\<close>: JSON-RPC messages, the two framings of standard input
  and output, server-sent events, and what a reply to an HTTP POST is taken for. Decoding a
  message is an argument \<open>dec\<close>. A stream that is read is the bytes it gives before it ends;
  \<open>Eof\<close> is the error \<open>io.EOF\<close>. The length \<open>make\<close> accepts is that of 64-bit Linux, and a
  buffer below it is taken to fit in memory.
\<close>

section \<open>Messages\<close>

record rpc_error =
  re_code :: int
  re_message :: string

record rpc_message =
  rp_id :: goany
  rp_method :: string
  rp_params :: string
  rp_result :: string
  rp_error :: "rpc_error option"

text \<open>Conversion of a \<open>float64\<close> to \<open>int64\<close>: towards zero, the least integer out of range (amd64).\<close>

definition float_to_int64 :: "int \<Rightarrow> int \<Rightarrow> int" where
  "float_to_int64 m e =
     (let i = (if 0 \<le> e then m * 2 ^ nat e
               else if 0 \<le> m then m div 2 ^ nat (- e) else - ((- m) div 2 ^ nat (- e)))
      in if min_int64 \<le> i \<and> i \<le> max_int64 then i else min_int64)"

definition normalize_id :: "goany \<Rightarrow> string option" where
  "normalize_id v =
     (case v of
        VStr s \<Rightarrow> Some s
      | VNum m e \<Rightarrow> Some (itoa (float_to_int64 m e))
      | _ \<Rightarrow> None)"

definition rpc_error_text :: "rpc_error \<Rightarrow> string" where
  "rpc_error_text e = ''rpc error '' @ itoa (re_code e) @ '': '' @ re_message e"

section \<open>Frames\<close>

datatype read_error = Eof | UnexpectedEof | BadLength string | MissingLength | TooLong | LengthPanic

definition max_alloc :: int where "max_alloc = 281474976710656"

text \<open>\<open>ReadString('\n')\<close>: the line without its end and what follows, if there is an end.\<close>

definition cut_line :: "string \<Rightarrow> (string \<times> string) option" where
  "cut_line s =
     (if NL \<in> set s
      then Some (takeWhile (\<lambda>x. x \<noteq> NL) s, tl (dropWhile (\<lambda>x. x \<noteq> NL) s)) else None)"

lemma cut_line_append: "NL \<notin> set l \<Longrightarrow> cut_line (l @ NL # r) = Some (l, r)"
  by (simp add: cut_line_def cut_append)

lemma cut_line_shorter: "cut_line s = Some (l, r) \<Longrightarrow> length r < length s"
proof -
  assume a: "cut_line s = Some (l, r)"
  then have "r = tl (dropWhile (\<lambda>x. x \<noteq> NL) s)" and "NL \<in> set s"
    by (auto simp: cut_line_def split: if_splits)
  moreover have "length (dropWhile (\<lambda>x. x \<noteq> NL) s) \<le> length s" by (rule length_dropWhile_le)
  moreover have "s \<noteq> []" using \<open>NL \<in> set s\<close> by auto
  ultimately show ?thesis by (cases s) (auto simp: le_less_trans)
qed

definition strip_eol :: "string \<Rightarrow> string" where "strip_eol l = trim_right_set l [CR, NL]"

definition header_key :: string where "header_key = ''Content-Length''"

function read_header :: "int \<Rightarrow> string \<Rightarrow> read_error + (int \<times> string)" where
  "read_header n s =
     (case cut_line s of
        None \<Rightarrow> Inl Eof
      | Some (l, r) \<Rightarrow>
          if strip_eol l = [] then Inr (n, r)
          else (case split_n2 (CHR '':'') (strip_eol l) of
                  [k, v] \<Rightarrow>
                    if equal_fold (trim_space k) header_key
                    then (case atoi (trim_space v) of
                            None \<Rightarrow> Inl (BadLength (trim_space v))
                          | Some m \<Rightarrow> read_header m r)
                    else read_header n r
                | _ \<Rightarrow> read_header n r))"
  by pat_completeness auto
termination by (relation "measure (\<lambda>(n, s). length s)") (auto dest: cut_line_shorter)

declare read_header.simps [simp del]

definition read_frame :: "string \<Rightarrow> read_error + (string \<times> string)" where
  "read_frame s =
     (case read_header (-1) s of
        Inl e \<Rightarrow> Inl e
      | Inr (n, r) \<Rightarrow>
          if n < 0 then Inl MissingLength
          else if n > max_alloc then Inl LengthPanic
          else if int (length r) \<ge> n then Inr (take (nat n) r, drop (nat n) r)
          else if r = [] then Inl Eof else Inl UnexpectedEof)"

lemma read_header_shorter: "read_header n s = Inr (m, t) \<Longrightarrow> length t < length s"
proof (induction "length s" arbitrary: n s rule: less_induct)
  case less
  from less.prems obtain l r where lr: "cut_line s = Some (l, r)"
    by (subst (asm) read_header.simps) (auto split: option.splits)
  have "t = r \<or> (\<exists>k. read_header k r = Inr (m, t))"
    using less.prems lr by (subst (asm) read_header.simps)
      (auto split: list.splits if_splits option.splits)
  with less.hyps cut_line_shorter [OF lr] show ?case by fastforce
qed

lemma read_frame_shorter: "read_frame s = Inr (b, r) \<Longrightarrow> length r < length s"
  by (fastforce simp: read_frame_def split: sum.splits if_splits dest: read_header_shorter)

text \<open>The loop of \<open>readLoopStdio\<close>: the bodies it dispatches and the error it ends with.\<close>

function read_frames :: "string \<Rightarrow> string list \<times> read_error" where
  "read_frames s =
     (case read_frame s of
        Inl e \<Rightarrow> ([], e)
      | Inr (b, r) \<Rightarrow> (case read_frames r of (bs, e) \<Rightarrow> (b # bs, e)))"
  by pat_completeness auto
termination by (relation "measure length") (auto dest: read_frame_shorter)

declare read_frames.simps [simp del]

text \<open>
  The loop of \<open>readLoopStdioNDJSON\<close>. A scanner stops at a line that does not fit its buffer
  of one mebibyte; \<open>ScanLines\<close> drops one carriage return, which \<open>TrimSpace\<close> drops anyway.
\<close>

definition scan_buffer :: int where "scan_buffer = 1048576"

fun ndjson_scan :: "string list \<Rightarrow> string list \<times> read_error" where
  "ndjson_scan [] = ([], Eof)"
| "ndjson_scan (l # ls) =
     (if int (length l) \<ge> scan_buffer then ([], TooLong)
      else (case ndjson_scan ls of
              (bs, e) \<Rightarrow> (if trim_space l = [] then bs else trim_space l # bs, e)))"

definition ndjson_lines :: "string \<Rightarrow> string list \<times> read_error" where
  "ndjson_lines s =
     (let ls = split_on NL s in ndjson_scan (if last ls = [] then butlast ls else ls))"

definition read_bodies :: "framing \<Rightarrow> string \<Rightarrow> string list \<times> read_error" where
  "read_bodies f s = (case f of Ndjson \<Rightarrow> ndjson_lines s | Lsp \<Rightarrow> read_frames s)"

text \<open>What \<open>writeStdioMessage\<close> writes for an encoded message.\<close>

definition write_frame :: "framing \<Rightarrow> string \<Rightarrow> string" where
  "write_frame f body =
     (case f of
        Ndjson \<Rightarrow> body @ [NL]
      | Lsp \<Rightarrow> header_key @ '': '' @ itoa (int (length body)) @ [CR, NL, CR, NL] @ body)"

section \<open>What is written is what is read\<close>

text \<open>The bodies a framing carries: one that a buffer holds, and for lines a single trimmed line.\<close>

definition frame_ok :: "framing \<Rightarrow> string \<Rightarrow> bool" where
  "frame_ok f b =
     (case f of
        Lsp \<Rightarrow> int (length b) \<le> max_alloc
      | Ndjson \<Rightarrow> b \<noteq> [] \<and> trim_space b = b \<and> NL \<notin> set b \<and> int (length b) < scan_buffer)"

lemma header_chars: "c \<in> set header_key \<Longrightarrow> plain_char c \<and> c \<noteq> CHR '':''"
  by (auto simp: header_key_def plain_char_def)

lemma plain_not_eol: "plain_char c \<Longrightarrow> c \<noteq> NL \<and> c \<noteq> CR"
  by (auto simp: plain_char_def)

lemma strip_eol_CR: "x \<noteq> [] \<Longrightarrow> plain_char (last x) \<Longrightarrow> strip_eol (x @ [CR]) = x"
proof -
  assume "x \<noteq> []" "plain_char (last x)"
  then have "trim_right_set x [CR, NL] = x"
    by (intro trim_right_set_id) (auto dest: plain_not_eol)
  then show ?thesis by (simp add: strip_eol_def trim_right_set_def)
qed

lemma itoa_last_plain: "plain_char (last (itoa i))"
  by (rule itoa_plain) (rule last_in_set [OF itoa_not_Nil])

lemma header_line:
  assumes "0 \<le> n" "n \<le> max_int64"
  shows "read_header k (header_key @ '': '' @ itoa n @ [CR, NL, CR, NL] @ r) = Inr (n, r)"
proof -
  let ?h = "header_key @ '': '' @ itoa n"
  have nl: "NL \<notin> set (?h @ [CR])"
    using header_chars plain_not_eol itoa_plain [of NL n] by auto
  have cut1: "cut_line (header_key @ '': '' @ itoa n @ [CR, NL, CR, NL] @ r)
      = Some (?h @ [CR], CR # NL # r)"
    using cut_line_append [OF nl, of "CR # NL # r"] by simp
  have strip: "strip_eol (?h @ [CR]) = ?h"
    using itoa_last_plain [of n] by (intro strip_eol_CR) auto
  have split: "split_n2 (CHR '':'') ?h = [header_key, '' '' @ itoa n]"
    using split_n2_append [of "CHR '':''" header_key "'' '' @ itoa n"] header_chars by auto
  have key: "equal_fold (trim_space header_key) header_key" by code_simp
  have val: "atoi (trim_space ('' '' @ itoa n)) = Some n"
    using assms by (simp add: atoi_itoa min_int64_def)
  have cut2: "cut_line (CR # NL # r) = Some ([CR], r)"
    using cut_line_append [of "[CR]" r] by simp
  have fin: "read_header n (CR # NL # r) = Inr (n, r)"
    by (subst read_header.simps) (simp add: cut2 strip_eol_def trim_right_set_def)
  show ?thesis
    by (subst read_header.simps)
      (simp only: cut1 option.case prod.case strip split list.case key val fin if_True
        append_is_Nil_conv, simp add: header_key_def)
qed

lemma read_frame_write:
  assumes "int (length b) \<le> max_alloc"
  shows "read_frame (write_frame Lsp b @ r) = Inr (b, r)"
proof -
  have "int (length b) \<le> max_int64" using assms by (simp add: max_alloc_def max_int64_def)
  then have "read_header (-1) (write_frame Lsp b @ r) = Inr (int (length b), b @ r)"
    using header_line [of "int (length b)" "-1" "b @ r"] by (simp add: write_frame_def)
  with assms show ?thesis by (simp add: read_frame_def)
qed

lemma read_frames_write:
  "(\<forall>b \<in> set bs. frame_ok Lsp b) \<Longrightarrow> read_frames (concat (map (write_frame Lsp) bs)) = (bs, Eof)"
proof (induction bs)
  case Nil
  have "read_frame [] = Inl Eof"
    by (simp add: read_frame_def read_header.simps [of "-1" "[]"] cut_line_def)
  then show ?case by (simp add: read_frames.simps [of "[]"])
next
  case (Cons b bs)
  then have "read_frame (write_frame Lsp b @ concat (map (write_frame Lsp) bs))
      = Inr (b, concat (map (write_frame Lsp) bs))"
    by (intro read_frame_write) (simp add: frame_ok_def)
  with Cons show ?case by (simp add: read_frames.simps [of "write_frame Lsp b @ _"])
qed

lemma split_frames:
  "(\<forall>b \<in> set bs. NL \<notin> set b) \<Longrightarrow> split_on NL (concat (map (write_frame Ndjson) bs)) = bs @ [[]]"
  by (induction bs) (auto simp: write_frame_def split_on_append)

lemma scan_lines_trimmed: "(\<forall>b \<in> set bs. frame_ok Ndjson b) \<Longrightarrow> ndjson_scan bs = (bs, Eof)"
  by (induction bs) (auto simp: frame_ok_def)

lemma frames_read:
  assumes "\<forall>b \<in> set bs. frame_ok f b"
  shows "read_bodies f (concat (map (write_frame f) bs)) = (bs, Eof)"
proof (cases f)
  case Lsp
  with assms show ?thesis by (simp add: read_bodies_def read_frames_write)
next
  case Ndjson
  with assms have "\<forall>b \<in> set bs. NL \<notin> set b" by (simp add: frame_ok_def)
  then have "split_on NL (concat (map (write_frame Ndjson) bs)) = bs @ [[]]" by (rule split_frames)
  with assms Ndjson show ?thesis
    by (simp add: read_bodies_def ndjson_lines_def Let_def scan_lines_trimmed)
qed

text \<open>
  C26: what the client writes to a server's standard input is what its own reader gives back.
  Any bodies, written one after the other in either framing, are read in order, each whole,
  and nothing else; with lines this asks that a body is one non-empty line below the buffer
  of the scanner, with the other framing only that its length can be allocated. A body may
  hold any bytes there, ends of line and header lines included.
\<close>

theorem stdio_roundtrip:
  assumes "\<forall>b \<in> set bs. frame_ok f b"
  shows "read_bodies f (concat (map (write_frame f) bs)) = (bs, Eof)"
  using assms by (rule frames_read)

theorem stdio_roundtrip_witness:
  "read_bodies Lsp (concat (map (write_frame Lsp) [''{}'', [NL, CR, NL] @ ''Content-Length: 9'', []]))
     = ([''{}'', [NL, CR, NL] @ ''Content-Length: 9'', []], Eof)"
proof (rule stdio_roundtrip)
  show "\<forall>b \<in> set [''{}'', [NL, CR, NL] @ ''Content-Length: 9'', []]. frame_ok Lsp b"
    by (simp add: frame_ok_def max_alloc_def)
qed

section \<open>Server-sent events\<close>

datatype sse_line = Boundary | Comment | EventLine string | DataLine string | OtherLine

definition classify_line :: "string \<Rightarrow> sse_line" where
  "classify_line raw =
     (let l = strip_eol raw
      in if l = [] then Boundary
         else if has_prefix l '':'' then Comment
         else if has_prefix l ''event:'' then EventLine (trim_space (trim_prefix l ''event:''))
         else if has_prefix l ''data:'' then DataLine (trim_space (trim_prefix l ''data:''))
         else OtherLine)"

text \<open>The complete lines of a stream; \<open>ReadString\<close> gives an error with the rest.\<close>

definition stream_lines :: "string \<Rightarrow> string list" where
  "stream_lines s = butlast (split_on NL s)"

definition is_endpoint :: "string \<Rightarrow> string \<Rightarrow> bool" where
  "is_endpoint ev data \<longleftrightarrow>
     equal_fold ev ''endpoint'' \<or> (ev = [] \<and> \<not> has_prefix (trim_space data) ''{'')"

text \<open>\<open>handleSSEEvent\<close> and the loop of \<open>readLoopSSE\<close>: what it does with each event, in order.\<close>

datatype sse_action = Endpoint string | Dispatch string

definition handle_sse_event :: "(string \<Rightarrow> string) \<Rightarrow> string \<Rightarrow> string \<Rightarrow> sse_action list" where
  "handle_sse_event resolve ev data =
     (if trim_space data = [] then []
      else if is_endpoint ev data then [Endpoint (resolve (trim_space data))]
      else [Dispatch data])"

fun sse_loop :: "(string \<Rightarrow> string) \<Rightarrow> string \<Rightarrow> string list \<Rightarrow> string list \<Rightarrow> sse_action list" where
  "sse_loop resolve ev data [] = []"
| "sse_loop resolve ev data (l # ls) =
     (case classify_line l of
        Boundary \<Rightarrow> handle_sse_event resolve ev (join [NL] data) @ sse_loop resolve [] [] ls
      | EventLine e \<Rightarrow> sse_loop resolve e data ls
      | DataLine d \<Rightarrow> sse_loop resolve ev (data @ [d]) ls
      | _ \<Rightarrow> sse_loop resolve ev data ls)"

definition read_loop_sse :: "(string \<Rightarrow> string) \<Rightarrow> string \<Rightarrow> sse_action list" where
  "read_loop_sse resolve s = sse_loop resolve [] [] (stream_lines s)"

section \<open>The reply to a POST\<close>

text \<open>
  \<open>errNoAsyncResponse\<close> is compared by identity, so it is a value of its own. A notification
  is a method and its parameters; those found on the way are listed beside the result.
\<close>

datatype post_error = NoAsyncResponse | PostFailed go_error

type_synonym note_list = "(string \<times> string) list"

definition result_of :: "rpc_message \<Rightarrow> go_error + string" where
  "result_of m =
     (case rp_error m of
        Some e \<Rightarrow> Inl (''mcp '' @ rpc_error_text e)
      | None \<Rightarrow> if rp_result m = [] then Inl ''json-rpc result is empty'' else Inr (rp_result m))"

definition note_of :: "rpc_message \<Rightarrow> note_list" where
  "note_of m = (if trim_space (rp_method m) = [] then [] else [(trim_space (rp_method m), rp_params m)])"

definition flush_event ::
    "(string \<Rightarrow> go_error + rpc_message) \<Rightarrow> string \<Rightarrow> string \<Rightarrow> string list
      \<Rightarrow> (go_error + string) option \<times> note_list" where
  "flush_event dec rid ev lines =
     (let data = trim_space (join [NL] lines)
      in if data = [] \<or> is_endpoint ev data then (None, [])
         else (case dec data of
                 Inl _ \<Rightarrow> (None, [])
               | Inr m \<Rightarrow>
                   if rp_id m = VNil then (None, note_of m)
                   else if normalize_id (rp_id m) \<noteq> Some rid then (None, [])
                   else (Some (result_of m), [])))"

text \<open>The loop of \<open>readEventStreamResult\<close>, given how the stream ends (\<open>None\<close> is \<open>io.EOF\<close>).\<close>

fun stream_loop ::
    "(string \<Rightarrow> go_error + rpc_message) \<Rightarrow> string \<Rightarrow> go_error option \<Rightarrow> string \<Rightarrow> string list
      \<Rightarrow> string list \<Rightarrow> (post_error + string) \<times> note_list" where
  "stream_loop dec rid end_err ev data [] =
     (case end_err of
        Some e \<Rightarrow> (Inl (PostFailed e), [])
      | None \<Rightarrow>
          (case flush_event dec rid ev data of
             (Some (Inl e), ns) \<Rightarrow> (Inl (PostFailed e), ns)
           | (Some (Inr r), ns) \<Rightarrow> (Inr r, ns)
           | (None, ns) \<Rightarrow> (Inl NoAsyncResponse, ns)))"
| "stream_loop dec rid end_err ev data (l # ls) =
     (case classify_line l of
        Boundary \<Rightarrow>
          (case flush_event dec rid ev data of
             (Some (Inl e), ns) \<Rightarrow> (Inl (PostFailed e), ns)
           | (Some (Inr r), ns) \<Rightarrow> (Inr r, ns)
           | (None, ns) \<Rightarrow> apsnd ((@) ns) (stream_loop dec rid end_err [] [] ls))
      | EventLine e \<Rightarrow> stream_loop dec rid end_err e data ls
      | DataLine d \<Rightarrow> stream_loop dec rid end_err ev (data @ [d]) ls
      | _ \<Rightarrow> stream_loop dec rid end_err ev data ls)"

record http_response =
  hr_status :: int
  hr_type :: string
  hr_body :: string
  hr_end :: "go_error option"

definition parse_rpc_result :: "(string \<Rightarrow> go_error + rpc_message) \<Rightarrow> string \<Rightarrow> go_error + string" where
  "parse_rpc_result dec raw = (case dec raw of Inl e \<Rightarrow> Inl e | Inr m \<Rightarrow> result_of m)"

text \<open>
  \<open>postJSONRPC\<close>, given what \<open>httpClient.Do\<close> returned. The message is built of decoded JSON,
  which \<open>json.Marshal\<close> always encodes.
\<close>

definition post_json ::
    "(string \<Rightarrow> go_error + rpc_message) \<Rightarrow> string \<Rightarrow> string \<Rightarrow> string option \<Rightarrow> bool
      \<Rightarrow> go_error + http_response \<Rightarrow> (post_error + string) \<times> note_list" where
  "post_json dec name endpoint rid expect reply =
     (if trim_space endpoint = [] then (Inl (PostFailed ''mcp: endpoint is empty''), [])
      else (case reply of
         Inl e \<Rightarrow> (Inl (PostFailed e), [])
       | Inr r \<Rightarrow>
           if hr_status r < 200 \<or> hr_status r \<ge> 300
           then (Inl (PostFailed (''mcp: server '' @ name @ '' status '' @ itoa (hr_status r) @ '': ''
                   @ trim_space (hr_body r))), [])
           else if contains (normal_key (hr_type r)) ''text/event-stream'' then
             (if \<not> expect then (Inr [], [])
              else (case rid of
                 None \<Rightarrow> (Inl (PostFailed ''json-rpc request id is missing''), [])
               | Some i \<Rightarrow>
                   if trim_space i = [] then (Inl (PostFailed ''json-rpc request id is missing''), [])
                   else stream_loop dec i (hr_end r) [] [] (stream_lines (hr_body r))))
           else (case hr_end r of
              Some e \<Rightarrow> (Inl (PostFailed e), [])
            | None \<Rightarrow>
                if trim_space (hr_body r) = [] then (if expect then Inl NoAsyncResponse else Inr [], [])
                else (case parse_rpc_result dec (hr_body r) of
                   Inr res \<Rightarrow> (Inr res, [])
                 | Inl _ \<Rightarrow> (if expect then Inr (hr_body r) else Inr [], [])))))"

section \<open>What a POST returns\<close>

lemma flush_event_own:
  "flush_event dec rid ev data = (Some (Inr res), ns) \<Longrightarrow>
     \<exists>d m. dec d = Inr m \<and> normalize_id (rp_id m) = Some rid \<and> result_of m = Inr res"
  by (auto simp: flush_event_def Let_def split: if_splits sum.splits)

lemma stream_loop_own:
  "fst (stream_loop dec rid e ev data ls) = Inr res \<Longrightarrow>
     \<exists>d m. dec d = Inr m \<and> normalize_id (rp_id m) = Some rid \<and> result_of m = Inr res"
  by (induction ls arbitrary: ev data)
    (auto split: option.splits sse_line.splits prod.splits sum.splits dest: flush_event_own)

text \<open>
  Where the result of a POST comes from. A call that expects a result and gets one has it
  from a message of the event stream with the id of the request, or from the RPC result of
  the body, or else it is the whole body of a reply with a status below 300 that held no RPC
  result: a body that is not JSON, or one that reports an RPC error.
\<close>

theorem post_result_origin:
  assumes "fst (post_json dec name endpoint (Some rid) True reply) = Inr res"
  shows "\<exists>r. reply = Inr r \<and> 200 \<le> hr_status r \<and> hr_status r < 300
    \<and> ((\<exists>d m. dec d = Inr m \<and> normalize_id (rp_id m) = Some rid \<and> result_of m = Inr res)
       \<or> parse_rpc_result dec (hr_body r) = Inr res
       \<or> \<not> is_ok (parse_rpc_result dec (hr_body r)) \<and> res = hr_body r)"
proof -
  from assms obtain r where r: "reply = Inr r" by (auto simp: post_json_def split: if_splits sum.splits)
  with assms have s: "200 \<le> hr_status r" "hr_status r < 300"
    by (auto simp: post_json_def split: if_splits)
  show ?thesis
  proof (cases "contains (normal_key (hr_type r)) ''text/event-stream''")
    case True
    with assms r s have "fst (stream_loop dec rid (hr_end r) [] [] (stream_lines (hr_body r))) = Inr res"
      by (simp add: post_json_def split: if_splits)
    from stream_loop_own [OF this] r s show ?thesis by blast
  next
    case False
    with assms r s show ?thesis
      by (auto simp: post_json_def split: if_splits option.splits sum.splits)
  qed
qed

definition demo_http_reply :: http_response where
  "demo_http_reply = \<lparr>hr_status = 202, hr_type = ''text/plain'', hr_body = ''Accepted'', hr_end = None\<rparr>"

theorem post_result_origin_witness:
  "\<exists>r. (Inr demo_http_reply :: go_error + http_response) = Inr r \<and> 200 \<le> hr_status r \<and> hr_status r < 300
    \<and> ((\<exists>(d :: string) m. (Inl ''invalid character'' :: go_error + rpc_message) = Inr m
              \<and> normalize_id (rp_id m) = Some ''7'' \<and> result_of m = Inr ''Accepted'')
       \<or> parse_rpc_result (\<lambda>_. Inl ''invalid character'') (hr_body r) = Inr ''Accepted''
       \<or> \<not> is_ok (parse_rpc_result (\<lambda>_. Inl ''invalid character'') (hr_body r))
         \<and> ''Accepted'' = hr_body r)"
proof -
  have "fst (post_json (\<lambda>_. Inl ''invalid character'') ''a'' ''http://x'' (Some ''7'') True
      (Inr demo_http_reply)) = Inr ''Accepted''"
    by code_simp
  from post_result_origin [OF this] show ?thesis .
qed

text \<open>
  A server's refusal counts as a result. A body that decodes to an RPC error and is not
  an event stream is handed to the caller as if it were the result of the request.
\<close>

lemma rpc_error_taken_for_result:
  assumes "trim_space endpoint \<noteq> []" "dec body = Inr m" "rp_error m = Some e"
    and "trim_space body \<noteq> []" "\<not> contains (normal_key ty) ''text/event-stream''"
  shows "post_json dec name endpoint (Some rid) True
      (Inr \<lparr>hr_status = 200, hr_type = ty, hr_body = body, hr_end = None\<rparr>) = (Inr body, [])"
  using assms by (simp add: post_json_def parse_rpc_result_def result_of_def)

definition demo_error :: rpc_message where
  "demo_error = \<lparr>rp_id = VStr ''7'', rp_method = [], rp_params = [], rp_result = [],
     rp_error = Some \<lparr>re_code = -32601, re_message = ''no such tool''\<rparr>\<rparr>"

end
