(* ===== verification/McpClient.thy ===== *)
theory McpClient
  imports McpWire
begin

text \<open>
  The requests of \<open>internal/mcp/client.go\<close>. Each request makes a channel with room for one
  answer and enters it in the table \<open>pending\<close> under its id. The goroutines that touch the
  table interleave: a section under \<open>pendingMu\<close> is one step, and sending an answer, which
  \<open>dispatchRPCMessage\<close> does after it has let go of the lock, is another. A channel is a number,
  counted in the order the requests were made. A send that would block or panic is not left
  out: it sets \<open>pc_stuck\<close>, which no reachable state has.
\<close>

section \<open>The pending table\<close>

type_synonym rpc_response = "go_error + string"

record chan =
  ch_val :: "rpc_response option"
  ch_shut :: bool

definition new_chan :: chan where "new_chan = \<lparr>ch_val = None, ch_shut = False\<rparr>"

text \<open>How a call of \<open>request\<close> ended: from its channel, by the POST, or without an answer.\<close>

datatype request_end = Answer rpc_response | Direct string | Gone | Quit go_error

text \<open>
  \<open>pc_own\<close> is the local variable \<open>id\<close> of each request, \<open>pc_hand\<close> the answers taken from the
  table and not yet sent. \<open>pc_said\<close> and \<open>pc_failed\<close> record what the server answered and
  which failures of the connection were reported, for the specification below.
\<close>

record pclient =
  pc_ids :: int
  pc_pending :: "(string \<times> nat) list"
  pc_chan :: "chan list"
  pc_own :: "string list"
  pc_hand :: "(nat \<times> rpc_response) list"
  pc_closed :: bool
  pc_drained :: bool
  pc_read_err :: "go_error option"
  pc_done :: "(nat \<times> request_end) list"
  pc_stuck :: bool
  pc_said :: "(string \<times> rpc_response) list"
  pc_failed :: "go_error list"

definition new_pclient :: "int \<Rightarrow> pclient" where
  "new_pclient ids = \<lparr>pc_ids = ids, pc_pending = [], pc_chan = [], pc_own = [], pc_hand = [],
     pc_closed = False, pc_drained = False, pc_read_err = None, pc_done = [], pc_stuck = False,
     pc_said = [], pc_failed = []\<rparr>"

text \<open>\<open>nextID\<close> counts over all clients; its \<open>int64\<close> would take 2^63 requests to wrap.\<close>

definition begin_request :: "pclient \<Rightarrow> pclient" where
  "begin_request s =
     (let i = itoa (pc_ids s + 1)
      in s\<lparr>pc_ids := pc_ids s + 1, pc_pending := put i (length (pc_chan s)) (pc_pending s),
           pc_chan := pc_chan s @ [new_chan], pc_own := pc_own s @ [i]\<rparr>)"

definition send_to :: "nat \<Rightarrow> rpc_response \<Rightarrow> pclient \<Rightarrow> pclient" where
  "send_to k r s =
     (if pc_chan s ! k = new_chan
      then s\<lparr>pc_chan := (pc_chan s)[k := \<lparr>ch_val = Some r, ch_shut = True\<rparr>]\<rparr>
      else s\<lparr>pc_stuck := True\<rparr>)"

definition response_of :: "string \<Rightarrow> rpc_message \<Rightarrow> rpc_response" where
  "response_of name m =
     (case rp_error m of
        Some e \<Rightarrow> Inl (''mcp: server '' @ name @ '' '' @ rpc_error_text e)
      | None \<Rightarrow> Inr (rp_result m))"

definition dispatch_rpc ::
    "(string \<Rightarrow> go_error + rpc_message) \<Rightarrow> string \<Rightarrow> string \<Rightarrow> pclient \<Rightarrow> pclient \<times> note_list" where
  "dispatch_rpc dec name body s =
     (case dec body of
        Inl _ \<Rightarrow> (s, [])
      | Inr m \<Rightarrow>
          if rp_id m = VNil then (s, note_of m)
          else (case normalize_id (rp_id m) of
                  None \<Rightarrow> (s, [])
                | Some i \<Rightarrow>
                    (case map_of (pc_pending s) i of
                       None \<Rightarrow> (s, [])
                     | Some k \<Rightarrow>
                         (s\<lparr>pc_pending := del i (pc_pending s),
                            pc_hand := pc_hand s @ [(k, response_of name m)],
                            pc_said := pc_said s @ [(i, response_of name m)]\<rparr>, []))))"

text \<open>The send of the end of \<open>dispatchRPCMessage\<close>.\<close>

definition send_answer :: "nat \<times> rpc_response \<Rightarrow> pclient \<Rightarrow> pclient" where
  "send_answer kr s = send_to (fst kr) (snd kr) (s\<lparr>pc_hand := remove1 kr (pc_hand s)\<rparr>)"

definition answer_all :: "go_error \<Rightarrow> pclient \<Rightarrow> pclient" where
  "answer_all e s =
     (fold (\<lambda>(_, k). send_to k (Inl e)) (pc_pending s) s)\<lparr>pc_pending := []\<rparr>"

definition fail_pending :: "go_error \<Rightarrow> pclient \<Rightarrow> pclient" where
  "fail_pending e s = answer_all e (s\<lparr>pc_failed := pc_failed s @ [e],
     pc_read_err := (case pc_read_err s of None \<Rightarrow> Some e | Some e' \<Rightarrow> Some e')\<rparr>)"

definition closed_err :: go_error where "closed_err = ''mcp client closed''"

text \<open>\<open>Close\<close> closes \<open>closedCh\<close> first and empties the table later.\<close>

definition close_signal :: "pclient \<Rightarrow> pclient" where
  "close_signal s = s\<lparr>pc_closed := True\<rparr>"

definition close_drain :: "pclient \<Rightarrow> pclient" where
  "close_drain s = answer_all closed_err (s\<lparr>pc_drained := True, pc_failed := pc_failed s @ [closed_err]\<rparr>)"

definition forget :: "nat \<Rightarrow> pclient \<Rightarrow> pclient" where
  "forget k s = s\<lparr>pc_pending := del (pc_own s ! k) (pc_pending s)\<rparr>"

definition finish :: "nat \<Rightarrow> request_end \<Rightarrow> pclient \<Rightarrow> pclient" where
  "finish k out s = s\<lparr>pc_done := pc_done s @ [(k, out)]\<rparr>"

definition is_waiting :: "pclient \<Rightarrow> nat \<Rightarrow> bool" where
  "is_waiting s k \<longleftrightarrow> k < length (pc_chan s) \<and> k \<notin> fst ` set (pc_done s)"

text \<open>
  The rest of \<open>requestAsync\<close> once the message was written, of \<open>requestSSE\<close> once it was posted
  (both go on waiting when that is \<open>id\<close>), and the three ways out of \<open>awaitPending\<close>. Receiving
  from a channel that is closed and empty would give the zero answer, an empty result.
\<close>

definition after_write :: "nat \<Rightarrow> go_error option \<Rightarrow> pclient \<Rightarrow> pclient" where
  "after_write k r s = (case r of None \<Rightarrow> s | Some e \<Rightarrow> finish k (Quit e) (forget k s))"

definition after_post :: "nat \<Rightarrow> post_error + string \<Rightarrow> pclient \<Rightarrow> pclient" where
  "after_post k r s =
     (case r of
        Inr res \<Rightarrow> finish k (Direct res) (forget k s)
      | Inl NoAsyncResponse \<Rightarrow> s
      | Inl (PostFailed e) \<Rightarrow> finish k (Quit e) (forget k s))"

definition await_cancel :: "nat \<Rightarrow> go_error \<Rightarrow> pclient \<Rightarrow> pclient" where
  "await_cancel k e s = finish k (Quit e) (forget k s)"

definition await_closed :: "nat \<Rightarrow> pclient \<Rightarrow> pclient" where
  "await_closed k s = finish k Gone s"

definition await_receive :: "nat \<Rightarrow> pclient \<Rightarrow> pclient" where
  "await_receive k s =
     finish k (Answer (case ch_val (pc_chan s ! k) of Some r \<Rightarrow> r | None \<Rightarrow> Inr []))
       (s\<lparr>pc_chan := (pc_chan s)[k := (pc_chan s ! k)\<lparr>ch_val := None\<rparr>]\<rparr>)"

inductive client_step ::
    "(string \<Rightarrow> go_error + rpc_message) \<Rightarrow> string \<Rightarrow> pclient \<Rightarrow> pclient \<Rightarrow> bool"
  for dec name where
  ask: "client_step dec name s (begin_request s)"
| other_client: "client_step dec name s (s\<lparr>pc_ids := pc_ids s + 1\<rparr>)"
| dispatch: "client_step dec name s (fst (dispatch_rpc dec name body s))"
| send: "kr \<in> set (pc_hand s) \<Longrightarrow> client_step dec name s (send_answer kr s)"
| fail: "client_step dec name s (fail_pending e s)"
| signal: "\<not> pc_closed s \<Longrightarrow> client_step dec name s (close_signal s)"
| drain: "pc_closed s \<Longrightarrow> \<not> pc_drained s \<Longrightarrow> client_step dec name s (close_drain s)"
| written: "is_waiting s k \<Longrightarrow> client_step dec name s (after_write k r s)"
| posted: "is_waiting s k \<Longrightarrow> client_step dec name s (after_post k p s)"
| cancel: "is_waiting s k \<Longrightarrow> client_step dec name s (await_cancel k e s)"
| closed: "is_waiting s k \<Longrightarrow> pc_closed s \<Longrightarrow> client_step dec name s (await_closed k s)"
| receive: "is_waiting s k \<Longrightarrow> ch_val (pc_chan s ! k) \<noteq> None \<or> ch_shut (pc_chan s ! k) \<Longrightarrow>
     client_step dec name s (await_receive k s)"

inductive client_reach ::
    "(string \<Rightarrow> go_error + rpc_message) \<Rightarrow> string \<Rightarrow> int \<Rightarrow> pclient \<Rightarrow> bool"
  for dec name ids where
  init: "client_reach dec name ids (new_pclient ids)"
| step: "client_reach dec name ids s \<Longrightarrow> client_step dec name s t \<Longrightarrow> client_reach dec name ids t"

section \<open>The invariant of the table\<close>

definition legit :: "pclient \<Rightarrow> nat \<Rightarrow> rpc_response \<Rightarrow> bool" where
  "legit s k r \<longleftrightarrow> (pc_own s ! k, r) \<in> set (pc_said s) \<or> (\<exists>e \<in> set (pc_failed s). r = Inl e)"

definition id_upto :: "int \<Rightarrow> string \<Rightarrow> bool" where
  "id_upto n i \<longleftrightarrow> (\<exists>m \<le> n. i = itoa m)"

lemma id_upto_self [simp]: "id_upto n (itoa n)"
  by (auto simp: id_upto_def)

lemma id_upto_Suc: "id_upto n i \<Longrightarrow> id_upto (n + 1) i"
  by (auto simp: id_upto_def intro: exI [of _ "_ :: int"])

lemma not_id_upto: "\<not> id_upto n (itoa (n + 1))"
  by (auto simp: id_upto_def)

definition ids_ok :: "pclient \<Rightarrow> bool" where
  "ids_ok s \<longleftrightarrow> length (pc_own s) = length (pc_chan s) \<and> distinct (pc_own s)
     \<and> (\<forall>i \<in> set (pc_own s). id_upto (pc_ids s) i)"

definition table_ok :: "pclient \<Rightarrow> bool" where
  "table_ok s \<longleftrightarrow> distinct (keys (pc_pending s))
     \<and> (\<forall>i k. (i, k) \<in> set (pc_pending s) \<longrightarrow> k < length (pc_chan s) \<and> pc_own s ! k = i
          \<and> pc_chan s ! k = new_chan \<and> i \<notin> fst ` set (pc_said s))"

definition hand_ok :: "pclient \<Rightarrow> bool" where
  "hand_ok s \<longleftrightarrow> distinct (map fst (pc_hand s))
     \<and> (\<forall>k r. (k, r) \<in> set (pc_hand s) \<longrightarrow> k < length (pc_chan s) \<and> pc_chan s ! k = new_chan
          \<and> k \<notin> snd ` set (pc_pending s) \<and> legit s k r)"

definition chans_ok :: "pclient \<Rightarrow> bool" where
  "chans_ok s \<longleftrightarrow> (\<forall>k < length (pc_chan s).
     (\<forall>r. ch_val (pc_chan s ! k) = Some r \<longrightarrow> legit s k r)
     \<and> (is_waiting s k \<longrightarrow> k \<in> snd ` set (pc_pending s) \<or> k \<in> fst ` set (pc_hand s)
          \<or> ch_val (pc_chan s ! k) \<noteq> None))"

definition done_ok :: "pclient \<Rightarrow> bool" where
  "done_ok s \<longleftrightarrow> \<not> pc_stuck s \<and> distinct (map fst (pc_done s))
     \<and> (\<forall>k r. (k, r) \<in> set (pc_done s) \<longrightarrow> k < length (pc_chan s))
     \<and> (\<forall>k r. (k, Answer r) \<in> set (pc_done s) \<longrightarrow> legit s k r)
     \<and> set (map fst (pc_said s)) \<subseteq> set (pc_own s) \<and> distinct (map fst (pc_said s))"

definition pinv :: "pclient \<Rightarrow> bool" where
  "pinv s \<longleftrightarrow> ids_ok s \<and> table_ok s \<and> hand_ok s \<and> chans_ok s \<and> done_ok s"

lemmas pinv_parts = ids_ok_def table_ok_def hand_ok_def chans_ok_def done_ok_def

lemma pinv_new: "pinv (new_pclient ids)"
  by (simp add: pinv_def pinv_parts new_pclient_def)

lemma fresh_id: "ids_ok s \<Longrightarrow> itoa (pc_ids s + 1) \<notin> set (pc_own s)"
  using not_id_upto by (auto simp: ids_ok_def)

lemma table_inj:
  "table_ok s \<Longrightarrow> (i, k) \<in> set (pc_pending s) \<Longrightarrow> (j, k) \<in> set (pc_pending s) \<Longrightarrow> i = j"
  unfolding table_ok_def by metis

lemma table_distinct: "table_ok s \<Longrightarrow> distinct (map snd (pc_pending s))"
proof -
  assume a: "table_ok s"
  then have "distinct (pc_pending s)" by (auto simp: table_ok_def distinct_map)
  moreover have "inj_on snd (set (pc_pending s))" using table_inj [OF a] by (auto simp: inj_on_def)
  ultimately show ?thesis by (simp add: distinct_map)
qed

subsection \<open>Making a request\<close>

lemma put_new: "k \<notin> set (keys m) \<Longrightarrow> put k v m = m @ [(k, v)]"
  by (simp add: put_def)

lemma table_keys: "ids_ok s \<Longrightarrow> table_ok s \<Longrightarrow> i \<in> set (keys (pc_pending s)) \<Longrightarrow> i \<in> set (pc_own s)"
  unfolding table_ok_def ids_ok_def by (metis (no_types, lifting) imageE list.set_map nth_mem prod.collapse)

lemma begin_pending:
  assumes "ids_ok s" "table_ok s"
  shows "pc_pending (begin_request s) = pc_pending s @ [(itoa (pc_ids s + 1), length (pc_chan s))]"
proof -
  have "itoa (pc_ids s + 1) \<notin> set (keys (pc_pending s))"
    using fresh_id [OF assms(1)] table_keys [OF assms] by blast
  then show ?thesis by (simp add: begin_request_def Let_def put_new)
qed

lemma pinv_begin:
  assumes "pinv s"
  shows "pinv (begin_request s)"
proof -
  let ?i = "itoa (pc_ids s + 1)" and ?t = "begin_request s"
  from assms have I: "ids_ok s" "table_ok s" "hand_ok s" "chans_ok s" "done_ok s"
    by (simp_all add: pinv_def)
  have p: "pc_pending ?t = pc_pending s @ [(?i, length (pc_chan s))]"
    using I by (simp add: begin_pending)
  have f: "?i \<notin> set (pc_own s)" using I by (simp add: fresh_id)
  have other: "pc_ids ?t = pc_ids s + 1" "pc_chan ?t = pc_chan s @ [new_chan]"
    "pc_own ?t = pc_own s @ [?i]" "pc_hand ?t = pc_hand s" "pc_done ?t = pc_done s"
    "pc_said ?t = pc_said s" "pc_failed ?t = pc_failed s" "pc_stuck ?t = pc_stuck s"
    by (simp_all add: begin_request_def Let_def)
  have len: "length (pc_own s) = length (pc_chan s)" using I(1) by (simp add: ids_ok_def)
  have legit: "k < length (pc_chan s) \<Longrightarrow> legit ?t k r = legit s k r" for k r
    by (simp add: legit_def other nth_append len)
  have "ids_ok ?t" using I(1) f by (auto simp: ids_ok_def other id_upto_Suc)
  moreover have "table_ok ?t"
  proof -
    have "?i \<notin> set (keys (pc_pending s))" using f table_keys [OF I(1,2)] by blast
    moreover have "?i \<notin> fst ` set (pc_said s)" using f I(5) by (auto simp: done_ok_def)
    ultimately show ?thesis using I(2) by (auto simp: table_ok_def p other nth_append len less_Suc_eq)
  qed
  moreover have "hand_ok ?t"
    using I(3) by (auto simp: hand_ok_def p other nth_append legit less_Suc_eq)
  moreover have "chans_ok ?t"
    using I(4)
    by (auto simp: chans_ok_def p other nth_append legit is_waiting_def less_Suc_eq new_chan_def)
  moreover have "done_ok ?t"
    using I(5) by (auto simp: done_ok_def other less_Suc_eq legit)
  ultimately show ?thesis by (simp add: pinv_def)
qed

subsection \<open>Sending\<close>

lemma pinvI:
  "ids_ok s \<Longrightarrow> table_ok s \<Longrightarrow> hand_ok s \<Longrightarrow> chans_ok s \<Longrightarrow> done_ok s \<Longrightarrow> pinv s"
  by (simp add: pinv_def)

lemma pinvD:
  "pinv s \<Longrightarrow> ids_ok s" "pinv s \<Longrightarrow> table_ok s" "pinv s \<Longrightarrow> hand_ok s"
  "pinv s \<Longrightarrow> chans_ok s" "pinv s \<Longrightarrow> done_ok s"
  by (simp_all add: pinv_def)

lemma pinv_send:
  assumes I: "pinv s" and kr: "(k, r) \<in> set (pc_hand s)"
  shows "pinv (send_answer (k, r) s)"
proof -
  have k: "k < length (pc_chan s)" "pc_chan s ! k = new_chan" "k \<notin> snd ` set (pc_pending s)" "legit s k r"
    using pinvD(3) [OF I] kr by (auto simp: hand_ok_def)
  define t where "t = s\<lparr>pc_hand := remove1 (k, r) (pc_hand s),
    pc_chan := (pc_chan s)[k := \<lparr>ch_val = Some r, ch_shut = True\<rparr>]\<rparr>"
  have t: "send_answer (k, r) s = t" using k by (simp add: send_answer_def send_to_def t_def)
  have legit: "legit t j q = legit s j q" for j q by (simp add: legit_def t_def)
  have wait: "is_waiting t j = is_waiting s j" for j by (simp add: is_waiting_def t_def)
  have d: "distinct (map fst (pc_hand s))" using pinvD(3) [OF I] by (simp add: hand_ok_def)
  have hand: "(j, q) \<in> set (pc_hand t) \<longleftrightarrow> (j, q) \<in> set (pc_hand s) \<and> j \<noteq> k" for j q
    using d kr eq_key_imp_eq_value [OF d kr, of q] by (auto simp: t_def distinct_map)
  have fsts: "fst ` set (pc_hand t) = fst ` set (pc_hand s) - {k}"
    using hand kr by (auto simp: image_iff)
  have "distinct (map fst (pc_hand t))"
    using d by (auto simp: t_def distinct_map inj_on_def)
  then have "hand_ok t"
    using pinvD(3) [OF I] hand by (auto simp: hand_ok_def legit) (force simp: t_def)+
  moreover have "ids_ok t" using pinvD(1) [OF I] by (simp add: ids_ok_def t_def)
  moreover have "table_ok t"
    using pinvD(2) [OF I] k(3) by (force simp: table_ok_def t_def nth_list_update)
  moreover have "chans_ok t"
    using pinvD(4) [OF I] k fsts
    by (auto simp: chans_ok_def legit wait) (auto simp: t_def nth_list_update split: if_splits)
  moreover have "done_ok t"
    using pinvD(5) [OF I] by (simp add: done_ok_def legit) (simp add: t_def)
  ultimately show ?thesis by (simp add: t pinvI)
qed

text \<open>Answering everything in the table: each channel in it gets the error, the others keep theirs.\<close>

definition fill :: "go_error \<Rightarrow> (string \<times> nat) list \<Rightarrow> chan list \<Rightarrow> chan list" where
  "fill e ps cs = fold (\<lambda>(_, k) cs. cs[k := \<lparr>ch_val = Some (Inl e), ch_shut = True\<rparr>]) ps cs"

lemma length_fill [simp]: "length (fill e ps cs) = length cs"
  by (induction ps arbitrary: cs) (auto simp: fill_def)

lemma nth_fill:
  "j < length cs \<Longrightarrow> fill e ps cs ! j =
     (if j \<in> snd ` set ps then \<lparr>ch_val = Some (Inl e), ch_shut = True\<rparr> else cs ! j)"
  by (induction ps arbitrary: cs) (force simp: fill_def nth_list_update)+

lemma send_fold:
  "distinct (map snd ps) \<Longrightarrow> (\<forall>k \<in> snd ` set ps. pc_chan s ! k = new_chan) \<Longrightarrow>
     fold (\<lambda>(_, k). send_to k (Inl e)) ps s = s\<lparr>pc_chan := fill e ps (pc_chan s)\<rparr>"
proof (induction ps arbitrary: s)
  case (Cons p ps)
  obtain i k where p: "p = (i, k)" by (cases p)
  let ?s = "s\<lparr>pc_chan := (pc_chan s)[k := \<lparr>ch_val = Some (Inl e), ch_shut = True\<rparr>]\<rparr>"
  have "send_to k (Inl e) s = ?s" using Cons.prems p by (simp add: send_to_def)
  moreover have "\<forall>j \<in> snd ` set ps. pc_chan ?s ! j = new_chan"
    using Cons.prems p by (auto simp: nth_list_update_neq) (metis image_eqI nth_list_update_neq snd_conv)
  ultimately show ?case using Cons.IH [of ?s] Cons.prems p by (simp add: fill_def)
qed (simp add: fill_def)

lemma answer_all_eq:
  assumes "table_ok s"
  shows "answer_all e s = s\<lparr>pc_chan := fill e (pc_pending s) (pc_chan s), pc_pending := []\<rparr>"
proof -
  have "\<forall>k \<in> snd ` set (pc_pending s). pc_chan s ! k = new_chan"
    using assms by (auto simp: table_ok_def)
  with table_distinct [OF assms] show ?thesis by (simp add: answer_all_def send_fold)
qed

lemma pinv_answer_all:
  assumes I: "pinv s" and e: "e \<in> set (pc_failed s)"
  shows "pinv (answer_all e s)"
proof -
  define t where "t = s\<lparr>pc_chan := fill e (pc_pending s) (pc_chan s), pc_pending := []\<rparr>"
  have t: "answer_all e s = t" using pinvD(2) [OF I] by (simp add: answer_all_eq t_def)
  have legit: "legit t j q = legit s j q" for j q by (simp add: legit_def t_def)
  have le: "legit s j (Inl e)" for j using e by (simp add: legit_def)
  have wait: "is_waiting t j = is_waiting s j" for j by (simp add: is_waiting_def t_def)
  have "ids_ok t" using pinvD(1) [OF I] by (simp add: ids_ok_def t_def)
  moreover have "table_ok t" by (simp add: table_ok_def t_def)
  moreover have "hand_ok t"
    using pinvD(3) [OF I] by (simp add: hand_ok_def legit) (auto simp: t_def nth_fill)
  moreover have "chans_ok t"
    using pinvD(4) [OF I] le
    by (auto simp: chans_ok_def legit wait) (auto simp: t_def nth_fill split: if_splits)
  moreover have "done_ok t"
    using pinvD(5) [OF I] by (simp add: done_ok_def legit) (simp add: t_def)
  ultimately show ?thesis by (simp add: t pinvI)
qed

subsection \<open>Dispatching, failing, ending\<close>

lemma pinv_dispatch:
  assumes I: "pinv s"
  shows "pinv (fst (dispatch_rpc dec name body s))"
proof (cases "\<exists>m i k. dec body = Inr m \<and> rp_id m \<noteq> VNil \<and> normalize_id (rp_id m) = Some i
    \<and> map_of (pc_pending s) i = Some k")
  case False
  then have "fst (dispatch_rpc dec name body s) = s"
    by (auto simp: dispatch_rpc_def split: sum.splits option.splits)
  with I show ?thesis by simp
next
  case True
  then obtain m i k where m: "dec body = Inr m" "rp_id m \<noteq> VNil" "normalize_id (rp_id m) = Some i"
    and look: "map_of (pc_pending s) i = Some k" by blast
  define r where "r = response_of name m"
  define t where "t = s\<lparr>pc_pending := del i (pc_pending s), pc_hand := pc_hand s @ [(k, r)],
    pc_said := pc_said s @ [(i, r)]\<rparr>"
  have t: "fst (dispatch_rpc dec name body s) = t"
    using m look by (simp add: dispatch_rpc_def t_def r_def)
  have mem: "(i, k) \<in> set (pc_pending s)" using look by (rule map_of_SomeD)
  then have k: "k < length (pc_chan s)" "pc_own s ! k = i" "pc_chan s ! k = new_chan"
    "i \<notin> fst ` set (pc_said s)" using pinvD(2) [OF I] unfolding table_ok_def by blast+
  have pend: "(j, l) \<in> set (pc_pending t) \<longleftrightarrow> (j, l) \<in> set (pc_pending s) \<and> j \<noteq> i" for j l
    by (auto simp: t_def del_def)
  have knot: "k \<notin> snd ` set (pc_pending t)"
    using pend table_inj [OF pinvD(2) [OF I] mem] by auto
  have legit: "legit s j q \<Longrightarrow> legit t j q" for j q by (auto simp: legit_def t_def)
  have lk: "legit t k r" using k by (simp add: legit_def t_def)
  have wait: "is_waiting t j = is_waiting s j" for j by (simp add: is_waiting_def t_def)
  have same: "pc_chan t = pc_chan s" "pc_own t = pc_own s" "pc_done t = pc_done s"
    "pc_hand t = pc_hand s @ [(k, r)]" "pc_said t = pc_said s @ [(i, r)]"
    by (simp_all add: t_def)
  have fh: "fst ` set (pc_hand t) = insert k (fst ` set (pc_hand s))" by (simp add: same)
  have kh: "k \<notin> fst ` set (pc_hand s)"
    using pinvD(3) [OF I] mem by (force simp: hand_ok_def)
  have sub: "snd ` set (pc_pending t) \<subseteq> snd ` set (pc_pending s)" using pend by force
  have cover: "l = k \<or> l \<in> snd ` set (pc_pending t)" if "l \<in> snd ` set (pc_pending s)" for l
  proof -
    from that obtain j where j: "(j, l) \<in> set (pc_pending s)" by auto
    show ?thesis
    proof (cases "j = i")
      case True
      have "distinct (keys (pc_pending s))" using pinvD(2) [OF I] by (simp add: table_ok_def)
      from eq_key_imp_eq_value [OF this mem] j True show ?thesis by simp
    next
      case False
      with j pend have "(j, l) \<in> set (pc_pending t)" by blast
      then show ?thesis by (metis image_eqI snd_conv)
    qed
  qed
  have "ids_ok t" using pinvD(1) [OF I] by (simp add: ids_ok_def t_def)
  moreover have "table_ok t"
    using pinvD(2) [OF I, unfolded table_ok_def] distinct_del [of "pc_pending s" i]
    unfolding table_ok_def same pend by (auto simp: t_def)
  moreover have "hand_ok t"
    using pinvD(3) [OF I, unfolded hand_ok_def] k lk kh knot sub legit
    unfolding hand_ok_def same by (simp add: in_set_conv_decomp) blast
  moreover have "chans_ok t"
    using pinvD(4) [OF I, unfolded chans_ok_def] legit cover fh
    unfolding chans_ok_def wait same(1) by blast
  moreover have "done_ok t"
    using pinvD(5) [OF I] k legit pinvD(1) [OF I]
    by (simp add: done_ok_def same ids_ok_def) (auto simp: t_def nth_mem)
  ultimately show ?thesis by (simp add: t pinvI)
qed

text \<open>Reporting a failure, closing and the counter leave everything else as it is.\<close>

lemma pinv_report:
  assumes I: "pinv s"
  shows "pinv (s\<lparr>pc_failed := pc_failed s @ [e], pc_read_err := x\<rparr>)"
    and "pinv (s\<lparr>pc_drained := d, pc_failed := pc_failed s @ [e]\<rparr>)"
    and "pinv (s\<lparr>pc_closed := c\<rparr>)"
    and "pinv (s\<lparr>pc_ids := pc_ids s + 1\<rparr>)"
  using I
  by (auto simp: pinv_def pinv_parts legit_def is_waiting_def id_upto_Suc)

lemma pinv_fail: "pinv s \<Longrightarrow> pinv (fail_pending e s)"
  unfolding fail_pending_def by (rule pinv_answer_all) (auto intro: pinv_report)

lemma fail_pending_eq:
  assumes "pinv s"
  shows "fail_pending e s = s\<lparr>pc_failed := pc_failed s @ [e],
      pc_read_err := (case pc_read_err s of None \<Rightarrow> Some e | Some e' \<Rightarrow> Some e'),
      pc_chan := fill e (pc_pending s) (pc_chan s), pc_pending := []\<rparr>"
  unfolding fail_pending_def answer_all_eq [OF pinvD(2) [OF pinv_report(1) [OF assms]]] by simp

lemma pinv_drain: "pinv s \<Longrightarrow> pinv (close_drain s)"
  unfolding close_drain_def by (rule pinv_answer_all) (auto intro: pinv_report)

definition outcome_ok :: "pclient \<Rightarrow> nat \<Rightarrow> request_end \<Rightarrow> bool" where
  "outcome_ok s k out \<longleftrightarrow> (case out of Answer r \<Rightarrow> legit s k r | _ \<Rightarrow> True)"

lemma pinv_finish:
  assumes I: "pinv s" and k: "is_waiting s k" and out: "outcome_ok s k out"
  shows "pinv (finish k out s)"
proof -
  have legit: "legit (finish k out s) j q = legit s j q" for j q by (simp add: legit_def finish_def)
  have "ids_ok (finish k out s)" using pinvD(1) [OF I] by (simp add: ids_ok_def finish_def)
  moreover have "table_ok (finish k out s)" using pinvD(2) [OF I] by (simp add: table_ok_def finish_def)
  moreover have "hand_ok (finish k out s)"
    using pinvD(3) [OF I] by (simp add: hand_ok_def legit) (simp add: finish_def)
  moreover have "chans_ok (finish k out s)"
    using pinvD(4) [OF I] by (simp add: chans_ok_def legit) (simp add: finish_def is_waiting_def)
  moreover have "done_ok (finish k out s)"
    using pinvD(5) [OF I] k out
    by (simp add: done_ok_def legit)
      (auto simp: finish_def is_waiting_def outcome_ok_def split: request_end.splits)
  ultimately show ?thesis by (rule pinvI)
qed

lemma pinv_forget:
  assumes I: "pinv s" and k: "\<not> is_waiting s k" "k < length (pc_chan s)"
  shows "pinv (forget k s)"
proof -
  let ?t = "forget k s"
  have pend: "(j, l) \<in> set (pc_pending ?t) \<longleftrightarrow> (j, l) \<in> set (pc_pending s) \<and> j \<noteq> pc_own s ! k" for j l
    by (auto simp: forget_def del_def)
  have legit: "legit ?t j q = legit s j q" for j q by (simp add: legit_def forget_def)
  have wait: "is_waiting ?t j = is_waiting s j" for j by (simp add: is_waiting_def forget_def)
  have same: "pc_chan ?t = pc_chan s" "pc_own ?t = pc_own s" "pc_done ?t = pc_done s"
    "pc_hand ?t = pc_hand s" "pc_said ?t = pc_said s" "pc_stuck ?t = pc_stuck s" "pc_ids ?t = pc_ids s"
    by (simp_all add: forget_def)
  have sub: "snd ` set (pc_pending ?t) \<subseteq> snd ` set (pc_pending s)" using pend by force
  have cover: "l \<in> snd ` set (pc_pending ?t)"
    if l: "l \<in> snd ` set (pc_pending s)" "l \<noteq> k" for l
  proof -
    from l obtain j where j: "(j, l) \<in> set (pc_pending s)" by auto
    with pinvD(2) [OF I] have "pc_own s ! l = j" "l < length (pc_chan s)"
      unfolding table_ok_def by blast+
    with pinvD(1) [OF I] k l have "j \<noteq> pc_own s ! k" by (auto simp: ids_ok_def nth_eq_iff_index_eq)
    with j pend have "(j, l) \<in> set (pc_pending ?t)" by blast
    then show ?thesis by (metis image_eqI snd_conv)
  qed
  have "ids_ok ?t" using pinvD(1) [OF I] by (simp add: ids_ok_def same)
  moreover have "table_ok ?t"
    using pinvD(2) [OF I, unfolded table_ok_def] distinct_del [of "pc_pending s" "pc_own s ! k"]
    unfolding table_ok_def same pend by (auto simp: forget_def)
  moreover have "hand_ok ?t"
    using pinvD(3) [OF I] sub by (auto simp: hand_ok_def same legit)
  moreover have "chans_ok ?t"
    using pinvD(4) [OF I, unfolded chans_ok_def] cover k(1)
    unfolding chans_ok_def wait legit same by metis
  moreover have "done_ok ?t" using pinvD(5) [OF I] by (simp add: done_ok_def same legit)
  ultimately show ?thesis by (rule pinvI)
qed

lemma pinv_finish_forget:
  assumes "pinv s" "is_waiting s k" "outcome_ok s k out"
  shows "pinv (finish k out (forget k s))"
proof -
  have "finish k out (forget k s) = forget k (finish k out s)"
    by (simp add: finish_def forget_def)
  moreover have "\<not> is_waiting (finish k out s) k" "k < length (pc_chan (finish k out s))"
    using assms(2) by (auto simp: is_waiting_def finish_def)
  ultimately show ?thesis using pinv_forget pinv_finish [OF assms] by metis
qed

lemma waiting_channel:
  assumes I: "pinv s" and k: "is_waiting s k" and v: "ch_val (pc_chan s ! k) \<noteq> None \<or> ch_shut (pc_chan s ! k)"
  shows "\<exists>r. ch_val (pc_chan s ! k) = Some r \<and> legit s k r"
proof -
  have n: "pc_chan s ! k \<noteq> new_chan" using v by (auto simp: new_chan_def)
  have "k \<notin> snd ` set (pc_pending s)" "k \<notin> fst ` set (pc_hand s)"
    using n pinvD(2) [OF I] pinvD(3) [OF I] by (auto simp: table_ok_def hand_ok_def)
  with pinvD(4) [OF I] k show ?thesis by (auto simp: chans_ok_def is_waiting_def)
qed

lemma pinv_receive:
  assumes I: "pinv s" and k: "is_waiting s k" and v: "ch_val (pc_chan s ! k) \<noteq> None \<or> ch_shut (pc_chan s ! k)"
  shows "pinv (await_receive k s)"
proof -
  obtain r where r: "ch_val (pc_chan s ! k) = Some r" "legit s k r" using waiting_channel [OF I k v] by blast
  have n: "pc_chan s ! k \<noteq> new_chan" using v by (auto simp: new_chan_def)
  define u where "u = finish k (Answer r) s"
  have U: "pinv u" unfolding u_def using I k r by (intro pinv_finish) (simp_all add: outcome_ok_def)
  have nk: "\<not> is_waiting u k" "pc_chan u = pc_chan s" by (simp_all add: u_def is_waiting_def finish_def)
  define t where "t = u\<lparr>pc_chan := (pc_chan u)[k := (pc_chan u ! k)\<lparr>ch_val := None\<rparr>]\<rparr>"
  have t: "await_receive k s = t" using r by (simp add: await_receive_def t_def u_def finish_def)
  have legit: "legit t j q = legit u j q" for j q by (simp add: legit_def t_def)
  have wait: "is_waiting t j = is_waiting u j" for j by (simp add: is_waiting_def t_def)
  have other: "pc_chan u ! j = new_chan \<Longrightarrow> pc_chan t ! j = new_chan" for j
    using n nk by (cases "j = k") (auto simp: t_def)
  have val: "j < length (pc_chan u) \<Longrightarrow> ch_val (pc_chan t ! j) = Some q \<Longrightarrow> ch_val (pc_chan u ! j) = Some q"
    "j \<noteq> k \<Longrightarrow> pc_chan t ! j = pc_chan u ! j" for j q
    by (cases "j = k"; simp add: t_def)+
  have len: "length (pc_chan t) = length (pc_chan u)" by (simp add: t_def)
  have same: "pc_pending t = pc_pending u" "pc_own t = pc_own u" "pc_done t = pc_done u"
    "pc_hand t = pc_hand u" "pc_said t = pc_said u" "pc_stuck t = pc_stuck u" "pc_ids t = pc_ids u"
    by (simp_all add: t_def)
  have "ids_ok t" using pinvD(1) [OF U] by (simp add: ids_ok_def same len)
  moreover have "table_ok t"
    using pinvD(2) [OF U] other by (simp add: table_ok_def same len)
  moreover have "hand_ok t"
    using pinvD(3) [OF U] other by (simp add: hand_ok_def same len legit)
  moreover have "chans_ok t"
    using pinvD(4) [OF U, unfolded chans_ok_def] nk(1) val
    unfolding chans_ok_def legit wait same len by metis
  moreover have "done_ok t"
    using pinvD(5) [OF U] by (simp add: done_ok_def legit same len)
  ultimately show ?thesis by (simp add: t pinvI)
qed

lemma pinv_step: "client_step dec name s t \<Longrightarrow> pinv s \<Longrightarrow> pinv t"
proof (induction rule: client_step.induct)
  case (send kr s)
  then show ?case using pinv_send by (metis prod.collapse)
next
  case (signal s)
  then show ?case by (simp add: close_signal_def pinv_report)
next
  case (written s k r)
  then show ?case by (cases r) (simp_all add: after_write_def pinv_finish_forget outcome_ok_def)
next
  case (posted s k p)
  then show ?case
    by (auto simp: after_post_def outcome_ok_def intro!: pinv_finish_forget
      split: sum.splits post_error.splits)
next
  case (cancel s k e)
  then show ?case by (simp add: await_cancel_def pinv_finish_forget outcome_ok_def)
next
  case (closed s k)
  then show ?case by (simp add: await_closed_def pinv_finish outcome_ok_def)
qed (auto intro: pinv_begin pinv_report pinv_dispatch pinv_fail pinv_drain pinv_receive)

lemma reach_pinv: "client_reach dec name ids s \<Longrightarrow> pinv s"
  by (induction rule: client_reach.induct) (auto intro: pinv_new pinv_step)

section \<open>What a caller can rely on\<close>


definition demo_answer :: rpc_message where
  "demo_answer = \<lparr>rp_id = VStr ''1'', rp_method = [], rp_params = [], rp_result = ''{ok}'', rp_error = None\<rparr>"

definition demo_client :: pclient where
  "demo_client =
     await_receive 0 (send_answer (0, Inr ''{ok}'')
       (fst (dispatch_rpc (\<lambda>_. Inr demo_answer) ''a'' ''{}'' (begin_request (new_pclient 0)))))"

lemma demo_reach: "client_reach (\<lambda>_. Inr demo_answer) ''a'' 0 demo_client"
  unfolding demo_client_def
proof (intro client_reach.step [OF _ client_step.receive] client_reach.step [OF _ client_step.send]
    client_reach.step [OF _ client_step.dispatch] client_reach.step [OF _ client_step.ask]
    client_reach.init)
qed code_simp+




text \<open>
  The error of a broken connection is kept in \<open>readErr\<close> and never read: a request made after it
  is entered in the table as before, with an empty channel and nobody left to answer it.
\<close>

lemma late_request_unanswered:
  assumes "client_reach dec name ids s"
  shows "is_waiting (begin_request (fail_pending e s)) (length (pc_chan s))
    \<and> pc_pending (begin_request (fail_pending e s)) = [(itoa (pc_ids s + 1), length (pc_chan s))]
    \<and> pc_chan (begin_request (fail_pending e s)) ! length (pc_chan s) = new_chan"
proof -
  have I: "pinv s" using assms by (rule reach_pinv)
  note eq = fail_pending_eq [OF I, of e]
  have "length (pc_chan s) \<notin> fst ` set (pc_done s)"
    using pinvD(5) [OF I] by (force simp: done_ok_def)
  then show ?thesis by (simp add: eq begin_request_def Let_def put_def is_waiting_def nth_append)
qed

end
