(* ===== verification/McpSpec.thy ===== *)
theory McpSpec
  imports McpClient
begin

text \<open>
  What the requests of an MCP client promise, without table, channels or goroutines: each
  request has an id of its own and ends once; the server answers an id at most once, and only
  one that was asked. The table of \<open>McpClient\<close> refines this: each of its steps is a step here
  or none.
\<close>

section \<open>The specification\<close>

record spec =
  sp_own :: "string list"
  sp_out :: "request_end option list"
  sp_said :: "(string \<times> rpc_response) list"
  sp_failed :: "go_error list"
  sp_closed :: bool

definition may_end :: "spec \<Rightarrow> nat \<Rightarrow> request_end \<Rightarrow> bool" where
  "may_end a k out =
     (case out of
        Answer r \<Rightarrow> (sp_own a ! k, r) \<in> set (sp_said a) \<or> (\<exists>e \<in> set (sp_failed a). r = Inl e)
      | Gone \<Rightarrow> sp_closed a
      | _ \<Rightarrow> True)"

inductive spec_step :: "spec \<Rightarrow> spec \<Rightarrow> bool" where
  asked: "i \<notin> set (sp_own a) \<Longrightarrow> spec_step a (a\<lparr>sp_own := sp_own a @ [i], sp_out := sp_out a @ [None]\<rparr>)"
| answered: "i \<in> set (sp_own a) \<Longrightarrow> i \<notin> fst ` set (sp_said a) \<Longrightarrow>
     spec_step a (a\<lparr>sp_said := sp_said a @ [(i, r)]\<rparr>)"
| failed: "spec_step a (a\<lparr>sp_failed := sp_failed a @ [e]\<rparr>)"
| shut: "spec_step a (a\<lparr>sp_closed := True\<rparr>)"
| ended: "k < length (sp_out a) \<Longrightarrow> sp_out a ! k = None \<Longrightarrow> may_end a k out \<Longrightarrow>
     spec_step a (a\<lparr>sp_out := (sp_out a)[k := Some out]\<rparr>)"

inductive_cases spec_stepE: "spec_step a b"

definition spec_init :: spec where
  "spec_init = \<lparr>sp_own = [], sp_out = [], sp_said = [], sp_failed = [], sp_closed = False\<rparr>"

inductive spec_reach :: "spec \<Rightarrow> bool" where
  start: "spec_reach spec_init"
| next_step: "spec_reach a \<Longrightarrow> spec_step a b \<Longrightarrow> spec_reach b"

text \<open>An ended request keeps its outcome.\<close>

lemma spec_outcome_kept:
  "spec_step a b \<Longrightarrow> k < length (sp_out a) \<Longrightarrow> sp_out a ! k = Some out \<Longrightarrow> sp_out b ! k = Some out"
  by (auto elim!: spec_stepE simp: nth_append nth_list_update)

section \<open>The refinement\<close>

definition abs_client :: "pclient \<Rightarrow> spec" where
  "abs_client s = \<lparr>sp_own = pc_own s, sp_out = map (map_of (pc_done s)) [0..<length (pc_chan s)],
     sp_said = pc_said s, sp_failed = pc_failed s, sp_closed = pc_closed s\<rparr>"

definition spec_moves :: "pclient \<Rightarrow> pclient \<Rightarrow> bool" where
  "spec_moves s t \<longleftrightarrow> abs_client t = abs_client s \<or> spec_step (abs_client s) (abs_client t)"

lemma abs_same:
  "pc_own t = pc_own s \<Longrightarrow> pc_done t = pc_done s \<Longrightarrow> length (pc_chan t) = length (pc_chan s) \<Longrightarrow>
     pc_said t = pc_said s \<Longrightarrow> pc_failed t = pc_failed s \<Longrightarrow> pc_closed t = pc_closed s \<Longrightarrow>
     abs_client t = abs_client s"
  by (simp add: abs_client_def)

lemma map_of_new: "k \<notin> fst ` set m \<Longrightarrow> map_of (m @ [(k, v)]) = (map_of m)(k \<mapsto> v)"
  by (auto simp: fun_eq_iff map_add_def map_of_eq_None_iff [symmetric] split: option.splits)

lemma moves_ask:
  assumes I: "pinv s"
  shows "spec_moves s (begin_request s)"
proof -
  have new: "length (pc_chan s) \<notin> fst ` set (pc_done s)"
    using pinvD(5) [OF I] by (force simp: done_ok_def)
  then have "map_of (pc_done s) (length (pc_chan s)) = None" by (simp add: map_of_eq_None_iff)
  then have "abs_client (begin_request s) = (abs_client s)
      \<lparr>sp_own := sp_own (abs_client s) @ [itoa (pc_ids s + 1)], sp_out := sp_out (abs_client s) @ [None]\<rparr>"
    by (simp add: abs_client_def begin_request_def Let_def)
  moreover have "itoa (pc_ids s + 1) \<notin> set (sp_own (abs_client s))"
    using pinvD(1) [OF I] by (simp add: abs_client_def fresh_id)
  ultimately show ?thesis using spec_step.asked by (simp add: spec_moves_def)
qed

lemma moves_dispatch:
  assumes I: "pinv s"
  shows "spec_moves s (fst (dispatch_rpc dec name body s))"
proof (cases "\<exists>m i k. dec body = Inr m \<and> rp_id m \<noteq> VNil \<and> normalize_id (rp_id m) = Some i
    \<and> map_of (pc_pending s) i = Some k")
  case False
  then have "fst (dispatch_rpc dec name body s) = s"
    by (auto simp: dispatch_rpc_def split: sum.splits option.splits)
  then show ?thesis by (simp add: spec_moves_def)
next
  case True
  then obtain m i k where m: "dec body = Inr m" "rp_id m \<noteq> VNil" "normalize_id (rp_id m) = Some i"
    and look: "map_of (pc_pending s) i = Some k" by blast
  from look have mem: "(i, k) \<in> set (pc_pending s)" by (rule map_of_SomeD)
  then have "i \<in> set (sp_own (abs_client s))"
    using table_keys [OF pinvD(1) [OF I] pinvD(2) [OF I]] by (force simp: abs_client_def)
  moreover have "i \<notin> fst ` set (sp_said (abs_client s))"
    using mem pinvD(2) [OF I] by (simp add: table_ok_def abs_client_def)
  moreover have "abs_client (fst (dispatch_rpc dec name body s)) = (abs_client s)
      \<lparr>sp_said := sp_said (abs_client s) @ [(i, response_of name m)]\<rparr>"
    using m look by (simp add: dispatch_rpc_def abs_client_def)
  ultimately show ?thesis using spec_step.answered by (simp add: spec_moves_def)
qed

lemma moves_finish:
  assumes k: "is_waiting s k" and out: "may_end (abs_client s) k out"
  shows "spec_moves s (finish k out s)"
proof -
  have n: "map_of (pc_done s) k = None" "k \<notin> fst ` set (pc_done s)" "k < length (pc_chan s)"
    using k by (auto simp: is_waiting_def map_of_eq_None_iff)
  have "map ((map_of (pc_done s))(k \<mapsto> out)) [0..<length (pc_chan s)]
      = (map (map_of (pc_done s)) [0..<length (pc_chan s)])[k := Some out]"
    by (rule nth_equalityI) (auto simp: nth_list_update)
  then have "abs_client (finish k out s)
      = (abs_client s)\<lparr>sp_out := (sp_out (abs_client s))[k := Some out]\<rparr>"
    by (simp add: abs_client_def finish_def map_of_new [OF n(2)] del: map_of_append)
  then show ?thesis
    using n out spec_step.ended [of k "abs_client s" out]
    by (simp add: spec_moves_def abs_client_def)
qed

lemma abs_forget [simp]: "abs_client (finish k out (forget k s)) = abs_client (finish k out s)"
  by (simp add: abs_client_def finish_def forget_def)

lemma moves_finish_forget:
  "is_waiting s k \<Longrightarrow> may_end (abs_client s) k out \<Longrightarrow> spec_moves s (finish k out (forget k s))"
  using moves_finish [of s k out] by (simp add: spec_moves_def)

lemma moves_receive:
  assumes I: "pinv s" and k: "is_waiting s k" and v: "ch_val (pc_chan s ! k) \<noteq> None \<or> ch_shut (pc_chan s ! k)"
  shows "spec_moves s (await_receive k s)"
proof -
  obtain r where r: "ch_val (pc_chan s ! k) = Some r" "legit s k r" using waiting_channel [OF I k v] by blast
  have "abs_client (await_receive k s) = abs_client (finish k (Answer r) s)"
    using r by (simp add: abs_client_def await_receive_def finish_def)
  moreover have "may_end (abs_client s) k (Answer r)"
    using r by (simp add: may_end_def abs_client_def legit_def)
  ultimately show ?thesis using moves_finish [OF k, of "Answer r"] by (simp add: spec_moves_def)
qed

lemma moves_fail:
  assumes "pinv s"
  shows "spec_moves s (fail_pending e s)"
proof -
  have "abs_client (fail_pending e s)
      = (abs_client s)\<lparr>sp_failed := sp_failed (abs_client s) @ [e]\<rparr>"
    by (simp add: fail_pending_eq [OF assms] abs_client_def)
  then show ?thesis using spec_step.failed by (simp add: spec_moves_def)
qed

lemma moves_drain:
  assumes "pinv s"
  shows "spec_moves s (close_drain s)"
proof -
  have "abs_client (close_drain s)
      = (abs_client s)\<lparr>sp_failed := sp_failed (abs_client s) @ [closed_err]\<rparr>"
    unfolding close_drain_def answer_all_eq [OF pinvD(2) [OF pinv_report(2) [OF assms]]]
    by (simp add: abs_client_def)
  then show ?thesis using spec_step.failed by (simp add: spec_moves_def)
qed

lemma step_refines: "client_step dec name s t \<Longrightarrow> pinv s \<Longrightarrow> spec_moves s t"
proof (induction rule: client_step.induct)
  case (other_client s)
  show ?case by (simp add: spec_moves_def abs_client_def)
next
  case (send kr s)
  then show ?case
    by (simp add: spec_moves_def) (rule disjI1, rule abs_same; simp add: send_answer_def send_to_def)
next
  case (signal s)
  have "abs_client (close_signal s) = (abs_client s)\<lparr>sp_closed := True\<rparr>"
    by (simp add: abs_client_def close_signal_def)
  then show ?case using spec_step.shut by (simp add: spec_moves_def)
next
  case (written s k r)
  then show ?case
    by (cases r) (simp_all add: after_write_def moves_finish_forget may_end_def, simp add: spec_moves_def)
next
  case (posted s k p)
  then show ?case
    by (cases p; cases "projl p")
      (auto simp: after_post_def may_end_def spec_moves_def [of s s] intro!: moves_finish_forget)
next
  case (cancel s k e)
  then show ?case by (simp add: await_cancel_def moves_finish_forget may_end_def)
next
  case (closed s k)
  then show ?case
    by (simp add: await_closed_def) (rule moves_finish, auto simp: may_end_def abs_client_def)
qed (auto intro: moves_ask moves_dispatch moves_fail moves_drain moves_receive)



end
