(* ===== verification/McpCalls.thy ===== *)
theory McpCalls
  imports McpWire
begin

text \<open>
  What \<open>internal/mcp/client.go\<close> builds on a request: starting a client, listing a server's tools
  over the pages it gives, calling a tool, and passing notifications on. \<open>request\<close> itself is an
  argument, given a method and its parameters; so is what the operating system and the network
  answer when a client starts, and the decoding of JSON.
\<close>

section \<open>Starting a client\<close>

record client_conf =
  cc_name :: string
  cc_transport :: transport
  cc_framing :: framing
  cc_timeout :: int
  cc_headers :: "(string \<times> string) list"
  cc_url :: string
  cc_sse_url :: string
  cc_message_url :: string

text \<open>
  The world a client starts in: running a process, opening the event stream (the status and the
  body of the reply), and waiting for the endpoint event, eight seconds at most.
\<close>

record 'w net =
  nt_spawn :: "string \<Rightarrow> string list \<Rightarrow> string \<Rightarrow> string list \<Rightarrow> 'w \<Rightarrow> go_error option \<times> 'w"
  nt_environ :: "string list"
  nt_open :: "string \<Rightarrow> (string \<times> string) list \<Rightarrow> 'w \<Rightarrow> (go_error + int \<times> string) \<times> 'w"
  nt_endpoint :: "'w \<Rightarrow> (go_error + string) \<times> 'w"
  nt_resolve :: "string \<Rightarrow> string \<Rightarrow> string"
  nt_close :: "'w \<Rightarrow> 'w"

definition client_error :: "string \<Rightarrow> string \<Rightarrow> string" where
  "client_error name e = ''mcp: server '' @ name @ '' '' @ e"

definition start_stdio ::
    "'w net \<Rightarrow> string \<Rightarrow> server_config \<Rightarrow> client_conf \<Rightarrow> 'w \<Rightarrow> (go_error + client_conf) \<times> 'w" where
  "start_stdio n base cfg c w =
     (let cmd = trim_space (sv_command cfg)
      in if cmd = [] then (Inl (client_error (cc_name c) ''command is empty''), w)
         else (case nt_spawn n cmd (sv_args cfg) (resolve_dir base (sv_cwd cfg))
                     (merge_env (nt_environ n) (sv_env cfg)) w of
                 (Some e, w') \<Rightarrow> (Inl (client_error (cc_name c) (''start: '' @ e)), w')
               | (None, w') \<Rightarrow> (Inr c, w')))"

definition start_sse ::
    "'w net \<Rightarrow> server_config \<Rightarrow> client_conf \<Rightarrow> 'w \<Rightarrow> (go_error + client_conf) \<times> 'w" where
  "start_sse n cfg c0 w =
     (let c = c0\<lparr>cc_sse_url := trim_space (sv_url cfg),
           cc_message_url := (if trim_space (sv_message_url cfg) = [] then cc_message_url c0
             else nt_resolve n (trim_space (sv_url cfg)) (trim_space (sv_message_url cfg)))\<rparr>
      in if cc_sse_url c = [] then (Inl (client_error (cc_name c) ''sse url is empty''), w)
         else (case nt_open n (cc_sse_url c) (cc_headers c) w of
                 (Inl e, w') \<Rightarrow> (Inl (client_error (cc_name c) (''sse connect: '' @ e)), w')
               | (Inr (status, body), w') \<Rightarrow>
                   if status < 200 \<or> status \<ge> 300
                   then (Inl (client_error (cc_name c)
                           (''sse status '' @ itoa status @ '': '' @ trim_space body)), w')
                   else if cc_message_url c \<noteq> [] then (Inr c, w')
                   else (case nt_endpoint n w' of
                           (Inl e, w'') \<Rightarrow> (Inl e, w'')
                         | (Inr endpoint, w'') \<Rightarrow> (Inr (c\<lparr>cc_message_url := endpoint\<rparr>), w''))))"

definition init_params :: goany where
  "init_params = VMap [(''protocolVersion'', VStr ''2024-11-05''), (''capabilities'', VMap []),
     (''clientInfo'', VMap [(''name'', VStr ''nisix''), (''version'', VStr ''0.1.0'')])]"

text \<open>\<open>initialize\<close>, given \<open>request\<close> and \<open>notify\<close>.\<close>

definition initialize ::
    "(string \<Rightarrow> goany \<Rightarrow> 'w \<Rightarrow> (go_error + string) \<times> 'w) \<Rightarrow> (string \<Rightarrow> goany \<Rightarrow> 'w \<Rightarrow> go_error option \<times> 'w)
      \<Rightarrow> string \<Rightarrow> 'w \<Rightarrow> go_error option \<times> 'w" where
  "initialize request notify name w =
     (case request ''initialize'' init_params w of
        (Inl e, w') \<Rightarrow> (Some e, w')
      | (Inr res, w') \<Rightarrow>
          if res = [] then (Some (client_error name ''initialize returned empty result''), w')
          else notify ''notifications/initialized'' (VMap []) w')"

text \<open>The timeout is \<open>time.Duration(sec) * time.Second\<close>, in 64 bits; none applies when it is not positive.\<close>

definition new_client :: "string \<Rightarrow> transport \<Rightarrow> server_config \<Rightarrow> client_conf" where
  "new_client name kind cfg =
     \<lparr>cc_name = name, cc_transport = kind, cc_framing = resolve_framing cfg,
      cc_timeout = wrap64 ((if sv_timeout cfg \<le> 0 then 60 else sv_timeout cfg) * second_ns),
      cc_headers = sv_headers cfg, cc_url = [], cc_sse_url = [], cc_message_url = []\<rparr>"

definition start_client where
  "start_client n request notify name base cfg w =
     (case resolve_transport cfg of
        Inl e \<Rightarrow> (Inl (''mcp: server '' @ name @ '': '' @ e), w)
      | Inr kind \<Rightarrow>
          (let c = new_client name kind cfg
           in case (case kind of
                      Stdio \<Rightarrow> start_stdio n base cfg c w
                    | Sse \<Rightarrow> apsnd (if is_ok (fst (start_sse n cfg c w)) then id else nt_close n) (start_sse n cfg c w)
                    | StreamableHttp \<Rightarrow>
                        (if trim_space (sv_url cfg) = []
                         then Inl (client_error name ''streamable_http url is empty'')
                         else Inr (c\<lparr>cc_url := trim_space (sv_url cfg)\<rparr>), w)) of
                (Inl e, w1) \<Rightarrow> (Inl e, w1)
              | (Inr c1, w1) \<Rightarrow>
                  (case initialize (request c1) (notify c1) name w1 of
                     (Some e, w2) \<Rightarrow> (Inl e, nt_close n w2)
                   | (None, w2) \<Rightarrow> (Inr c1, w2))))"

section \<open>Listing tools\<close>

record tools_page =
  tp_tools :: "remote_tool list"
  tp_next :: string

definition page_params :: "string \<Rightarrow> goany" where
  "page_params cursor = VMap (if cursor = [] then [] else [(''cursor'', VStr cursor)])"

definition get_page ::
    "(string \<Rightarrow> goany \<Rightarrow> 'w \<Rightarrow> (go_error + string) \<times> 'w) \<Rightarrow> (string \<Rightarrow> go_error + tools_page)
      \<Rightarrow> string \<Rightarrow> string \<Rightarrow> 'w \<Rightarrow> (go_error + tools_page) \<times> 'w" where
  "get_page request dec name cursor w =
     (case request ''tools/list'' (page_params cursor) w of
        (Inl e, w') \<Rightarrow> (Inl e, w')
      | (Inr res, w') \<Rightarrow>
          (case dec res of
             Inl e \<Rightarrow> (Inl (client_error name (''tools/list decode: '' @ e)), w')
           | Inr p \<Rightarrow> (Inr p, w')))"

text \<open>
  The loop of \<open>ListTools\<close> ends with a page that names no next cursor; nothing bounds the number
  of pages, so a server can keep it going for ever, which is the value \<open>None\<close>.
\<close>

partial_function (option) list_pages ::
    "(string \<Rightarrow> 'w \<Rightarrow> (go_error + tools_page) \<times> 'w) \<Rightarrow> string \<Rightarrow> remote_tool list \<Rightarrow> 'w
      \<Rightarrow> ((go_error + remote_tool list) \<times> 'w) option" where
  "list_pages page cursor out w =
     (case page cursor w of
        (Inl e, w') \<Rightarrow> Some (Inl e, w')
      | (Inr p, w') \<Rightarrow>
          if trim_space (tp_next p) = [] then Some (Inr (out @ tp_tools p), w')
          else list_pages page (trim_space (tp_next p)) (out @ tp_tools p) w')"

definition list_tools where
  "list_tools request dec name w = list_pages (get_page request dec name) [] [] w"

text \<open>The pages a server gives, one after the other, and the state after them.\<close>

fun pages_from ::
    "(string \<Rightarrow> 'w \<Rightarrow> (go_error + tools_page) \<times> 'w) \<Rightarrow> nat \<Rightarrow> string \<Rightarrow> 'w
      \<Rightarrow> (remote_tool list \<times> 'w) option" where
  "pages_from page 0 cursor w = None"
| "pages_from page (Suc n) cursor w =
     (case page cursor w of
        (Inl e, w') \<Rightarrow> None
      | (Inr p, w') \<Rightarrow>
          if trim_space (tp_next p) = [] then Some (tp_tools p, w')
          else map_option (apfst ((@) (tp_tools p))) (pages_from page n (trim_space (tp_next p)) w'))"

lemma list_pages_ends:
  "pages_from page n cursor w = Some (ts, w') \<Longrightarrow> list_pages page cursor out w = Some (Inr (out @ ts), w')"
proof (induction page n cursor w arbitrary: out ts rule: pages_from.induct)
  case (2 page n cursor w)
  then show ?case
    by (subst list_pages.simps) (auto split: prod.splits sum.splits if_splits)
qed simp

definition endless :: "(string \<Rightarrow> 'w \<Rightarrow> (go_error + tools_page) \<times> 'w) \<Rightarrow> bool" where
  "endless page \<longleftrightarrow> (\<forall>c w. \<exists>p w'. page c w = (Inr p, w') \<and> trim_space (tp_next p) \<noteq> [])"

lemma list_pages_result:
  assumes "list_pages page cursor out w = Some y"
  shows "\<not> endless page"
proof (rule list_pages.raw_induct [where P = "\<lambda>page c ts u z. \<not> endless page", OF _ assms])
  fix loop page cursor out w y
  assume IH: "\<And>page c ts u z. loop page c ts u = Some z \<Longrightarrow> \<not> endless page"
    and eq: "(case page cursor w of
        (Inl e, w') \<Rightarrow> Some (Inl e, w')
      | (Inr p, w') \<Rightarrow>
          if trim_space (tp_next p) = [] then Some (Inr (out @ tp_tools p), w')
          else loop page (trim_space (tp_next p)) (out @ tp_tools p) w') = Some y"
  show "\<not> endless page"
  proof
    assume e: "endless page"
    then obtain p w' where "page cursor w = (Inr p, w')" "trim_space (tp_next p) \<noteq> []"
      unfolding endless_def by blast
    with eq IH e show False by auto
  qed
qed

lemma list_pages_endless: "endless page \<Longrightarrow> list_pages page cursor out w = None"
  using list_pages_result [of page cursor out w] by (cases "list_pages page cursor out w") blast+


definition two_pages :: "string \<Rightarrow> goany \<Rightarrow> unit \<Rightarrow> (go_error + string) \<times> unit" where
  "two_pages meth params w =
     (Inr (if params = VMap [(''cursor'', VStr ''p2'')] then ''second'' else ''first''), w)"

definition demo_tool :: "string \<Rightarrow> remote_tool" where
  "demo_tool n = \<lparr>rm_name = n, rm_desc = [], rm_schema = None\<rparr>"

definition demo_pages :: "string \<Rightarrow> go_error + tools_page" where
  "demo_pages res = Inr (if res = ''first'' then \<lparr>tp_tools = [demo_tool ''a''], tp_next = '' p2''\<rparr>
     else \<lparr>tp_tools = [demo_tool ''b''], tp_next = []\<rparr>)"


section \<open>Calling a tool\<close>

definition item_text :: "goany \<Rightarrow> string option" where
  "item_text item =
     (case item of
        VMap entry \<Rightarrow>
          (case map_of entry ''text'' of
             Some (VStr t) \<Rightarrow> if trim_space t \<noteq> [] then Some t else None
           | _ \<Rightarrow> None)
      | _ \<Rightarrow> None)"

definition extract_call_error :: "gomap \<Rightarrow> string" where
  "extract_call_error payload =
     (case map_of payload ''content'' of
        Some (VList items) \<Rightarrow>
          (let parts = List.map_filter item_text items
           in if parts = [] then ''mcp tool call failed'' else join [NL] parts)
      | _ \<Rightarrow> ''mcp tool call failed'')"

definition pick :: "string \<Rightarrow> gomap \<Rightarrow> gomap" where
  "pick k m = (case map_of m k of Some v \<Rightarrow> [(k, v)] | None \<Rightarrow> [])"

definition call_output :: "gomap \<Rightarrow> go_error + gomap" where
  "call_output payload =
     (if map_of payload ''isError'' = Some (VBool True) then Inl (extract_call_error payload)
      else (let out = pick ''structuredContent'' payload @ pick ''content'' payload
            in Inr (if out = [] then payload else out)))"

definition call_tool ::
    "(string \<Rightarrow> goany \<Rightarrow> 'w \<Rightarrow> (go_error + string) \<times> 'w) \<Rightarrow> (string \<Rightarrow> go_error + gomap)
      \<Rightarrow> string \<Rightarrow> string \<Rightarrow> gomap \<Rightarrow> 'w \<Rightarrow> (go_error + gomap) \<times> 'w" where
  "call_tool request dec server name args w =
     (case request ''tools/call'' (VMap [(''name'', VStr name), (''arguments'', VMap args)]) w of
        (Inl e, w') \<Rightarrow> (Inl e, w')
      | (Inr res, w') \<Rightarrow>
          (case dec res of
             Inl e \<Rightarrow> (Inl (client_error server (''tools/call decode: '' @ e)), w')
           | Inr payload \<Rightarrow> (call_output payload, w')))"

text \<open>\<open>Tool.Execute\<close> of the loader, as the argument \<open>call\<close> of \<open>mcp_tool\<close>.\<close>

definition execute_remote where
  "execute_remote request dec server name args w =
     (case call_tool request dec server name args w of
        (Inl e, w') \<Rightarrow> (Inl e, w')
      | (Inr out, w') \<Rightarrow> (Inr (VMap out), w'))"

text \<open>\<open>requestHTTP\<close>: the result of the POST, whatever \<open>httpClient.Do\<close> returned.\<close>

definition request_http ::
    "(string \<Rightarrow> go_error + rpc_message) \<Rightarrow> string \<Rightarrow> string \<Rightarrow> string
      \<Rightarrow> (string \<Rightarrow> goany \<Rightarrow> 'w \<Rightarrow> (go_error + http_response) \<times> 'w)
      \<Rightarrow> string \<Rightarrow> goany \<Rightarrow> 'w \<Rightarrow> (go_error + string) \<times> 'w" where
  "request_http dec name url rid send meth params w =
     (case send meth params w of
        (reply, w') \<Rightarrow>
          ((case fst (post_json dec name url (Some rid) True reply) of
              Inr res \<Rightarrow> Inr res
            | Inl NoAsyncResponse \<Rightarrow> Inl ''no async response''
            | Inl (PostFailed e) \<Rightarrow> Inl e), w'))"

text \<open>
  Over HTTP a refused tool call is reported as a success. A server that answers the call of
  a tool with a JSON-RPC error, in a reply that is not an event stream, has the whole reply
  returned as the output of the tool: the registry's caller sees no error.
\<close>

theorem http_refusal_reported_as_success:
  assumes "trim_space url \<noteq> []" "dec body = Inr m" "rp_error m = Some e"
    and "trim_space body \<noteq> []" "\<not> contains (normal_key ty) ''text/event-stream''"
    and "decm body = Inr payload" "map_of payload ''isError'' = None"
    and "map_of payload ''structuredContent'' = None" "map_of payload ''content'' = None"
  shows "execute_remote
      (request_http dec name url rid
        (\<lambda>_ _ w. (Inr \<lparr>hr_status = 200, hr_type = ty, hr_body = body, hr_end = None\<rparr>, w)))
      decm name tool args w = (Inr (VMap payload), w)"
  using assms rpc_error_taken_for_result [of url dec body m e ty name rid]
  by (simp add: execute_remote_def call_tool_def request_http_def call_output_def pick_def)

theorem http_refusal_reported_as_success_witness:
  "execute_remote
      (request_http (\<lambda>_. Inr demo_error) ''a'' ''http://x'' ''7''
        (\<lambda>_ _ w. (Inr \<lparr>hr_status = 200, hr_type = ''application/json'', hr_body = ''{error}'', hr_end = None\<rparr>, w)))
      (\<lambda>_. Inr [(''id'', VStr ''7''), (''error'', VMap [])]) ''a'' ''t'' [] ()
    = (Inr (VMap [(''id'', VStr ''7''), (''error'', VMap [])]), ())"
proof (rule http_refusal_reported_as_success [where m = demo_error and dec = "\<lambda>_. Inr demo_error"])
  show "rp_error demo_error = Some \<lparr>re_code = -32601, re_message = ''no such tool''\<rparr>"
    by (simp add: demo_error_def)
qed (code_simp | simp)+

section \<open>Notifications\<close>

text \<open>
  A notification is dropped when the queue of 128 is full. On a closed client the \<open>select\<close> of
  \<open>emitNotification\<close> may also drop it although there is room; the possible queues are listed.
  The forwarder of the manager puts it into a queue of 256 in the same way.
\<close>

definition offer :: "int \<Rightarrow> 'a \<Rightarrow> 'a list \<Rightarrow> 'a list" where
  "offer cap x q = (if int (length q) < cap then q @ [x] else q)"

definition emit_note :: "bool \<Rightarrow> string \<times> string \<Rightarrow> (string \<times> string) list \<Rightarrow> (string \<times> string) list list" where
  "emit_note is_closed n q =
     (if trim_space (fst n) = [] then [q]
      else (let q' = offer 128 (trim_space (fst n), snd n) q
            in if is_closed \<and> q' \<noteq> q then [q, q'] else [q']))"

definition forward_note :: "'a list \<Rightarrow> 'a list \<Rightarrow> 'a list \<times> 'a list" where
  "forward_note notes_in out = (case notes_in of [] \<Rightarrow> ([], out) | n # ns \<Rightarrow> (ns, offer 256 n out))"

lemma offer_bounded: "int (length q) \<le> cap \<Longrightarrow> int (length (offer cap x q)) \<le> cap"
  by (simp add: offer_def)

lemma emit_note_bounded:
  "int (length q) \<le> 128 \<Longrightarrow> q' \<in> set (emit_note c n q) \<Longrightarrow> int (length q') \<le> 128"
  by (auto simp: emit_note_def Let_def offer_def split: if_splits)

end
