(* ===== verification/McpTransport.thy ===== *)
theory McpTransport
  imports McpClient McpCalls
begin

text \<open>
  The rest of \<open>internal/mcp/client.go\<close>: how a message of the client leaves, over standard input or by
  POST, what \<open>notify\<close> and \<open>request\<close> do on each transport, and what the goroutines that read from the
  server and wait for it do with the table of pending requests. JSON, the pipe and the HTTP
  client are arguments; \<open>net/url\<close> is one of \<open>resolve_url\<close>.
\<close>

section \<open>Messages\<close>

definition notify_message :: "string \<Rightarrow> goany \<Rightarrow> goany" where
  "notify_message meth params = VMap [(''jsonrpc'', VStr ''2.0''), (''method'', VStr meth), (''params'', params)]"

definition request_message :: "string \<Rightarrow> string \<Rightarrow> goany \<Rightarrow> goany" where
  "request_message i meth params =
     VMap [(''jsonrpc'', VStr ''2.0''), (''id'', VStr i), (''method'', VStr meth), (''params'', params)]"

text \<open>
  \<open>tr_do\<close> is \<open>httpClient.Do\<close> on an endpoint, the headers, the body and the deadline of the context.
\<close>

record 'w wire =
  tr_marshal :: "goany \<Rightarrow> go_error + string"
  tr_write :: "string \<Rightarrow> 'w \<Rightarrow> go_error option \<times> 'w"
  tr_do :: "string \<Rightarrow> (string \<times> string) list \<Rightarrow> string \<Rightarrow> gtime option \<Rightarrow> 'w \<Rightarrow> (go_error + http_response) \<times> 'w"
  tr_dec :: "string \<Rightarrow> go_error + rpc_message"

definition write_stdio_message :: "'w wire \<Rightarrow> framing \<Rightarrow> goany \<Rightarrow> 'w \<Rightarrow> go_error option \<times> 'w" where
  "write_stdio_message io f msg w =
     (case tr_marshal io msg of
        Inl e \<Rightarrow> (Some e, w)
      | Inr body \<Rightarrow> tr_write io (write_frame f body) w)"

text \<open>
  \<open>Header.Set\<close> stores a header under its canonical name, so that of the configuration replaces the
  one the client sets, however it is spelled; a name with other bytes is kept as it is.
\<close>

definition header_char :: "char \<Rightarrow> bool" where
  "header_char c \<longleftrightarrow> lower_char c \<noteq> upper_char c \<or> is_digit c \<or> c \<in> set ''!#$%&''
     \<or> c = CHR 0x27 \<or> c \<in> set ''*+-.^_|~'' \<or> c = CHR 0x60"

fun canon_from :: "bool \<Rightarrow> string \<Rightarrow> string" where
  "canon_from up [] = []"
| "canon_from up (c # s) = (if up then upper_char c else lower_char c) # canon_from (c = CHR ''-'') s"

definition canonical_header :: "string \<Rightarrow> string" where
  "canonical_header s = (if list_all header_char s then canon_from True s else s)"

definition post_headers :: "(string \<times> string) list \<Rightarrow> (string \<times> string) list" where
  "post_headers own =
     fold (\<lambda>(k, v). put (canonical_header k) v) own
       [(''Content-Type'', ''application/json''), (''Accept'', ''application/json, text/event-stream'')]"

definition with_request_timeout :: "int \<Rightarrow> gtime \<Rightarrow> gtime option \<Rightarrow> gtime option" where
  "with_request_timeout timeout now deadline =
     (if timeout \<le> 0 then deadline
      else (case deadline of Some d \<Rightarrow> Some d | None \<Rightarrow> Some (time_add now timeout)))"

text \<open>\<open>postJSONRPC\<close> from the message to what it returns.\<close>

definition post_message ::
    "'w wire \<Rightarrow> client_conf \<Rightarrow> gtime \<Rightarrow> gtime option \<Rightarrow> string \<Rightarrow> goany \<Rightarrow> string option \<Rightarrow> bool \<Rightarrow> 'w
      \<Rightarrow> ((post_error + string) \<times> note_list) \<times> 'w" where
  "post_message io c now deadline endpoint msg rid expect w =
     (if trim_space endpoint = [] then ((Inl (PostFailed ''mcp: endpoint is empty''), []), w)
      else (case tr_marshal io msg of
              Inl e \<Rightarrow> ((Inl (PostFailed e), []), w)
            | Inr body \<Rightarrow>
                (case tr_do io endpoint (post_headers (cc_headers c)) body
                        (with_request_timeout (cc_timeout c) now deadline) w of
                   (reply, w') \<Rightarrow> (post_json (tr_dec io) (cc_name c) endpoint rid expect reply, w'))))"

definition post_error_text :: "post_error \<Rightarrow> go_error" where
  "post_error_text e = (case e of NoAsyncResponse \<Rightarrow> ''no async response'' | PostFailed t \<Rightarrow> t)"

section \<open>Notifying and asking\<close>

definition notify :: "'w wire \<Rightarrow> client_conf \<Rightarrow> gtime \<Rightarrow> string \<Rightarrow> goany \<Rightarrow> 'w \<Rightarrow> go_error option \<times> 'w" where
  "notify io c now meth params w =
     (let msg = notify_message meth params;
          post = (\<lambda>endpoint. case post_message io c now None endpoint msg None False w of
            ((r, _), w') \<Rightarrow> (case r of Inl e \<Rightarrow> Some (post_error_text e) | Inr _ \<Rightarrow> None, w'))
      in case cc_transport c of
           Stdio \<Rightarrow> write_stdio_message io (cc_framing c) msg w
         | Sse \<Rightarrow> post (cc_message_url c)
         | StreamableHttp \<Rightarrow> post (cc_url c))"

text \<open>
  \<open>request\<close> up to where it waits: the id is drawn, on stdio and SSE the request is entered in the table
  and its message sent. Over HTTP the answer is that of the POST and the table is not used.
\<close>

record asked =
  as_answer :: "rpc_response option"
  as_notes :: note_list
  as_client :: pclient

definition send_request ::
    "'w wire \<Rightarrow> client_conf \<Rightarrow> gtime \<Rightarrow> gtime option \<Rightarrow> string \<Rightarrow> goany \<Rightarrow> pclient \<Rightarrow> 'w \<Rightarrow> asked \<times> 'w" where
  "send_request io c now deadline meth params s w =
     (let i = itoa (pc_ids s + 1); msg = request_message i meth params; k = length (pc_chan s); s1 = begin_request s
      in case cc_transport c of
           Stdio \<Rightarrow>
             (case write_stdio_message io (cc_framing c) msg w of
                (r, w') \<Rightarrow> (\<lparr>as_answer = None, as_notes = [], as_client = after_write k r s1\<rparr>, w'))
         | Sse \<Rightarrow>
             (case post_message io c now deadline (cc_message_url c) msg (Some i) True w of
                ((r, ns), w') \<Rightarrow> (\<lparr>as_answer = None, as_notes = ns, as_client = after_post k r s1\<rparr>, w'))
         | StreamableHttp \<Rightarrow>
             (case post_message io c now deadline (cc_url c) msg (Some i) True w of
                ((r, ns), w') \<Rightarrow>
                  (\<lparr>as_answer = Some (case r of Inl e \<Rightarrow> Inl (post_error_text e) | Inr res \<Rightarrow> Inr res),
                    as_notes = ns, as_client = s\<lparr>pc_ids := pc_ids s + 1\<rparr>\<rparr>, w')))"

section \<open>Reading and waiting\<close>

definition dispatch_all ::
    "(string \<Rightarrow> go_error + rpc_message) \<Rightarrow> string \<Rightarrow> string list \<Rightarrow> pclient \<Rightarrow> pclient" where
  "dispatch_all dec name bodies s = fold (\<lambda>b s. fst (dispatch_rpc dec name b s)) bodies s"

text \<open>
  The read loops of stdio on all the server writes before the pipe breaks; \<open>show\<close> is the text of the
  error the loop ends with. \<open>waitLoop\<close> reports the end of the process.
\<close>

definition read_loop ::
    "(string \<Rightarrow> go_error + rpc_message) \<Rightarrow> string \<Rightarrow> (read_error \<Rightarrow> go_error) \<Rightarrow> framing \<Rightarrow> string \<Rightarrow> pclient \<Rightarrow> pclient" where
  "read_loop dec name err_text f input s =
     (case read_bodies f input of (bodies, e) \<Rightarrow> fail_pending (err_text e) (dispatch_all dec name bodies s))"

definition wait_loop :: "go_error option \<Rightarrow> pclient \<Rightarrow> pclient" where
  "wait_loop exit s = fail_pending (case exit of Some e \<Rightarrow> e | None \<Rightarrow> ''EOF'') s"

section \<open>Resolving an endpoint\<close>

record 'u url_ops =
  ur_parse :: "string \<Rightarrow> 'u option"
  ur_abs :: "'u \<Rightarrow> bool"
  ur_join :: "'u \<Rightarrow> 'u \<Rightarrow> 'u"
  ur_string :: "'u \<Rightarrow> string"

definition resolve_url :: "'u url_ops \<Rightarrow> string \<Rightarrow> string \<Rightarrow> string" where
  "resolve_url u base endpoint =
     (let e = trim_space endpoint
      in if e = [] then trim_space base
         else (case ur_parse u e of
                 Some p \<Rightarrow>
                   if ur_abs u p then ur_string u p
                   else (case ur_parse u (trim_space base) of
                           None \<Rightarrow> e
                         | Some b \<Rightarrow> ur_string u (ur_join u b p))
               | None \<Rightarrow> e))"

section \<open>Requests and the table\<close>

lemma begin_waits: "pinv s \<Longrightarrow> is_waiting (begin_request s) (length (pc_chan s))"
proof -
  assume "pinv s"
  then have "\<forall>k r. (k, r) \<in> set (pc_done s) \<longrightarrow> k < length (pc_chan s)" by (simp add: pinv_def done_ok_def)
  then show ?thesis by (auto simp: is_waiting_def begin_request_def Let_def)
qed

lemma send_request_reach:
  assumes "client_reach dec name ids s"
  shows "client_reach dec name ids (as_client (fst (send_request io c now d meth params s w)))"
proof -
  have b: "client_reach dec name ids (begin_request s)"
    using assms client_step.ask by (rule client_reach.step)
  have w: "is_waiting (begin_request s) (length (pc_chan s))" using reach_pinv [OF assms] by (rule begin_waits)
  have "client_reach dec name ids (after_write (length (pc_chan s)) r (begin_request s))" for r
    using b client_step.written [OF w] by (rule client_reach.step)
  moreover have "client_reach dec name ids (after_post (length (pc_chan s)) r (begin_request s))" for r
    using b client_step.posted [OF w] by (rule client_reach.step)
  moreover have "client_reach dec name ids (s\<lparr>pc_ids := pc_ids s + 1\<rparr>)"
    using assms client_step.other_client by (rule client_reach.step)
  ultimately show ?thesis
    by (simp add: send_request_def Let_def split: transport.split prod.split)
qed

text \<open>
  A request is accounted for from the moment it is made: on stdio and SSE it either waits
  in the table under its own id, or it has ended and the table no longer holds its id, so an answer
  that comes late finds nobody.
\<close>

lemma request_accounted:
  assumes "client_reach dec name ids s" "cc_transport c \<noteq> StreamableHttp"
    and "send_request io c now d meth params s w = (a, w')"
  shows "is_waiting (as_client a) (length (pc_chan s))
        \<and> map_of (pc_pending (as_client a)) (itoa (pc_ids s + 1)) = Some (length (pc_chan s))
    \<or> (\<exists>out. (length (pc_chan s), out) \<in> set (pc_done (as_client a)))
        \<and> itoa (pc_ids s + 1) \<notin> set (keys (pc_pending (as_client a)))"
proof -
  let ?k = "length (pc_chan s)" and ?i = "itoa (pc_ids s + 1)" and ?b = "begin_request s"
  have I: "pinv s" using assms(1) by (rule reach_pinv)
  then have len: "length (pc_own s) = ?k" by (simp add: pinv_def ids_ok_def)
  have fresh: "?i \<notin> set (keys (pc_pending s))"
    using fresh_id table_keys I by (metis pinvD(1,2))
  have p: "pc_pending ?b = pc_pending s @ [(?i, ?k)]"
    using begin_pending I by (simp add: pinv_def)
  have "map_of (pc_pending s) ?i = None" using fresh by (simp add: map_of_eq_None_iff)
  then have wait: "is_waiting ?b ?k \<and> map_of (pc_pending ?b) ?i = Some ?k"
    using begin_waits [OF I] by (simp add: p map_add_def)
  have own: "pc_own ?b ! ?k = ?i" by (simp add: begin_request_def Let_def nth_append len)
  have ended: "(\<exists>out. (?k, out) \<in> set (pc_done t)) \<and> ?i \<notin> set (keys (pc_pending t))"
    if "t = finish ?k out (forget ?k ?b)" for t out
    using that by (auto simp: finish_def forget_def own del_def)
  have "(\<exists>r. as_client a = after_write ?k r ?b) \<or> (\<exists>q. as_client a = after_post ?k q ?b)"
  proof (cases "cc_transport c")
    case Stdio
    with assms(3) show ?thesis by (auto simp: send_request_def Let_def split: prod.splits)
  next
    case Sse
    with assms(3) show ?thesis by (simp add: send_request_def Let_def split: prod.splits) (metis asked.select_convs(3))
  qed (use assms(2) in simp)
  moreover have "after_write ?k r ?b = ?b \<or> (\<exists>out. after_write ?k r ?b = finish ?k out (forget ?k ?b))" for r
    by (cases r) (auto simp: after_write_def)
  moreover have "after_post ?k q ?b = ?b \<or> (\<exists>out. after_post ?k q ?b = finish ?k out (forget ?k ?b))" for q
    by (auto simp: after_post_def split: sum.split post_error.split)
  ultimately have "as_client a = ?b \<or> (\<exists>out. as_client a = finish ?k out (forget ?k ?b))" by metis
  then show ?thesis
  proof
    assume "as_client a = ?b"
    then show ?thesis using wait by simp
  next
    assume "\<exists>out. as_client a = finish ?k out (forget ?k ?b)"
    then show ?thesis using ended by blast
  qed
qed

section \<open>An answer on the wire reaches its request\<close>

lemma dispatch_other:
  assumes "\<forall>m. dec b = Inr m \<longrightarrow> rp_id m = VNil \<or> normalize_id (rp_id m) \<noteq> Some i"
  shows "map_of (pc_pending (fst (dispatch_rpc dec name b s))) i = map_of (pc_pending s) i"
  using assms by (auto simp: dispatch_rpc_def split: sum.splits option.splits)

lemma dispatch_hand: "set (pc_hand s) \<subseteq> set (pc_hand (fst (dispatch_rpc dec name b s)))"
  by (auto simp: dispatch_rpc_def split: sum.splits option.splits)

lemma dispatch_all_simps [simp]:
  "dispatch_all dec name [] s = s"
  "dispatch_all dec name (b # bs) s = dispatch_all dec name bs (fst (dispatch_rpc dec name b s))"
  "dispatch_all dec name (bs @ cs) s = dispatch_all dec name cs (dispatch_all dec name bs s)"
  by (simp_all add: dispatch_all_def)

lemma dispatch_all_other:
  "\<forall>b \<in> set bs. \<forall>m. dec b = Inr m \<longrightarrow> rp_id m = VNil \<or> normalize_id (rp_id m) \<noteq> Some i \<Longrightarrow>
     map_of (pc_pending (dispatch_all dec name bs s)) i = map_of (pc_pending s) i"
  by (induction bs arbitrary: s) (auto simp: dispatch_other)

lemma dispatch_all_hand: "set (pc_hand s) \<subseteq> set (pc_hand (dispatch_all dec name bs s))"
proof (induction bs arbitrary: s)
  case (Cons b bs)
  from dispatch_hand [of s dec name b] Cons [of "fst (dispatch_rpc dec name b s)"] show ?case by auto
qed simp

lemma dispatch_all_reach:
  "client_reach dec name ids s \<Longrightarrow> client_reach dec name ids (dispatch_all dec name bs s)"
proof (induction bs arbitrary: s)
  case (Cons b bs)
  from Cons.IH [OF client_reach.step [OF Cons.prems client_step.dispatch]] show ?case by simp
qed simp

lemma fail_pending_hand: "pinv s \<Longrightarrow> pc_hand (fail_pending e s) = pc_hand s"
  unfolding fail_pending_def by (subst answer_all_eq) (auto simp: pinv_def table_ok_def)

lemma read_loop_hand:
  assumes reach: "client_reach dec name ids s" and "map_of (pc_pending s) i = Some k"
    and frames: "\<forall>x \<in> set (pre @ b # post). frame_ok f x"
    and "\<forall>x \<in> set pre. \<forall>m. dec x = Inr m \<longrightarrow> rp_id m = VNil \<or> normalize_id (rp_id m) \<noteq> Some i"
    and "dec b = Inr m" "rp_id m \<noteq> VNil" "normalize_id (rp_id m) = Some i"
  shows "client_reach dec name ids (read_loop dec name txt f (concat (map (write_frame f) (pre @ b # post))) s)
    \<and> (k, response_of name m) \<in> set (pc_hand (read_loop dec name txt f (concat (map (write_frame f) (pre @ b # post))) s))"
proof -
  let ?s1 = "dispatch_all dec name pre s"
  let ?s2 = "fst (dispatch_rpc dec name b ?s1)"
  let ?s3 = "dispatch_all dec name post ?s2"
  have loop: "read_loop dec name txt f (concat (map (write_frame f) (pre @ b # post))) s = fail_pending (txt Eof) ?s3"
    by (simp only: read_loop_def frames_read [OF frames] prod.case dispatch_all_simps)
  have "map_of (pc_pending ?s1) i = Some k" using dispatch_all_other [OF assms(4)] assms(2) by simp
  then have "(k, response_of name m) \<in> set (pc_hand ?s2)" using assms(5-7) by (simp add: dispatch_rpc_def)
  then have h: "(k, response_of name m) \<in> set (pc_hand ?s3)" using dispatch_all_hand [of ?s2] by blast
  have r: "client_reach dec name ids ?s3"
    using dispatch_all_reach [OF client_reach.step [OF dispatch_all_reach [OF reach] client_step.dispatch]] .
  then have "client_reach dec name ids (fail_pending (txt Eof) ?s3)"
    using client_step.fail by (rule client_reach.step)
  then show ?thesis unfolding loop fail_pending_hand [OF reach_pinv [OF r]] using h by blast
qed

text \<open>
  C18: an answer the server writes reaches the request it answers. Whatever else the server
  writes before and after it, in either framing and even if the pipe breaks right behind it, when the
  first message with the id of a pending request is read the goroutine that asked is handed
  that answer: sending it is possible, and receiving it ends the request with it.
\<close>

theorem answer_on_wire_arrives:
  assumes "client_reach dec name ids s" and "map_of (pc_pending s) i = Some k"
    and "\<forall>x \<in> set (pre @ b # post). frame_ok f x"
    and "\<forall>x \<in> set pre. \<forall>m. dec x = Inr m \<longrightarrow> rp_id m = VNil \<or> normalize_id (rp_id m) \<noteq> Some i"
    and "dec b = Inr m" "rp_id m \<noteq> VNil" "normalize_id (rp_id m) = Some i"
    and "t = read_loop dec name txt f (concat (map (write_frame f) (pre @ b # post))) s"
  shows "client_step dec name t (send_answer (k, response_of name m) t)
    \<and> ch_val (pc_chan (send_answer (k, response_of name m) t) ! k) = Some (response_of name m)
    \<and> (k, Answer (response_of name m)) \<in> set (pc_done (await_receive k (send_answer (k, response_of name m) t)))"
proof -
  let ?r = "response_of name m"
  from read_loop_hand [OF assms(1-7)] have t: "client_reach dec name ids t" "(k, ?r) \<in> set (pc_hand t)"
    unfolding assms(8) by blast+
  then have k: "k < length (pc_chan t)" "pc_chan t ! k = new_chan"
    using reach_pinv [OF t(1)] by (auto simp: pinv_def hand_ok_def)
  then have v: "ch_val (pc_chan (send_answer (k, ?r) t) ! k) = Some ?r"
    by (simp add: send_answer_def send_to_def)
  then have "(k, Answer ?r) \<in> set (pc_done (await_receive k (send_answer (k, ?r) t)))"
    by (simp add: await_receive_def finish_def)
  with v client_step.send [OF t(2)] show ?thesis by blast
qed

definition demo_answer :: rpc_message where
  "demo_answer = \<lparr>rp_id = VStr ''1'', rp_method = [], rp_params = [], rp_result = ''{}'', rp_error = None\<rparr>"

theorem answer_on_wire_arrives_witness:
  "(0, Answer (Inr ''{}'')) \<in> set (pc_done (await_receive 0 (send_answer (0, Inr ''{}'')
     (read_loop (\<lambda>b. if b = ''y'' then Inr demo_answer else Inl ''bad'') ''s'' (\<lambda>_. ''EOF'') Lsp
       (concat (map (write_frame Lsp) [''x'', ''y''])) (begin_request (new_pclient 0))))))"
proof -
  let ?dec = "\<lambda>b. if b = ''y'' then Inr demo_answer else Inl ''bad''"
  have r: "client_reach ?dec ''s'' 0 (begin_request (new_pclient 0))"
    using client_reach.init client_step.ask by (rule client_reach.step)
  have p: "map_of (pc_pending (begin_request (new_pclient 0))) ''1'' = Some 0" by code_simp
  have f: "\<forall>x \<in> set ([''x''] @ ''y'' # []). frame_ok Lsp x" by (simp add: frame_ok_def max_alloc_def)
  have o: "\<forall>x \<in> set [''x'']. \<forall>m. ?dec x = Inr m \<longrightarrow> rp_id m = VNil \<or> normalize_id (rp_id m) \<noteq> Some ''1''" by simp
  have d: "?dec ''y'' = Inr demo_answer" "rp_id demo_answer \<noteq> VNil" "normalize_id (rp_id demo_answer) = Some ''1''"
    by (simp_all add: demo_answer_def normalize_id_def)
  have "response_of ''s'' demo_answer = Inr ''{}''" by (simp add: response_of_def demo_answer_def)
  with answer_on_wire_arrives [OF r p f o d refl, of "\<lambda>_. ''EOF''"] show ?thesis by simp
qed

end
