(* ===== verification/ProfileText.thy ===== *)
theory ProfileText
  imports Domain
begin

text \<open>
  The text side of \<open>internal/profile\<close>: how an update changes a file (\<open>store.go\<close>), the chat
  commands (\<open>commands.go\<close>), the detection of a preference in a message (\<open>autodetect.go\<close>) and
  the diff (\<open>diff.go\<close>). The regular expressions of the code are translated into the matchers
  they denote: each is a fixed text, runs of a class taken greedily and a rest of line, so
  that a match is found without choice. The Unicode tables of letters and numbers above
  ASCII are an argument.
\<close>

section \<open>Update modes\<close>

datatype update_mode = Replace | Append | Patch

definition mode_name :: "string \<Rightarrow> update_mode" where
  "mode_name v = (if v = ''append'' then Append else if v = ''patch'' then Patch else Replace)"

definition normalize_mode :: "string \<Rightarrow> string \<Rightarrow> update_mode" where
  "normalize_mode raw fallback =
     mode_name (if normal_key raw = [] then normal_key fallback else normal_key raw)"

definition ensure_trailing_newline :: "string \<Rightarrow> string" where
  "ensure_trailing_newline s =
     (if s = [] then [NL] else if has_suffix s [NL] then s else s @ [NL])"

definition append_text :: "string \<Rightarrow> string \<Rightarrow> string" where
  "append_text current extra =
     (let cur = trim_right_set current [NL]; add = trim_space extra
      in if cur = [] then add @ [NL]
         else if add = [] then cur @ [NL]
         else cur @ [NL, NL] @ add @ [NL])"

section \<open>Regular expressions over lines\<close>

text \<open>
  \<open>ReplaceAllString\<close> for an expression that starts with \<open>(?m)^\<close>: the matcher is tried at the
  start of every line, and the search goes on behind a match.
\<close>

type_synonym matcher = "string \<Rightarrow> (string \<times> string) option"

function replace_lines :: "matcher \<Rightarrow> (string \<Rightarrow> string) \<Rightarrow> bool \<Rightarrow> string \<Rightarrow> string" where
  "replace_lines m r bol [] = []"
| "replace_lines m r bol (c # s) =
     (case (if bol then m (c # s) else None) of
        Some (x, rest) \<Rightarrow>
          if length rest < length (c # s) then r x @ replace_lines m r False rest
          else c # replace_lines m r (c = NL) s
      | None \<Rightarrow> c # replace_lines m r (c = NL) s)"
  by pat_completeness auto
termination by (relation "measure (\<lambda>(_, _, _, s). length s)") auto

fun match_lines :: "matcher \<Rightarrow> bool \<Rightarrow> string \<Rightarrow> bool" where
  "match_lines m bol [] = False"
| "match_lines m bol (c # s) = (bol \<and> m (c # s) \<noteq> None \<or> match_lines m (c = NL) s)"

definition re_space :: "char \<Rightarrow> bool" where
  "re_space c \<longleftrightarrow> c \<in> {CHR '' '', CHR 0x09, NL, CHR 0x0C, CR}"

text \<open>A text matched without regard to case, and the rest of a line.\<close>

fun fold_prefix :: "string \<Rightarrow> string \<Rightarrow> (string \<times> string) option" where
  "fold_prefix [] s = Some ([], s)"
| "fold_prefix (p # ps) [] = None"
| "fold_prefix (p # ps) (c # s) =
     (if lower_char c = lower_char p
      then map_option (\<lambda>(x, r). (c # x, r)) (fold_prefix ps s) else None)"

definition rest_of_line :: "string \<Rightarrow> string \<times> string" where
  "rest_of_line s = (takeWhile (\<lambda>c. c \<noteq> NL) s, dropWhile (\<lambda>c. c \<noteq> NL) s)"

text \<open>
  \<open>(?im)^key\s*:\s*.*$\<close>: neither class of \<open>\s\<close> holds a colon, and the second run of spaces may
  cross line breaks; what it leaves ends at the next one.
\<close>

definition identity_matcher :: "string \<Rightarrow> matcher" where
  "identity_matcher key s =
     (case fold_prefix key s of
        None \<Rightarrow> None
      | Some (k, r1) \<Rightarrow>
          (case dropWhile re_space r1 of
             [] \<Rightarrow> None
           | c # r2 \<Rightarrow>
               if c \<noteq> CHR '':'' then None
               else (case rest_of_line (dropWhile re_space r2) of
                       (l, r3) \<Rightarrow>
                         Some (k @ takeWhile re_space r1 @ [c] @ takeWhile re_space r2 @ l, r3))))"

text \<open>\<open>(?im)^- \*\*key:\*\*.*$\<close>.\<close>

definition user_matcher :: "string \<Rightarrow> matcher" where
  "user_matcher key s =
     (case fold_prefix (''- **'' @ key @ '':**'') s of
        None \<Rightarrow> None
      | Some (k, r) \<Rightarrow> (case rest_of_line r of (l, r') \<Rightarrow> Some (k @ l, r')))"

subsection \<open>Templates\<close>

text \<open>
  \<open>Regexp.expand\<close> for an expression without groups: \<open>$0\<close> is the match, any other group is empty,
  \<open>$$\<close> is a dollar, and a dollar that names nothing stays. Exact for names in ASCII.
\<close>

definition is_name_char :: "char \<Rightarrow> bool" where
  "is_name_char c \<longleftrightarrow> is_digit c \<or> c = CHR ''_'' \<or> lower_char c \<in> set ''abcdefghijklmnopqrstuvwxyz''"

definition extract_name :: "string \<Rightarrow> (string \<times> string) option" where
  "extract_name s =
     (let brace = has_prefix s ''{'';
          body = (if brace then tl s else s);
          name = takeWhile is_name_char body;
          rest = dropWhile is_name_char body
      in if name = [] then None
         else if brace then (if has_prefix rest ''}'' then Some (name, tl rest) else None)
         else Some (name, rest))"

function expand_template :: "string \<Rightarrow> string \<Rightarrow> string" where
  "expand_template m [] = []"
| "expand_template m (c # t) =
     (if c \<noteq> CHR ''$'' then c # expand_template m t
      else if has_prefix t ''$'' then CHR ''$'' # expand_template m (tl t)
      else (case extract_name t of
              None \<Rightarrow> CHR ''$'' # expand_template m t
            | Some (name, rest) \<Rightarrow>
                if length rest \<le> length t
                then (if name = ''0'' then m else []) @ expand_template m rest
                else CHR ''$'' # expand_template m t))"
  by pat_completeness auto
termination by (relation "measure (\<lambda>(_, t). length t)") auto

definition re_replace_all :: "matcher \<Rightarrow> string \<Rightarrow> string \<Rightarrow> string" where
  "re_replace_all m s template = replace_lines m (\<lambda>x. expand_template x template) True s"

definition re_match :: "matcher \<Rightarrow> string \<Rightarrow> bool" where
  "re_match m s = match_lines m True s"

section \<open>Patching\<close>

text \<open>A line of a patch: its key and value, if it has a key.\<close>

definition patch_entry :: "string \<Rightarrow> (string \<times> string) option" where
  "patch_entry raw =
     (case split_n2 (CHR '':'') (trim_space raw) of
        [k, v] \<Rightarrow> if trim_space k = [] then None else Some (trim_space k, trim_space v)
      | _ \<Rightarrow> None)"

definition patch_entries :: "string \<Rightarrow> (string \<times> string) list" where
  "patch_entries patch = List.map_filter patch_entry (split_on NL (trim_space patch))"

definition patch_identity_line :: "string \<times> string \<Rightarrow> string \<Rightarrow> string" where
  "patch_identity_line kv out =
     (let key = to_lower (fst kv); line = key @ '': '' @ snd kv
      in if re_match (identity_matcher key) out then re_replace_all (identity_matcher key) out line
         else if trim_space out = [] then line @ [NL]
         else trim_right_set out [NL] @ [NL] @ line @ [NL])"

definition patch_identity :: "string \<Rightarrow> string \<Rightarrow> string" where
  "patch_identity current patch =
     ensure_trailing_newline (fold patch_identity_line (patch_entries patch) current)"

definition patch_user_line :: "string \<times> string \<Rightarrow> string \<Rightarrow> string" where
  "patch_user_line kv out =
     (let label = ''- **'' @ fst kv @ '':** '' @ snd kv
      in if re_match (user_matcher (fst kv)) out then re_replace_all (user_matcher (fst kv)) out label
         else if trim_space out = []
         then ''# USER'' @ [NL, NL] @ ''## Profile'' @ [NL] @ label @ [NL]
         else if contains (to_lower out) ''## profile'' then trim_right_set out [NL] @ [NL] @ label @ [NL]
         else trim_right_set out [NL] @ [NL, NL] @ ''## Profile'' @ [NL] @ label @ [NL])"

definition patch_user :: "string \<Rightarrow> string \<Rightarrow> string" where
  "patch_user current patch =
     ensure_trailing_newline (fold patch_user_line (patch_entries patch) current)"

definition patch_text :: "string \<Rightarrow> string \<Rightarrow> string \<Rightarrow> go_error + string" where
  "patch_text file current patch =
     (let f = to_upper (trim_space file)
      in if f = ''IDENTITY.MD'' then Inr (patch_identity current patch)
         else if f = ''USER.MD'' then Inr (patch_user current patch)
         else Inl ''INTERNAL'')"

section \<open>Diff\<close>

definition diff_lines :: "string \<Rightarrow> string list" where
  "diff_lines s =
     (let t = trim_right_set (crlf_to_lf s) [NL] in if t = [] then [] else split_on NL t)"

definition line_at :: "string list \<Rightarrow> nat \<Rightarrow> string" where
  "line_at ls i = (if i < length ls then ls ! i else [])"

definition diff_line :: "string list \<Rightarrow> string list \<Rightarrow> nat \<Rightarrow> string" where
  "diff_line left right i =
     (let l = line_at left i; r = line_at right i
      in if l = r then []
         else (if l = [] then [] else ''- '' @ l @ [NL]) @ (if r = [] then [] else ''+ '' @ r @ [NL]))"

definition no_changes :: string where "no_changes = ''no changes''"

definition render_line_diff :: "string \<Rightarrow> string \<Rightarrow> string" where
  "render_line_diff current proposed =
     (let left = diff_lines current; right = diff_lines proposed
      in if trim_space current = trim_space proposed then no_changes
         else (let out = trim_space (''--- current'' @ [NL] @ ''+++ proposed'' @ [NL]
                  @ concat (map (diff_line left right) [0..<max (length left) (length right)]))
               in if out = [] then no_changes else out))"

section \<open>Commands\<close>

datatype command =
    ProfileList
  | ProfileShow string
  | ProfileDiff string string
  | ProfileSet string string
  | ProfileAppend string string
  | ProfileApply string
  | OnboardStatus
  | OnboardDone

definition normalize_file :: "string \<Rightarrow> string" where
  "normalize_file raw =
     (if trim_space raw = [] then [] else trim_space (path_base (trim_space raw)))"

text \<open>\<open>raw[strings.Index(raw, w):]\<close>; the word is one of the fields of \<open>raw\<close>, so it occurs.\<close>

definition from_index :: "string \<Rightarrow> string \<Rightarrow> string" where
  "from_index raw w = (case index_of raw w of Some i \<Rightarrow> drop i raw | None \<Rightarrow> raw)"

definition parse_command_body :: "string \<Rightarrow> string list \<Rightarrow> string" where
  "parse_command_body raw parts =
     (let body = (if length parts > 3 then trim_space (from_index raw (parts ! 3)) else [])
      in case index_of raw [NL] of
           None \<Rightarrow> body
         | Some i \<Rightarrow>
             if length (str_fields (trim_space (take i raw))) \<ge> 3 then trim_space (drop (i + 1) raw)
             else body)"

definition parse_command :: "string \<Rightarrow> command option" where
  "parse_command text =
     (let t = trim_space text; lower = to_lower t
      in if t = [] then None
         else if lower = ''/onboard status'' then Some OnboardStatus
         else if lower = ''/onboard done'' then Some OnboardDone
         else if has_prefix lower ''/profile apply '' then
           (let i = trim_space (drop (length ''/profile apply '') t)
            in if i = [] then None else Some (ProfileApply i))
         else if lower = ''/profile list'' then Some ProfileList
         else (case str_fields t of
                 p # a # f # ps \<Rightarrow>
                   if to_lower p \<noteq> ''/profile'' then None
                   else (let action = to_lower a; file = normalize_file f;
                             body = parse_command_body t (p # a # f # ps)
                         in if action = ''show'' then Some (ProfileShow file)
                            else if action = ''diff'' then Some (ProfileDiff file body)
                            else if action = ''set'' then Some (ProfileSet file body)
                            else if action = ''append'' then Some (ProfileAppend file body)
                            else None)
               | _ \<Rightarrow> None))"

section \<open>Detection\<close>

definition is_word_char :: "char \<Rightarrow> bool" where "is_word_char c = is_name_char c"

text \<open>
  The class \<open>[\p{L}\p{N} ._\-']\<close> of a rune \<open>r\<close> that starts with the byte \<open>c\<close>, which is the rune
  itself in ASCII; \<open>uni\<close> is the table of letters and numbers above ASCII.
\<close>

definition name_rune :: "(nat \<Rightarrow> bool) \<Rightarrow> char \<Rightarrow> nat \<Rightarrow> bool" where
  "name_rune uni c r =
     (if r < 128 then is_name_char c \<or> c \<in> set '' .-'' \<union> {CHR 0x27}
      else r \<noteq> rune_error \<and> uni r)"

text \<open>Up to \<open>n\<close> runes of the class, as bytes.\<close>

fun take_name :: "(nat \<Rightarrow> bool) \<Rightarrow> nat \<Rightarrow> string \<Rightarrow> string" where
  "take_name uni 0 s = []"
| "take_name uni (Suc n) [] = []"
| "take_name uni (Suc n) (c # s) =
     (case decode_rune c s of (r, k) \<Rightarrow>
        if name_rune uni c r then c # take (k - 1) s @ take_name uni n (drop (k - 1) s) else [])"

text \<open>\<open>(?i)\bphrase (class{1,64})\<close>: the leftmost match; the phrase starts with a word character.\<close>

fun find_phrase :: "(nat \<Rightarrow> bool) \<Rightarrow> string \<Rightarrow> bool \<Rightarrow> string \<Rightarrow> string option" where
  "find_phrase uni phrase after_word [] = None"
| "find_phrase uni phrase after_word (c # s) =
     (case (if after_word then None else fold_prefix phrase (c # s)) of
        Some (_, rest) \<Rightarrow>
          if take_name uni 64 rest \<noteq> [] then Some (take_name uni 64 rest)
          else find_phrase uni phrase (is_word_char c) s
      | None \<Rightarrow> find_phrase uni phrase (is_word_char c) s)"

definition normalize_detected_value :: "string \<Rightarrow> string" where
  "normalize_detected_value raw =
     take 64 (trim_space (trim_right_set (trim_set (trim_space raw) [CHR 0x22, CHR 0x27]) ''.,!?;:''))"

record update_request =
  ur_file :: string
  ur_content :: string
  ur_mode :: string
  ur_reason :: string

definition detect_name ::
    "(nat \<Rightarrow> bool) \<Rightarrow> string \<Rightarrow> string \<Rightarrow> string option" where
  "detect_name uni phrase msg =
     (case find_phrase uni phrase False msg of
        None \<Rightarrow> None
      | Some raw \<Rightarrow>
          if normalize_detected_value raw = [] then None else Some (normalize_detected_value raw))"

definition detected ::
    "string \<Rightarrow> string \<Rightarrow> string \<Rightarrow> string \<Rightarrow> update_request \<times> string" where
  "detected file key reason name =
     (\<lparr>ur_file = file, ur_content = key @ '': '' @ name, ur_mode = ''patch'', ur_reason = reason\<rparr>,
      ''Detected preference: update '' @ file @ '' '' @ key @ '' to '' @ [CHR 0x22] @ name @ [CHR 0x22])"

definition detect_high_confidence ::
    "(nat \<Rightarrow> bool) \<Rightarrow> string \<Rightarrow> (update_request \<times> string) option" where
  "detect_high_confidence uni text =
     (let msg = trim_space text
      in if msg = [] then None
         else (case detect_name uni ''my name is '' msg of
                 Some n \<Rightarrow> Some (detected ''USER.md'' ''Name'' ''auto_detect_my_name'' n)
               | None \<Rightarrow>
                   (case detect_name uni ''call me '' msg of
                      Some n \<Rightarrow> Some (detected ''USER.md'' ''What to call them'' ''auto_detect_call_me'' n)
                    | None \<Rightarrow>
                        (case detect_name uni ''your name is '' msg of
                           Some n \<Rightarrow> Some (detected ''IDENTITY.md'' ''name'' ''auto_detect_your_name'' n)
                         | None \<Rightarrow> None))))"

section \<open>Properties\<close>

text \<open>
  A patch of the identity can destroy a line it does not name. The expression that finds
  the line of a key lets the spaces behind the colon run over the end of the line, so
  setting a name that is still empty replaces the line after it as well.
\<close>

theorem identity_patch_swallows_line:
  "patch_identity (''name:'' @ [NL] @ ''emoji: x'' @ [NL]) ''name: Bob'' = ''name: Bob'' @ [NL]"
  by code_simp

text \<open>
  A value with a dollar is changed. When the key is there already, the new line is used as
  a replacement template, in which a dollar and a name stand for a group: the value loses
  them. Appended to a file that does not have the key, the same value is kept.
\<close>

theorem patch_expands_dollar:
  "patch_user (''- **Name:** Bob'' @ [NL]) ''Name: A$AP Rocky'' = ''- **Name:** A Rocky'' @ [NL]
   \<and> patch_user (''## Profile'' @ [NL]) ''Name: A$AP Rocky''
       = ''## Profile'' @ [NL] @ ''- **Name:** A$AP Rocky'' @ [NL]"
  by code_simp

text \<open>
  The body of a one-line command is cut at the wrong place when its first word also
  occurs earlier in the command: the code looks the word up from the start of the message.
\<close>

theorem command_body_misplaced:
  "parse_command ''/profile append USER.md use tabs'' = Some (ProfileAppend ''USER.md'' ''use tabs'')
   \<and> parse_command ''/profile append USER.md file a bug''
       = Some (ProfileAppend ''USER.md'' ''file append USER.md file a bug'')"
  by code_simp

definition safe_char :: "char \<Rightarrow> bool" where
  "safe_char c \<longleftrightarrow> byte_val c \<ge> 128 \<or> is_name_char c \<or> c \<in> set '' .-'' \<union> {CHR 0x27}"

lemma safe_char_not: "safe_char c \<Longrightarrow> c \<noteq> NL \<and> c \<noteq> CHR ''$'' \<and> c \<noteq> CHR '':'' \<and> c \<noteq> CHR ''*''"
proof -
  have "\<not> safe_char NL" "\<not> safe_char (CHR ''$'')" "\<not> safe_char (CHR '':'')" "\<not> safe_char (CHR ''*'')"
    by code_simp+
  then show "safe_char c \<Longrightarrow> c \<noteq> NL \<and> c \<noteq> CHR ''$'' \<and> c \<noteq> CHR '':'' \<and> c \<noteq> CHR ''*''" by metis
qed

lemma decode_high_bytes:
  assumes "decode_rune c s = (r, k)" "128 \<le> r" "r \<noteq> rune_error"
  shows "\<forall>x \<in> set (c # take (k - 1) s). 128 \<le> byte_val x"
  using assms
  by (auto simp: decode_rune_def Let_def cont_def second_lo_def second_hi_def split: if_splits list.splits)

lemma decode_low:
  assumes "decode_rune c s = (r, k)" "r < 128"
  shows "k = 1 \<and> byte_chr r = c"
  using assms
  by (auto simp: decode_rune_def Let_def cont_def second_lo_def second_hi_def rune_error_def
      split: if_splits list.splits)

lemma take_name_safe: "x \<in> set (take_name uni n s) \<Longrightarrow> safe_char x"
proof (induction uni n s rule: take_name.induct)
  case (3 uni n c s)
  obtain r k where d: "decode_rune c s = (r, k)" by fastforce
  from 3(2) d have nr: "name_rune uni c r" and x: "x \<in> set (c # take (k - 1) s) \<or> x \<in> set (take_name uni n (drop (k - 1) s))"
    by (auto split: if_splits)
  have "safe_char x" if "x \<in> set (c # take (k - 1) s)"
  proof (cases "r < 128")
    case True
    with decode_low [OF d] nr that show ?thesis by (auto simp: name_rune_def safe_char_def)
  next
    case False
    with decode_high_bytes [OF d] nr that show ?thesis by (auto simp: name_rune_def safe_char_def)
  qed
  with 3(1) [OF d [symmetric]] nr x show ?case by auto
qed auto

lemma find_phrase_safe:
  "find_phrase uni phrase b s = Some raw \<Longrightarrow> x \<in> set raw \<Longrightarrow> safe_char x"
proof (induction uni phrase b s rule: find_phrase.induct)
  case (2 uni phrase b c s)
  then show ?case by (auto split: option.splits if_splits dest: take_name_safe)
qed auto

lemma set_normalize_detected: "set (normalize_detected_value raw) \<subseteq> set raw"
proof -
  have "set (dropWhile P xs) \<subseteq> set xs" for P and xs :: string by (auto dest: set_dropWhileD)
  then have "set (trim_set s cs) \<subseteq> set s" for s cs
    unfolding trim_set_def using set_trim_right_set by (meson order_trans)
  then show ?thesis
    unfolding normalize_detected_value_def
    by (meson set_take_subset set_trim_space set_trim_right_set order_trans)
qed

lemma detect_cases:
  assumes "detect_high_confidence uni text = Some (req, summary)"
  shows "\<exists>fl key reason v phrase. detected fl key reason v = (req, summary)
    \<and> detect_name uni phrase (trim_space text) = Some v
    \<and> (fl, key) \<in> {(''USER.md'', ''Name''), (''USER.md'', ''What to call them''), (''IDENTITY.md'', ''name'')}"
proof -
  have c: "(case detect_name uni p m of Some n \<Rightarrow> Some (detected fl key reason n) | None \<Rightarrow> r) = Some q
    \<longleftrightarrow> (\<exists>n. detect_name uni p m = Some n \<and> detected fl key reason n = q)
      \<or> (detect_name uni p m = None \<and> r = Some q)" for p m fl key reason r q
    by (auto split: option.splits)
  from assms have "(\<exists>n. detect_name uni ''my name is '' (trim_space text) = Some n
        \<and> detected ''USER.md'' ''Name'' ''auto_detect_my_name'' n = (req, summary))
    \<or> (\<exists>n. detect_name uni ''call me '' (trim_space text) = Some n
        \<and> detected ''USER.md'' ''What to call them'' ''auto_detect_call_me'' n = (req, summary))
    \<or> (\<exists>n. detect_name uni ''your name is '' (trim_space text) = Some n
        \<and> detected ''IDENTITY.md'' ''name'' ''auto_detect_your_name'' n = (req, summary))"
    unfolding detect_high_confidence_def Let_def by (simp only: c split: if_splits) auto
  then show ?thesis
    by (elim disjE exE conjE) (intro exI conjI, assumption, assumption, simp)+
qed

text \<open>
  What is detected is harmless to write. The value a message proposes is not empty, is at
  most 64 bytes long and holds no line break, dollar, colon or star, so it adds one line to
  the file and is not taken for a template, whatever the tables of Unicode say.
\<close>

theorem detected_value_safe:
  assumes "detect_high_confidence uni text = Some (req, summary)"
  shows "\<exists>key n. ur_content req = key @ '': '' @ n \<and> n \<noteq> [] \<and> length n \<le> 64
    \<and> (\<forall>c \<in> set n. c \<noteq> NL \<and> c \<noteq> CHR ''$'' \<and> c \<noteq> CHR '':'' \<and> c \<noteq> CHR ''*'')
    \<and> (ur_file req, key) \<in> {(''USER.md'', ''Name''), (''USER.md'', ''What to call them''), (''IDENTITY.md'', ''name'')}"
proof -
  have n: "n \<noteq> [] \<and> length n \<le> 64
      \<and> (\<forall>c \<in> set n. c \<noteq> NL \<and> c \<noteq> CHR ''$'' \<and> c \<noteq> CHR '':'' \<and> c \<noteq> CHR ''*'')"
    if "detect_name uni phrase msg = Some n" for phrase msg n
  proof -
    from that obtain raw where raw: "find_phrase uni phrase False msg = Some raw"
      and n: "n = normalize_detected_value raw" "n \<noteq> []"
      by (auto simp: detect_name_def split: option.splits if_splits)
    have "safe_char c" if "c \<in> set n" for c
      using find_phrase_safe [OF raw] set_normalize_detected [of raw] that n(1) by blast
    then show ?thesis using n safe_char_not by (auto simp: normalize_detected_value_def)
  qed
  from detect_cases [OF assms] obtain fl key reason v phrase where
    d: "detected fl key reason v = (req, summary)" "detect_name uni phrase (trim_space text) = Some v"
    "(fl, key) \<in> {(''USER.md'', ''Name''), (''USER.md'', ''What to call them''), (''IDENTITY.md'', ''name'')}"
    by blast
  from d(1) have e: "ur_content req = key @ '': '' @ v" "ur_file req = fl"
    by (auto simp: detected_def)
  show ?thesis unfolding e(2)
    by (rule exI [of _ key], rule exI [of _ v]) (intro conjI e(1) d(3) n [OF d(2), THEN conjunct1]
        n [OF d(2), THEN conjunct2, THEN conjunct1] n [OF d(2), THEN conjunct2, THEN conjunct2])
qed

theorem detected_value_safe_witness:
  "\<exists>key n. ur_content (fst (the (detect_high_confidence (\<lambda>_. False) ''my name is Al'')))
      = key @ '': '' @ n \<and> n \<noteq> [] \<and> length n \<le> 64"
proof -
  have "case detect_high_confidence (\<lambda>_. False) ''my name is Al'' of None \<Rightarrow> False | Some _ \<Rightarrow> True"
    by code_simp
  then obtain req summary where
    d: "detect_high_confidence (\<lambda>_. False) ''my name is Al'' = Some (req, summary)"
    by (auto split: option.splits)
  from detected_value_safe [OF d] d show ?thesis by auto
qed

end
