(* ===== verification/ToolCall.thy ===== *)
theory ToolCall
  imports ProfileText Tools
begin

text \<open>
  How \<open>internal/agentruntime/runtime.go\<close> finds a tool call in the text a model generated. The
  regular expression \<open>toolCallLinePattern\<close> is anchored at both ends of a line; it is translated
  into the matcher it denotes. No choice is left: a name and a label are runs of name
  characters that must be followed by something else, the closing bracket is the last
  character that is not white space, and the arguments are what is between the brackets.
\<close>

section \<open>The pattern\<close>

definition skip_space :: "string \<Rightarrow> string" where "skip_space s = dropWhile re_space s"

definition skip_space_end :: "string \<Rightarrow> string" where "skip_space_end s = rev (skip_space (rev s))"

definition lower_letter :: "char \<Rightarrow> bool" where
  "lower_letter c \<longleftrightarrow> CHR ''a'' \<le> c \<and> c \<le> CHR ''z''"

definition call_char :: "char \<Rightarrow> bool" where
  "call_char c \<longleftrightarrow> lower_letter c \<or> is_digit c \<or> c = CHR ''_''"

text \<open>\<open>(?:[A-Za-z_][A-Za-z0-9_]*\s*:\s*)?\<close>\<close>

definition strip_label :: "string \<Rightarrow> string" where
  "strip_label s =
     (let after = skip_space (dropWhile is_name_char s)
      in if s \<noteq> [] \<and> is_name_char (hd s) \<and> \<not> is_digit (hd s) \<and> has_prefix after '':''
         then skip_space (tl after) else s)"

text \<open>The rest of the pattern: \<open>([a-z][a-z0-9_]*)\s*\(\s*(\{.*\})?\s*\)\s*$\<close>\<close>

definition match_args :: "string \<Rightarrow> string option" where
  "match_args s =
     (let t = skip_space_end s
      in if t = [] \<or> last t \<noteq> CHR '')'' then None
         else (let m = skip_space (skip_space_end (butlast t))
               in if m = [] then Some []
                  else if length m \<ge> 2 \<and> hd m = CHR ''{'' \<and> last m = CHR ''}'' then Some m
                  else None))"

definition match_call :: "string \<Rightarrow> (string \<times> string) option" where
  "match_call line =
     (let s = strip_label (skip_space line);
          name = takeWhile call_char s;
          after = skip_space (dropWhile call_char s)
      in if name = [] \<or> \<not> lower_letter (hd name) \<or> \<not> has_prefix after ''('' then None
         else map_option (\<lambda>args. (name, args)) (match_args (tl after)))"

section \<open>Looking for a call\<close>

text \<open>
  \<open>parseToolCallFromGeneratedText\<close>: the first line that is a call of a registered tool decides,
  with an error when its arguments are not JSON. \<open>None\<close> is \<open>found = false\<close>.
\<close>

definition call_line :: "string \<Rightarrow> string option" where
  "call_line raw =
     (let line = trim_space raw
      in if line = [] \<or> has_prefix line ''```'' then None else Some (trim_set line ''`''))"

fun find_call ::
    "(string \<Rightarrow> go_error + gomap) \<Rightarrow> string list \<Rightarrow> string list \<Rightarrow> (go_error + string \<times> gomap) option" where
  "find_call dec names [] = None"
| "find_call dec names (raw # rest) =
     (case Option.bind (call_line raw) match_call of
        None \<Rightarrow> find_call dec names rest
      | Some (name, args) \<Rightarrow>
          if name \<notin> set names then find_call dec names rest
          else if trim_space args = [] then Some (Inr (name, []))
          else (case dec (trim_space args) of
                  Inl e \<Rightarrow> Some (Inl (''invalid tool input JSON: '' @ e))
                | Inr input \<Rightarrow> Some (Inr (name, input))))"

definition parse_tool_call ::
    "(string \<Rightarrow> go_error + gomap) \<Rightarrow> string list \<Rightarrow> string \<Rightarrow> (go_error + string \<times> gomap) option" where
  "parse_tool_call dec names generated =
     (if names = [] then None else find_call dec names (split_on NL generated))"

section \<open>What is found\<close>

lemma find_call_sound:
  "find_call dec names ls = Some (Inr (name, input)) \<Longrightarrow> name \<in> set names"
  by (induction ls) (auto split: option.splits if_splits sum.splits)

lemma call_char_not_open: "\<not> call_char (CHR ''('')" "\<not> re_space (CHR ''('')"
  by code_simp+

lemma name_char_call: "\<forall>c. call_char c \<longrightarrow> is_name_char c"
  by code_simp

section \<open>A call that is written is found\<close>

definition callable :: "string \<Rightarrow> bool" where
  "callable n \<longleftrightarrow> n \<noteq> [] \<and> lower_letter (hd n) \<and> (\<forall>c \<in> set n. call_char c)"

definition call_args :: "string \<Rightarrow> bool" where
  "call_args a \<longleftrightarrow> a = [] \<or> (\<exists>x. a = ''{'' @ x @ ''}'' \<and> NL \<notin> set x)"

definition print_call :: "string \<Rightarrow> string \<Rightarrow> string" where
  "print_call n a = n @ ''('' @ a @ '')''"

lemma call_char_facts:
  "\<forall>c. call_char c \<longrightarrow> \<not> re_space c \<and> plain_char c \<and> c \<noteq> CHR ''`'' \<and> c \<noteq> NL"
  by code_simp

lemma close_facts: "\<not> re_space (CHR '')'')" "plain_char (CHR '')'')" "\<not> re_space (CHR ''}'')" "\<not> re_space (CHR ''{'')"
  by code_simp+

lemma skip_space_fix: "s = [] \<or> \<not> re_space (hd s) \<Longrightarrow> skip_space s = s"
  by (cases s) (auto simp: skip_space_def)

lemma skip_space_end_fix: "s = [] \<or> \<not> re_space (last s) \<Longrightarrow> skip_space_end s = s"
  by (cases s rule: rev_cases) (auto simp: skip_space_end_def skip_space_def)

lemma match_args_print: "call_args a \<Longrightarrow> match_args (a @ '')'') = Some a"
  by (auto simp: match_args_def Let_def call_args_def skip_space_end_fix skip_space_fix close_facts)

lemma match_call_print:
  assumes n: "callable n" and a: "call_args a"
  shows "match_call (print_call n a) = Some (n, a)"
proof -
  let ?s = "print_call n a"
  from n have nn: "n \<noteq> []" "lower_letter (hd n)" "\<forall>c \<in> set n. call_char c" by (simp_all add: callable_def)
  then have h: "call_char (hd n)" by simp
  have hs: "hd ?s = hd n" using nn by (simp add: print_call_def)
  have sp: "skip_space ?s = ?s" using h call_char_facts hs by (intro skip_space_fix) auto
  have all: "\<forall>c \<in> set n. is_name_char c" using nn name_char_call by blast
  have no: "\<not> is_name_char (CHR ''('')" by code_simp
  have dn: "dropWhile is_name_char ?s = ''('' @ a @ '')''"
    using all no by (simp add: print_call_def dropWhile_append)
  have lab: "strip_label ?s = ?s"
    using dn call_char_not_open by (simp add: strip_label_def skip_space_fix)
  have tk: "takeWhile call_char ?s = n" "dropWhile call_char ?s = ''('' @ a @ '')''"
    using nn call_char_not_open by (simp_all add: print_call_def takeWhile_append dropWhile_append)
  show ?thesis
    using nn match_args_print [OF a] call_char_not_open
    by (simp add: match_call_def Let_def sp lab tk skip_space_fix)
qed

lemma call_line_print:
  assumes n: "callable n"
  shows "call_line (print_call n a) = Some (print_call n a)"
proof -
  let ?s = "print_call n a"
  from n have h: "n \<noteq> []" "call_char (hd n)" by (auto simp: callable_def)
  have ends: "?s \<noteq> []" "hd ?s = hd n" "last ?s = CHR '')''" using h by (simp_all add: print_call_def)
  then have t: "trim_space ?s = ?s"
    using h call_char_facts close_facts by (intro trim_space_plain) auto
  have tick: "hd ?s \<noteq> CHR ''`''" using ends h call_char_facts by auto
  then have "dropWhile (\<lambda>x. x \<in> set ''`'') ?s = ?s" using ends by (cases ?s) auto
  moreover have "trim_right_set ?s ''`'' = ?s" using ends by (intro trim_right_set_id) auto
  ultimately have "trim_set ?s ''`'' = ?s" by (simp add: trim_set_def)
  moreover have "\<not> has_prefix ?s ''```''" using tick ends by (cases ?s) auto
  ultimately show ?thesis using t ends by (simp add: call_line_def)
qed

lemma print_call_one_line:
  assumes "callable n" "call_args a"
  shows "NL \<notin> set (print_call n a)"
  using assms call_char_facts by (auto simp: print_call_def callable_def call_args_def)

lemma call_args_trimmed: "call_args a \<Longrightarrow> trim_space a = a"
proof -
  assume "call_args a"
  then consider "a = []" | x where "a = ''{'' @ x @ ''}''" by (auto simp: call_args_def)
  then show ?thesis
  proof cases
    case 2
    then show ?thesis by (intro trim_space_plain) (simp_all add: plain_char_def)
  qed simp
qed

text \<open>
  C36: what is called is what was meant. A line that calls a registered tool by its name with a
  JSON object, or with nothing, between the brackets is found, whatever lines that are no
  calls come before it and whatever text comes after it; the tool and the object are the
  ones of that line.
\<close>

theorem written_call_found:
  assumes "callable n" "call_args a" "n \<in> set names"
    and "\<forall>l \<in> set before. Option.bind (call_line l) match_call = None \<and> NL \<notin> set l"
  shows "parse_tool_call dec names (join [NL] (before @ [print_call n a] @ split_on NL after)) =
    Some (if a = [] then Inr (n, [])
          else case dec a of Inl e \<Rightarrow> Inl (''invalid tool input JSON: '' @ e) | Inr i \<Rightarrow> Inr (n, i))"
proof -
  let ?ls = "before @ [print_call n a] @ split_on NL after"
  have "\<forall>l \<in> set ?ls. NL \<notin> set l"
    using assms(4) print_call_one_line [OF assms(1,2)] split_on_no_sep by auto
  then have sp: "split_on NL (join [NL] ?ls) = ?ls" by (intro split_on_join) auto
  have find: "find_call dec names (before @ rest) = find_call dec names rest" for rest
    using assms(4) by (induction before) (auto split: option.splits)
  have "Option.bind (call_line (print_call n a)) match_call = Some (n, a)"
    using assms by (simp add: call_line_print match_call_print)
  moreover have "names \<noteq> []" using assms(3) by auto
  ultimately show ?thesis
    unfolding parse_tool_call_def sp find
    using assms(3) call_args_trimmed [OF assms(2)] by (auto split: sum.splits)
qed

theorem written_call_found_witness:
  "parse_tool_call (\<lambda>_. Inr [(''tz'', VStr ''UTC'')]) [''time_now'', ''shell'']
     (join [NL] ([''Let me look.'', ''''] @ [print_call ''time_now'' ''{x}''] @ split_on NL ''shell()''))
   = Some (Inr (''time_now'', [(''tz'', VStr ''UTC'')]))"
proof -
  have "\<forall>l \<in> set [''Let me look.'', '''']. Option.bind (call_line l) match_call = None \<and> NL \<notin> set l"
    by code_simp
  moreover have "callable ''time_now''" by code_simp
  moreover have "call_args ''{x}''" by (auto simp: call_args_def intro: exI [of _ "''x''"])
  ultimately show ?thesis
    using written_call_found [of "''time_now''" "''{x}''" "[''time_now'', ''shell'']" "[''Let me look.'', '''']"
        "\<lambda>_. Inr [(''tz'', VStr ''UTC'')]" "''shell()''"]
    by simp
qed

end
