(* ===== verification/Profile.thy ===== *)
theory Profile
  imports ProfileText
begin

text \<open>
  The service of \<open>internal/profile\<close>: reading and updating the files of a workspace that users
  may edit (\<open>service.go\<close>, \<open>validator.go\<close>, \<open>store.go\<close>), and proposals that live for a while
  and are applied on demand (\<open>proposals.go\<close>). An update runs under a lock per file, so it is
  one step; the clock is an argument.
\<close>

section \<open>State\<close>

record proposal =
  pp_id :: string
  pp_session :: string
  pp_request :: update_request
  pp_summary :: string
  pp_created :: gtime
  pp_expires :: gtime

record profile =
  pf_workspace :: string
  pf_mode :: string
  pf_auto :: bool
  pf_allowed :: "string list"
  pf_max :: int
  pf_ttl :: int
  pf_proposals :: "(string \<times> proposal) list"

record profile_options =
  px_mode :: string
  px_auto :: bool
  px_files :: "string list"
  px_max :: int
  px_ttl :: int

definition default_allowed_files :: "string list" where
  "default_allowed_files =
     [''IDENTITY.md'', ''SOUL.md'', ''USER.md'', ''TOOLS.md'', ''AGENTS.md'', ''MEMORY.md'']"

definition new_profile :: "string \<Rightarrow> profile_options \<Rightarrow> profile" where
  "new_profile dir c =
     (let files = (if px_files c = [] then default_allowed_files else px_files c)
      in \<lparr>pf_workspace = dir, pf_mode = normal_key (px_mode c), pf_auto = px_auto c,
          pf_allowed = remdups (map to_upper (filter (\<lambda>n. n \<noteq> []) (map normalize_file files))),
          pf_max = (if px_max c \<le> 0 then 262144 else px_max c),
          pf_ttl = (if px_ttl c \<le> 0 then 600 * second_ns else px_ttl c),
          pf_proposals = []\<rparr>)"

definition forbidden_file :: go_error where "forbidden_file = ''FORBIDDEN_FILE''"
definition file_too_large :: go_error where "file_too_large = ''FILE_TOO_LARGE''"
definition internal_error :: go_error where "internal_error = ''INTERNAL''"
definition proposal_invalid :: go_error where "proposal_invalid = ''PROPOSAL_INVALID''"

definition validate_file :: "string \<Rightarrow> string list \<Rightarrow> go_error option" where
  "validate_file name allow =
     (if name = [] then Some forbidden_file
      else if contains name ''/'' \<or> contains name [CHR 0x5C] then Some forbidden_file
      else if to_upper name \<notin> set allow then Some forbidden_file
      else None)"

definition validate_size :: "string \<Rightarrow> int \<Rightarrow> go_error option" where
  "validate_size body n =
     (if int (length body) > (if n \<le> 0 then 262144 else n) then Some file_too_large else None)"

section \<open>Reading\<close>

record get_result =
  gr_file :: string
  gr_content :: string
  gr_updated :: gtime
  gr_writable :: bool

definition file_mod_time :: "fs \<Rightarrow> string \<Rightarrow> gtime" where
  "file_mod_time s p = (case stat s p of Inr (NFile _ t) \<Rightarrow> t | Inr NDir \<Rightarrow> zero_time | Inl _ \<Rightarrow> zero_time)"

definition profile_get :: "profile \<Rightarrow> fs \<Rightarrow> string \<Rightarrow> go_error + get_result" where
  "profile_get p s file =
     (let name = normalize_file file; path = path_join [pf_workspace p, name]
      in case validate_file name (pf_allowed p) of
           Some e \<Rightarrow> Inl e
         | None \<Rightarrow>
             (case read_file s path of
                Inl NotExist \<Rightarrow>
                  Inr \<lparr>gr_file = name, gr_content = [], gr_updated = zero_time, gr_writable = True\<rparr>
              | Inl (IoError _) \<Rightarrow> Inl internal_error
              | Inr b \<Rightarrow>
                  Inr \<lparr>gr_file = name, gr_content = b, gr_updated = file_mod_time s path,
                       gr_writable = True\<rparr>))"

section \<open>Updating\<close>

record update_result =
  us_ok :: bool
  us_file :: string
  us_updated :: gtime
  us_bytes :: int

text \<open>\<open>previewUpdate\<close>: an error of the read leaves an empty text.\<close>

definition current_text :: "fs \<Rightarrow> string \<Rightarrow> string" where
  "current_text s path = (case read_file s path of Inl _ \<Rightarrow> [] | Inr b \<Rightarrow> b)"

definition preview_update :: "fs \<Rightarrow> string \<Rightarrow> update_mode \<Rightarrow> string \<Rightarrow> go_error + string" where
  "preview_update s path mode body =
     (case mode of
        Append \<Rightarrow> Inr (append_text (current_text s path) body)
      | Patch \<Rightarrow> patch_text (path_base path) (current_text s path) body
      | Replace \<Rightarrow> Inr body)"

definition apply_update ::
    "gtime \<Rightarrow> string \<Rightarrow> update_mode \<Rightarrow> string \<Rightarrow> fs \<Rightarrow> (go_error + update_result) \<times> fs" where
  "apply_update now path mode body s =
     (case preview_update s path mode body of
        Inl e \<Rightarrow> (Inl e, s)
      | Inr next_text \<Rightarrow>
          (case write_file now (path @ ''.tmp'') next_text s of
             Inl _ \<Rightarrow> (Inl internal_error, s)
           | Inr s1 \<Rightarrow>
               (case rename (path @ ''.tmp'') path s1 of
                  Inl _ \<Rightarrow> (Inl internal_error, s1)
                | Inr s2 \<Rightarrow>
                    (case stat s2 path of
                       Inl _ \<Rightarrow> (Inl internal_error, s2)
                     | Inr n \<Rightarrow>
                         (Inr \<lparr>us_ok = True, us_file = path_base path,
                               us_updated = (case n of NFile _ t \<Rightarrow> t | NDir \<Rightarrow> zero_time),
                               us_bytes = int (length next_text)\<rparr>, s2)))))"

definition profile_path :: "profile \<Rightarrow> string \<Rightarrow> string" where
  "profile_path p file = path_join [pf_workspace p, normalize_file file]"

definition profile_update ::
    "gtime \<Rightarrow> profile \<Rightarrow> update_request \<Rightarrow> fs \<Rightarrow> (go_error + update_result) \<times> fs" where
  "profile_update now p req s =
     (case validate_file (normalize_file (ur_file req)) (pf_allowed p) of
        Some e \<Rightarrow> (Inl e, s)
      | None \<Rightarrow>
          (case validate_size (ur_content req) (pf_max p) of
             Some e \<Rightarrow> (Inl e, s)
           | None \<Rightarrow>
               (case mkdir_all (path_dir (profile_path p (ur_file req))) s of
                  Inl _ \<Rightarrow> (Inl internal_error, s)
                | Inr s1 \<Rightarrow>
                    apply_update now (profile_path p (ur_file req))
                      (normalize_mode (ur_mode req) (pf_mode p)) (ur_content req) s1)))"

definition profile_preview ::
    "profile \<Rightarrow> update_request \<Rightarrow> fs \<Rightarrow> (go_error + string) \<times> fs" where
  "profile_preview p req s =
     (case validate_file (normalize_file (ur_file req)) (pf_allowed p) of
        Some e \<Rightarrow> (Inl e, s)
      | None \<Rightarrow>
          (case validate_size (ur_content req) (pf_max p) of
             Some e \<Rightarrow> (Inl e, s)
           | None \<Rightarrow>
               (case mkdir_all (path_dir (profile_path p (ur_file req))) s of
                  Inl _ \<Rightarrow> (Inl internal_error, s)
                | Inr s1 \<Rightarrow>
                    (preview_update s1 (profile_path p (ur_file req))
                       (normalize_mode (ur_mode req) (pf_mode p)) (ur_content req), s1))))"

definition display_file_name :: "string \<Rightarrow> string" where
  "display_file_name name =
     (case split_n2 (CHR ''.'') (trim_space name) of
        [a, b] \<Rightarrow> to_upper a @ ''.'' @ to_lower b
      | _ \<Rightarrow> trim_space name)"

definition profile_allowed_files :: "profile \<Rightarrow> string list" where
  "profile_allowed_files p = sort (map display_file_name (pf_allowed p))"

section \<open>Proposals\<close>

definition proposal_create ::
    "gtime \<Rightarrow> string \<Rightarrow> update_request \<Rightarrow> string \<Rightarrow> profile \<Rightarrow> proposal \<times> profile" where
  "proposal_create now session req summary p =
     (let pr = \<lparr>pp_id = ''prop-'' @ itoa (nanos now), pp_session = session, pp_request = req,
                pp_summary = summary, pp_created = now, pp_expires = time_add now (pf_ttl p)\<rparr>
      in (pr, p\<lparr>pf_proposals := put (pp_id pr) pr (pf_proposals p)\<rparr>))"

definition proposal_get :: "gtime \<Rightarrow> string \<Rightarrow> profile \<Rightarrow> proposal option \<times> profile" where
  "proposal_get now i p =
     (case map_of (pf_proposals p) i of
        None \<Rightarrow> (None, p)
      | Some pr \<Rightarrow>
          if now > pp_expires pr then (None, p\<lparr>pf_proposals := del i (pf_proposals p)\<rparr>)
          else (Some pr, p))"

definition proposal_delete :: "string \<Rightarrow> profile \<Rightarrow> profile" where
  "proposal_delete i p = p\<lparr>pf_proposals := del i (pf_proposals p)\<rparr>"

definition newer :: "proposal \<Rightarrow> proposal option \<Rightarrow> proposal option" where
  "newer p best =
     (case best of None \<Rightarrow> Some p | Some b \<Rightarrow> if pp_created p > pp_created b then Some p else best)"

definition proposal_latest ::
    "gtime \<Rightarrow> string \<Rightarrow> string \<Rightarrow> profile \<Rightarrow> proposal option \<times> profile" where
  "proposal_latest now session file p =
     (let live = filter (\<lambda>(_, pr). \<not> now > pp_expires pr) (pf_proposals p);
          fits = filter (\<lambda>pr. trim_space (pp_session pr) = trim_space session
                   \<and> to_upper (trim_space (ur_file (pp_request pr))) = to_upper (trim_space file))
                 (map snd live)
      in (fold newer fits None, p\<lparr>pf_proposals := live\<rparr>))"

definition latest_proposal :: "gtime \<Rightarrow> string \<Rightarrow> string \<Rightarrow> profile \<Rightarrow> proposal option \<times> profile" where
  "latest_proposal now session file p = proposal_latest now session (normalize_file file) p"

definition maybe_create_proposal ::
    "(nat \<Rightarrow> bool) \<Rightarrow> gtime \<Rightarrow> string \<Rightarrow> string \<Rightarrow> profile \<Rightarrow> proposal option \<times> profile" where
  "maybe_create_proposal uni now session text p =
     (if \<not> pf_auto p \<or> normal_key (pf_mode p) \<notin> {''hybrid'', ''auto''} then (None, p)
      else (case detect_high_confidence uni text of
              None \<Rightarrow> (None, p)
            | Some (req, summary) \<Rightarrow>
                if validate_file (ur_file req) (pf_allowed p) \<noteq> None then (None, p)
                else if validate_size (ur_content req) (pf_max p) \<noteq> None then (None, p)
                else (case proposal_create now session req summary p of
                        (pr, p') \<Rightarrow> (Some pr, p'))))"

definition apply_proposal ::
    "gtime \<Rightarrow> string \<Rightarrow> string \<Rightarrow> profile \<Rightarrow> fs \<Rightarrow> (go_error + update_result) \<times> profile \<times> fs" where
  "apply_proposal now session i p s =
     (case proposal_get now (trim_space i) p of
        (None, p') \<Rightarrow> (Inl proposal_invalid, p', s)
      | (Some pr, p') \<Rightarrow>
          if trim_space (pp_session pr) \<noteq> trim_space session then (Inl proposal_invalid, p', s)
          else (case profile_update now p' (pp_request pr) s of
                  (Inl e, s') \<Rightarrow> (Inl e, p', s')
                | (Inr r, s') \<Rightarrow> (Inr r, proposal_delete (pp_id pr) p', s')))"

section \<open>Properties of updates\<close>

definition file_of :: "fs \<Rightarrow> string \<Rightarrow> string option" where
  "file_of s p = (case fs_get s p of Some (NFile c _) \<Rightarrow> Some c | _ \<Rightarrow> None)"

lemma file_of_iff: "file_of s q = Some c \<longleftrightarrow> (\<exists>t. fs_get s q = Some (NFile c t))"
  by (auto simp: file_of_def split: option.splits node.splits)

lemma file_of_mkdir: assumes "mkdir_all p s = Inr s'" shows "file_of s' q = file_of s q"
proof -
  have "file_of s' q = Some c \<longleftrightarrow> file_of s q = Some c" for c
    by (simp add: file_of_iff mkdir_all_files [OF assms])
  then show ?thesis by (cases "file_of s q"; cases "file_of s' q") auto
qed

lemma file_of_write:
  "write_file now p c s = Inr s' \<Longrightarrow> file_of s' q = (if q = p then Some c else file_of s q)"
  by (auto simp: file_of_def fs_defs split: option.splits if_splits)

lemma file_of_rename:
  "rename a b s = Inr s' \<Longrightarrow> q \<noteq> a \<Longrightarrow> file_of s' q = (if q = b then file_of s a else file_of s q)"
  using rename_result [of a b s s'] by (auto simp: file_of_def)

lemma path_tmp_neq [simp]: "p @ ''.tmp'' \<noteq> p" "p \<noteq> p @ ''.tmp''"
  by simp_all

lemma current_text_mkdir:
  assumes "mkdir_all d s = Inr s1" shows "current_text s1 p = current_text s p"
proof -
  have f: "file_of s1 p = file_of s p" and "fs_fault s1 = fs_fault s"
    using file_of_mkdir [OF assms] mkdir_all_fault [OF assms] by auto
  then show ?thesis
    by (auto simp: current_text_def read_file_def guard_fault_def file_of_def
        split: option.splits node.splits)
qed

lemma apply_update_files:
  assumes "apply_update now path mode body s = (r, s')" "q \<noteq> path @ ''.tmp''"
  shows "file_of s' q = file_of s q \<or>
    (q = path \<and> (\<exists>t. preview_update s path mode body = Inr t \<and> file_of s' q = Some t))"
  using assms
  by (auto simp: apply_update_def file_of_write file_of_rename split: sum.splits)

lemma apply_update_ok:
  assumes "apply_update now path mode body s = (Inr r, s')"
  shows "\<exists>t. preview_update s path mode body = Inr t \<and> file_of s' path = Some t
    \<and> us_bytes r = int (length t)"
  using assms
  by (auto simp: apply_update_def file_of_write file_of_rename split: sum.splits)

definition allowed_target :: "profile \<Rightarrow> string \<Rightarrow> bool" where
  "allowed_target p q \<longleftrightarrow> (\<exists>name. to_upper name \<in> set (pf_allowed p) \<and> CHR ''/'' \<notin> set name
     \<and> CHR 0x5C \<notin> set name \<and> name \<noteq> [] \<and> q = path_join [pf_workspace p, name])"

lemma validate_file_None:
  "validate_file name allow = None \<longleftrightarrow> name \<noteq> [] \<and> CHR ''/'' \<notin> set name \<and> CHR 0x5C \<notin> set name
     \<and> to_upper name \<in> set allow"
  by (auto simp: validate_file_def contains_char)

lemma update_cases:
  assumes "profile_update now p req s = (r, s')"
  obtains (rejected) e where "r = Inl e" "s' = s"
  | (applied) s1 where "allowed_target p (profile_path p (ur_file req))"
      "int (length (ur_content req)) \<le> (if pf_max p \<le> 0 then 262144 else pf_max p)"
      "mkdir_all (path_dir (profile_path p (ur_file req))) s = Inr s1"
      "apply_update now (profile_path p (ur_file req)) (normalize_mode (ur_mode req) (pf_mode p))
         (ur_content req) s1 = (r, s')"
proof -
  have t: "allowed_target p (profile_path p (ur_file req))"
    if "validate_file (normalize_file (ur_file req)) (pf_allowed p) = None"
    using that unfolding validate_file_None allowed_target_def profile_path_def by blast
  have "validate_size (ur_content req) (pf_max p) = None \<Longrightarrow>
      int (length (ur_content req)) \<le> (if pf_max p \<le> 0 then 262144 else pf_max p)"
    by (simp add: validate_size_def split: if_splits)
  with t that assms show ?thesis
    by (auto simp: profile_update_def split: option.splits sum.splits)
qed

text \<open>
  C29: an update is confined. Whatever file a request names and whatever fails, the only file
  that can change, besides a temporary one, is a file of the workspace whose upper-case name
  is in the allow list; a path that climbs out, or a name with a slash or backslash, changes
  nothing. And what it changes to is exactly what the preview of the same request shows.
\<close>

theorem update_confined:
  assumes "profile_update now p req s = (r, s')"
    and "file_of s' q \<noteq> file_of s q" "q \<noteq> profile_path p (ur_file req) @ ''.tmp''"
  shows "q = profile_path p (ur_file req) \<and> allowed_target p q
    \<and> int (length (ur_content req)) \<le> (if pf_max p \<le> 0 then 262144 else pf_max p)
    \<and> (\<exists>t. fst (profile_preview p req s) = Inr t \<and> file_of s' q = Some t)"
  using assms(1)
proof (cases rule: update_cases)
  case (rejected e)
  with assms(2) show ?thesis by simp
next
  case (applied s1)
  then have "file_of s1 q = file_of s q" by (auto intro: file_of_mkdir)
  with apply_update_files [OF applied(4) assms(3)] assms(2) obtain t where
    q: "q = profile_path p (ur_file req)" and
    t: "preview_update s1 (profile_path p (ur_file req)) (normalize_mode (ur_mode req) (pf_mode p))
         (ur_content req) = Inr t" "file_of s' q = Some t" by auto
  have "validate_file (normalize_file (ur_file req)) (pf_allowed p) = None"
    and "validate_size (ur_content req) (pf_max p) = None"
    using assms(1,2) by (auto simp: profile_update_def split: option.splits)
  with applied t have "fst (profile_preview p req s) = Inr t"
    by (simp add: profile_preview_def)
  with q t applied show ?thesis by auto
qed

definition demo_options :: profile_options where
  "demo_options = \<lparr>px_mode = ''hybrid'', px_auto = True, px_files = [], px_max = 8, px_ttl = 0\<rparr>"

definition demo_profile :: profile where "demo_profile = new_profile ''w'' demo_options"

definition demo_fs :: fs where
  "demo_fs = \<lparr>fs_ents = [(''w'', NDir), (''w/SOUL.md'', NFile ''calm'' (GTime 0))], fs_fault = (\<lambda>_ _. None)\<rparr>"

definition demo_request :: "string \<Rightarrow> update_request" where
  "demo_request mode = \<lparr>ur_file = ''../SOUL.md'', ur_content = ''and kind'', ur_mode = mode, ur_reason = []\<rparr>"

theorem update_confined_witness:
  "allowed_target demo_profile ''w/SOUL.md''
   \<and> file_of (snd (profile_update (GTime 1) demo_profile (demo_request ''replace'') demo_fs)) ''w/SOUL.md''
       = Some ''and kind''"
proof -
  let ?u = "profile_update (GTime 1) demo_profile (demo_request ''replace'') demo_fs"
  have f: "file_of (snd ?u) ''w/SOUL.md'' = Some ''and kind''"
    "file_of demo_fs ''w/SOUL.md'' = Some ''calm''"
    "profile_path demo_profile (ur_file (demo_request ''replace'')) = ''w/SOUL.md''" by code_simp+
  from update_confined [of "GTime 1" demo_profile "demo_request ''replace''" demo_fs "fst ?u" "snd ?u"
      "''w/SOUL.md''"] f show ?thesis by simp
qed

text \<open>
  The size limit is on the request and not on the file. A request within the limit is
  appended to whatever is there, so that the file can grow past it without end.
\<close>

theorem append_exceeds_limit:
  assumes "file_of s (profile_path p (ur_file req)) = Some old"
    and "trim_right_set old [NL] \<noteq> []" "trim_space (ur_content req) \<noteq> []"
    and "fs_fault s OpRead (profile_path p (ur_file req)) = None"
    and "normalize_mode (ur_mode req) (pf_mode p) = Append"
    and "profile_update now p req s = (Inr r, s')"
  shows "us_bytes r = int (length (trim_right_set old [NL]) + length (trim_space (ur_content req)) + 3)"
  using assms(6)
proof (cases rule: update_cases)
  case (applied s1)
  have c: "current_text s (profile_path p (ur_file req)) = old"
    using assms(1,4) by (auto simp: current_text_def read_file_def guard_fault_def file_of_def
        split: option.splits node.splits)
  from apply_update_ok [OF applied(4)] assms(2,3,5) show ?thesis
    by (auto simp: preview_update_def current_text_mkdir [OF applied(3)] c append_text_def Let_def)
qed simp

theorem append_exceeds_limit_witness:
  "\<exists>r s'. profile_update (GTime 1) demo_profile (demo_request ''append'') demo_fs = (Inr r, s')
    \<and> us_bytes r > pf_max demo_profile"
proof -
  let ?req = "demo_request ''append''"
  let ?u = "profile_update (GTime 1) demo_profile ?req demo_fs"
  have "is_ok (fst ?u)" by code_simp
  then obtain r where u: "?u = (Inr r, snd ?u)" by (auto simp: is_ok_iff prod_eq_iff)
  have h: "file_of demo_fs (profile_path demo_profile (ur_file ?req)) = Some ''calm''"
    "trim_right_set ''calm'' [NL] \<noteq> []" "trim_space (ur_content ?req) \<noteq> []"
    "normalize_mode (ur_mode ?req) (pf_mode demo_profile) = Append" by code_simp+
  have f: "fs_fault demo_fs OpRead (profile_path demo_profile (ur_file ?req)) = None"
    by (simp add: demo_fs_def)
  have "int (length (trim_right_set ''calm'' [NL]) + length (trim_space (ur_content ?req)) + 3)
      > pf_max demo_profile" by code_simp
  with append_exceeds_limit [OF h(1,2,3) f h(4) u] u show ?thesis by auto
qed

text \<open>
  An append to a file that cannot be read replaces it. The error of the read is dropped and
  the text taken to be empty, and since the new text reaches the file by a rename, the update
  succeeds and what the file held is gone.
\<close>

theorem unreadable_append_overwrites:
  assumes "fs_fault s OpRead (profile_path p (ur_file req)) = Some e"
    and "normalize_mode (ur_mode req) (pf_mode p) = Append"
    and "profile_update now p req s = (Inr r, s')"
  shows "file_of s' (profile_path p (ur_file req)) = Some (trim_space (ur_content req) @ [NL])"
  using assms(3)
proof (cases rule: update_cases)
  case (applied s1)
  have "current_text s (profile_path p (ur_file req)) = []"
    using assms(1) by (simp add: current_text_def read_file_def guard_fault_def)
  with apply_update_ok [OF applied(4)] assms(2) show ?thesis
    by (auto simp: preview_update_def current_text_mkdir [OF applied(3)] append_text_def Let_def)
qed simp

definition unreadable_fs :: fs where
  "unreadable_fs = demo_fs\<lparr>fs_fault := (\<lambda>op _. if op = OpRead then Some ''input/output error'' else None)\<rparr>"

theorem unreadable_append_overwrites_witness:
  "file_of unreadable_fs ''w/SOUL.md'' = Some ''calm''
   \<and> file_of (snd (profile_update (GTime 1) demo_profile (demo_request ''append'') unreadable_fs)) ''w/SOUL.md''
       = Some (''and kind'' @ [NL])"
proof -
  let ?req = "demo_request ''append''"
  let ?u = "profile_update (GTime 1) demo_profile ?req unreadable_fs"
  have "is_ok (fst ?u)" by code_simp
  then obtain r where u: "?u = (Inr r, snd ?u)" by (auto simp: is_ok_iff prod_eq_iff)
  have h: "normalize_mode (ur_mode ?req) (pf_mode demo_profile) = Append"
    "profile_path demo_profile (ur_file ?req) = ''w/SOUL.md''"
    "trim_space (ur_content ?req) = ''and kind''"
    "file_of unreadable_fs ''w/SOUL.md'' = Some ''calm''" by code_simp+
  have f: "fs_fault unreadable_fs OpRead (profile_path demo_profile (ur_file ?req)) = Some ''input/output error''"
    by (simp add: unreadable_fs_def)
  from unreadable_append_overwrites [OF f h(1) u] h show ?thesis by simp
qed

section \<open>Properties of proposals\<close>

lemma apply_proposal_cases:
  assumes "apply_proposal now session i p s = (r, p', s')"
  shows "(r = Inl proposal_invalid \<and> s' = s) \<or>
    (\<exists>pr. map_of (pf_proposals p) (trim_space i) = Some pr \<and> \<not> now > pp_expires pr
       \<and> trim_space (pp_session pr) = trim_space session
       \<and> (r, s') = profile_update now p (pp_request pr) s
       \<and> p' = (if is_ok r then proposal_delete (pp_id pr) p else p))"
  using assms
  by (auto simp: apply_proposal_def proposal_get_def split: option.splits sum.splits if_splits prod.splits)


definition demo_pending :: profile where
  "demo_pending = snd (proposal_create (GTime 5) ''k'' (demo_request ''replace'') ''s'' demo_profile)"


end
