(* ===== verification/Workspace.thy ===== *)
theory Workspace
  imports Profile
begin

text \<open>
  The workspace of an agent: \<open>internal/workspace/files.go\<close> (layout, onboarding),
  \<open>internal/bootstrap/service.go\<close> (the context of a run), \<open>internal/identity\<close>,
  \<open>internal/soul\<close> and \<open>internal/memory\<close>. The JSON of the onboarding state and the formatted
  time are arguments.
\<close>

section \<open>Onboarding state\<close>

record onboarding =
  ob_version :: int
  ob_seeded :: string
  ob_done :: string

definition state_path :: "string \<Rightarrow> string" where
  "state_path root = path_join [root, ''.nisix'', ''workspace_state.json'']"

definition read_state :: "(string \<Rightarrow> go_error + onboarding) \<Rightarrow> string \<Rightarrow> fs \<Rightarrow> go_error + onboarding" where
  "read_state dec root s =
     (case read_file s (state_path root) of
        Inl NotExist \<Rightarrow> Inr \<lparr>ob_version = 1, ob_seeded = [], ob_done = []\<rparr>
      | Inl (IoError e) \<Rightarrow> Inl (''workspace: read state: '' @ e)
      | Inr b \<Rightarrow>
          (case dec b of
             Inl e \<Rightarrow> Inl (''workspace: parse state: '' @ e)
           | Inr st \<Rightarrow> Inr (st\<lparr>ob_version := (if ob_version st = 0 then 1 else ob_version st)\<rparr>)))"

definition write_state ::
    "(onboarding \<Rightarrow> go_error + string) \<Rightarrow> gtime \<Rightarrow> string \<Rightarrow> onboarding \<Rightarrow> fs \<Rightarrow> go_error option \<times> fs" where
  "write_state enc now root st s =
     (case mkdir_all (path_dir (state_path root)) s of
        Inl e \<Rightarrow> (Some (''workspace: mkdir state dir: '' @ io_msg e), s)
      | Inr s1 \<Rightarrow>
          (case enc (st\<lparr>ob_version := 1\<rparr>) of
             Inl e \<Rightarrow> (Some e, s1)
           | Inr b \<Rightarrow>
               (case write_file now (state_path root @ ''.tmp'') (b @ [NL]) s1 of
                  Inl e \<Rightarrow> (Some (io_msg e), s1)
                | Inr s2 \<Rightarrow>
                    (case rename (state_path root @ ''.tmp'') (state_path root) s2 of
                       Inl e \<Rightarrow> (Some (io_msg e), s2)
                     | Inr s3 \<Rightarrow> (None, s3)))))"

section \<open>Layout\<close>

definition bootstrap_md :: string where "bootstrap_md = ''BOOTSTRAP.md''"

definition bootstrap_files :: "string list" where
  "bootstrap_files =
     [''AGENTS.md'', ''IDENTITY.md'', ''SOUL.md'', ''TOOLS.md'', ''USER.md'', ''MEMORY.md'',
      ''POLICY.md'', ''ROUTING.md'', ''MODELS.md'', bootstrap_md, ''memory/README.md'',
      ''skills/README.md'']"

definition default_template_dir :: "string \<Rightarrow> string" where
  "default_template_dir root = path_join [path_dir root, ''templates'']"

definition is_workspace_new :: "string \<Rightarrow> fs \<Rightarrow> bool" where
  "is_workspace_new root s \<longleftrightarrow>
     \<not> (\<exists>rel \<in> set bootstrap_files. stat_ok s (path_join [root, rel]))
     \<and> \<not> stat_ok s (path_join [root, ''memory''])"

definition template_content :: "string \<Rightarrow> string \<Rightarrow> bool \<Rightarrow> fs \<Rightarrow> string" where
  "template_content tdir rel use_template s =
     (if use_template
      then (case read_file s (path_join [tdir, rel]) of
              Inl _ \<Rightarrow> [NL]
            | Inr b \<Rightarrow> if b = [] \<or> last b \<noteq> NL then b @ [NL] else b)
      else [NL])"

definition ensure_file ::
    "gtime \<Rightarrow> string \<Rightarrow> string \<Rightarrow> bool \<Rightarrow> string \<Rightarrow> fs \<Rightarrow> (go_error + bool) \<times> fs" where
  "ensure_file now root tdir use_template rel s =
     (let p = path_join [root, rel]
      in case mkdir_all (path_dir p) s of
           Inl e \<Rightarrow> (Inl (''workspace: mkdir '' @ p @ '': '' @ io_msg e), s)
         | Inr s1 \<Rightarrow>
             if stat_ok s1 p then (Inr False, s1)
             else (case write_file now p (template_content tdir rel use_template s1) s1 of
                     Inl e \<Rightarrow> (Inl (''workspace: write '' @ p @ '': '' @ io_msg e), s1)
                   | Inr s2 \<Rightarrow> (Inr True, s2)))"

definition skip_file :: "onboarding \<Rightarrow> bool \<Rightarrow> string \<Rightarrow> bool" where
  "skip_file st is_new rel \<longleftrightarrow>
     rel = bootstrap_md \<and> (ob_done st \<noteq> [] \<or> (\<not> is_new \<and> ob_seeded st = []))"

fun ensure_files ::
    "(string \<Rightarrow> fs \<Rightarrow> (go_error + bool) \<times> fs) \<Rightarrow> (string \<Rightarrow> bool) \<Rightarrow> string list \<Rightarrow> bool \<Rightarrow> fs
      \<Rightarrow> (go_error + bool) \<times> fs" where
  "ensure_files ens skip [] seeded s = (Inr seeded, s)"
| "ensure_files ens skip (rel # rels) seeded s =
     (if skip rel then ensure_files ens skip rels seeded s
      else (case ens rel s of
              (Inl e, s') \<Rightarrow> (Inl e, s')
            | (Inr wrote, s') \<Rightarrow> ensure_files ens skip rels (seeded \<or> wrote) s'))"

definition ensure_layout ::
    "(onboarding \<Rightarrow> go_error + string) \<Rightarrow> (string \<Rightarrow> go_error + onboarding) \<Rightarrow> gtime \<Rightarrow> string
      \<Rightarrow> string \<Rightarrow> bool \<Rightarrow> string \<Rightarrow> fs \<Rightarrow> go_error option \<times> fs" where
  "ensure_layout enc dec now rfc root use_templates template_dir s =
     (let tdir = (if template_dir = [] then default_template_dir root else template_dir)
      in case read_state dec root s of
           Inl e \<Rightarrow> (Some e, s)
         | Inr st \<Rightarrow>
             (case ensure_files (ensure_file now root tdir use_templates)
                     (skip_file st (is_workspace_new root s)) bootstrap_files False s of
                (Inl e, s') \<Rightarrow> (Some e, s')
              | (Inr seeded, s') \<Rightarrow>
                  if seeded \<and> ob_seeded st = []
                  then write_state enc now root (st\<lparr>ob_seeded := rfc\<rparr>) s'
                  else (None, s')))"

section \<open>Status\<close>

record workspace_status =
  ws_seeded :: bool
  ws_completed :: bool
  ws_bootstrap :: bool
  ws_files :: "(string \<times> bool) list"

definition get_status ::
    "(string \<Rightarrow> go_error + onboarding) \<Rightarrow> string \<Rightarrow> fs \<Rightarrow> go_error + workspace_status" where
  "get_status dec root s =
     (case read_state dec root s of
        Inl e \<Rightarrow> Inl e
      | Inr st \<Rightarrow>
          Inr \<lparr>ws_seeded = (ob_seeded st \<noteq> []), ws_completed = (ob_done st \<noteq> []),
               ws_bootstrap = stat_ok s (path_join [root, bootstrap_md]),
               ws_files = map (\<lambda>rel. (rel, stat_ok s (path_join [root, rel]))) bootstrap_files\<rparr>)"

definition complete_onboarding ::
    "(onboarding \<Rightarrow> go_error + string) \<Rightarrow> (string \<Rightarrow> go_error + onboarding) \<Rightarrow> gtime \<Rightarrow> string
      \<Rightarrow> string \<Rightarrow> bool \<Rightarrow> fs \<Rightarrow> (go_error + workspace_status) \<times> fs" where
  "complete_onboarding enc dec now rfc root remove_bootstrap s =
     (case read_state dec root s of
        Inl e \<Rightarrow> (Inl e, s)
      | Inr st \<Rightarrow>
          (case write_state enc now root
                  (st\<lparr>ob_seeded := (if ob_seeded st = [] then rfc else ob_seeded st),
                      ob_done := (if ob_done st = [] then rfc else ob_done st)\<rparr>) s of
             (Some e, s') \<Rightarrow> (Inl e, s')
           | (None, s1) \<Rightarrow>
               (let s2 = (if remove_bootstrap
                          then (case remove_file (path_join [root, bootstrap_md]) s1 of
                                  Inl _ \<Rightarrow> s1 | Inr s2 \<Rightarrow> s2)
                          else s1)
                in (get_status dec root s2, s2))))"

section \<open>Identity and soul\<close>

text \<open>
  The lines of a \<open>bufio.Scanner\<close>: without their line break and a carriage return before it;
  a line that does not fit the buffer of 65536 bytes ends the scan.
\<close>

definition drop_cr :: "string \<Rightarrow> string" where
  "drop_cr l = (if l \<noteq> [] \<and> last l = CR then butlast l else l)"

definition scan_lines :: "string \<Rightarrow> string list" where
  "scan_lines s =
     (let ls = split_on NL s; ls = (if last ls = [] then butlast ls else ls)
      in map drop_cr (takeWhile (\<lambda>l. int (length l) < 65536) ls))"

definition default_identity :: identity where
  "default_identity = \<lparr>id_name = ''Assistant'', id_avatar = ''A'', id_emoji = []\<rparr>"

definition identity_line :: "string \<Rightarrow> identity \<Rightarrow> identity" where
  "identity_line raw i =
     (let line = trim_space raw; lower = to_lower line
      in if has_prefix lower ''name:'' then i\<lparr>id_name := trim_space (drop 5 line)\<rparr>
         else if has_prefix lower ''avatar:'' then i\<lparr>id_avatar := trim_space (drop 7 line)\<rparr>
         else if has_prefix lower ''emoji:'' then i\<lparr>id_emoji := trim_space (drop 6 line)\<rparr>
         else i)"

text \<open>\<open>loadIdentity\<close> of the bootstrap service; a file that cannot be read gives the default.\<close>

definition parse_identity :: "string \<Rightarrow> identity" where
  "parse_identity text = fold identity_line (scan_lines text) default_identity"

definition load_identity :: "string \<Rightarrow> fs \<Rightarrow> identity" where
  "load_identity root s =
     (case read_file s (path_join [root, ''IDENTITY.md'']) of
        Inl _ \<Rightarrow> default_identity | Inr b \<Rightarrow> parse_identity b)"

text \<open>\<open>identity.Service.Load\<close>: the prefix is tested in lower case and cut off in the case it has.\<close>

definition service_identity_line :: "string \<Rightarrow> identity \<Rightarrow> identity" where
  "service_identity_line raw i =
     (let line = trim_space raw; lower = to_lower line
      in i\<lparr>id_name := (if has_prefix lower ''name:'' then trim_space (trim_prefix line ''name:'') else id_name i),
           id_avatar := (if has_prefix lower ''avatar:'' then trim_space (trim_prefix line ''avatar:'') else id_avatar i),
           id_emoji := (if has_prefix lower ''emoji:'' then trim_space (trim_prefix line ''emoji:'') else id_emoji i)\<rparr>)"

definition identity_service_load :: "string \<Rightarrow> fs \<Rightarrow> identity" where
  "identity_service_load root s =
     (case read_file s (path_join [root, ''IDENTITY.md'']) of
        Inl _ \<Rightarrow> default_identity
      | Inr b \<Rightarrow> fold service_identity_line (scan_lines b) default_identity)"

definition soul_load :: "string \<Rightarrow> fs \<Rightarrow> string" where
  "soul_load root s =
     (case read_file s (path_join [root, ''SOUL.md'']) of Inl _ \<Rightarrow> [] | Inr b \<Rightarrow> b)"

section \<open>The context of a run\<close>

record context_bundle =
  cb_identity :: identity
  cb_soul :: string
  cb_project :: string

definition read_text :: "fs \<Rightarrow> string \<Rightarrow> string" where
  "read_text s p = (case read_file s p of Inl _ \<Rightarrow> [] | Inr b \<Rightarrow> trim_space b)"

definition project_files :: "string list" where
  "project_files = [''AGENTS.md'', ''TOOLS.md'', ''USER.md'', bootstrap_md]"

definition add_section :: "string \<times> string \<Rightarrow> string \<Rightarrow> string" where
  "add_section sec b =
     (if trim_space (snd sec) = [] then b
      else (if b = [] then ''# Project Context'' @ [NL, NL] else b)
        @ ''## '' @ fst sec @ [NL] @ snd sec @ [NL, NL])"

definition load_context :: "string \<Rightarrow> fs \<Rightarrow> context_bundle" where
  "load_context root s =
     \<lparr>cb_identity = load_identity root s,
      cb_soul = read_text s (path_join [root, ''SOUL.md'']),
      cb_project = trim_space (fold add_section
        (map (\<lambda>f. (f, read_text s (path_join [root, f]))) project_files) [])\<rparr>"

section \<open>Memory\<close>

text \<open>\<open>filepath.Glob\<close> of \<open>memory/*.md\<close>: no entry when the directory cannot be listed.\<close>

definition memory_files :: "string \<Rightarrow> fs \<Rightarrow> string list" where
  "memory_files root s =
     (case read_dir s (path_join [root, ''memory'']) of
        Inl _ \<Rightarrow> []
      | Inr es \<Rightarrow> map (\<lambda>(n, _). path_join [root, ''memory'', n]) (filter (\<lambda>(n, _). has_suffix n ''.md'') es))"

definition memory_search :: "string \<Rightarrow> string \<Rightarrow> fs \<Rightarrow> string list" where
  "memory_search root q s =
     (let query = to_lower (trim_space q)
      in if query = [] then []
         else filter (\<lambda>p. case read_file s p of Inl _ \<Rightarrow> False | Inr b \<Rightarrow> contains (to_lower b) query)
                (path_join [root, ''MEMORY.md''] # memory_files root s))"

section \<open>Properties of the layout\<close>

lemma stat_absent:
  "\<not> stat_ok s p \<Longrightarrow> fs_fault s OpStat p = None \<Longrightarrow> file_of s p = None"
  by (auto simp: stat_ok_def stat_def guard_fault_def file_of_def split: option.splits if_splits node.splits)

lemma ensure_file_keeps:
  assumes "ensure_file now root tdir tpl rel s = (r, s')" "fs_fault s OpStat (path_join [root, rel]) = None"
  shows "(file_of s q = Some c \<longrightarrow> file_of s' q = Some c) \<and> fs_fault s' = fs_fault s
    \<and> (q \<noteq> path_join [root, rel] \<longrightarrow> file_of s' q = file_of s q)"
proof (cases "mkdir_all (path_dir (path_join [root, rel])) s")
  case (Inl e)
  with assms(1) show ?thesis by (auto simp: ensure_file_def Let_def)
next
  case (Inr s1)
  note m = file_of_mkdir [OF Inr] and ff = mkdir_all_fault [OF Inr]
  show ?thesis
  proof (cases "stat_ok s1 (path_join [root, rel])")
    case True
    with assms(1) Inr m ff show ?thesis by (auto simp: ensure_file_def Let_def)
  next
    case False
    with assms(2) ff have "file_of s (path_join [root, rel]) = None"
      using stat_absent [OF False] m by simp
    with assms(1) Inr m ff False show ?thesis
      by (auto simp: ensure_file_def Let_def file_of_write dest: write_fault split: sum.splits)
  qed
qed

lemma ensure_files_keeps:
  assumes "ensure_files (ensure_file now root tdir tpl) skip rels b s = (r, s')"
    and "\<forall>rel \<in> set rels. fs_fault s OpStat (path_join [root, rel]) = None"
  shows "(file_of s q = Some c \<longrightarrow> file_of s' q = Some c) \<and> fs_fault s' = fs_fault s
    \<and> ((\<forall>rel \<in> set rels. \<not> skip rel \<longrightarrow> q \<noteq> path_join [root, rel]) \<longrightarrow> file_of s' q = file_of s q)"
  using assms
proof (induction rels arbitrary: b s)
  case (Cons rel rels)
  show ?case
  proof (cases "skip rel")
    case True
    with Cons.IH [of b s] Cons.prems show ?thesis by auto
  next
    case False
    obtain r1 s1 where e: "ensure_file now root tdir tpl rel s = (r1, s1)" by fastforce
    note k = ensure_file_keeps [OF e]
    show ?thesis
    proof (cases r1)
      case (Inl x)
      with Cons.prems False e k show ?thesis by auto
    next
      case (Inr w)
      with Cons.prems False e have "ensure_files (ensure_file now root tdir tpl) skip rels (b \<or> w) s1 = (r, s')"
        by simp
      from Cons.IH [OF this] Cons.prems(2) k False show ?thesis by auto
    qed
  qed
qed simp

lemma write_state_keeps:
  assumes "write_state enc now root st s = (r, s')" "q \<noteq> state_path root" "q \<noteq> state_path root @ ''.tmp''"
  shows "file_of s' q = file_of s q"
proof (cases "mkdir_all (path_dir (state_path root)) s")
  case (Inr s1)
  note m = file_of_mkdir [OF Inr]
  show ?thesis
  proof (cases "enc (st\<lparr>ob_version := 1\<rparr>)")
    case (Inl e)
    with assms(1) Inr m show ?thesis by (simp add: write_state_def)
  next
    case b: (Inr b)
    show ?thesis
    proof (cases "write_file now (state_path root @ ''.tmp'') (b @ [NL]) s1")
      case (Inl e)
      with assms(1) Inr b m show ?thesis by (simp add: write_state_def)
    next
      case w: (Inr s2)
      have "file_of s2 q = file_of s q" using file_of_write [OF w, of q] m assms(3) by simp
      then show ?thesis
        using assms Inr b w file_of_rename [of "state_path root @ ''.tmp''" "state_path root" s2 s' q]
        by (auto simp: write_state_def split: sum.splits)
    qed
  qed
qed (use assms in \<open>simp add: write_state_def\<close>)

lemma ensure_layout_cases:
  assumes "ensure_layout enc dec now rfc root tpl tdir s = (r, s')"
  obtains (bad_state) e where "read_state dec root s = Inl e" "s' = s"
  | (laid) st t r1 s1 where "read_state dec root s = Inr st"
      "ensure_files (ensure_file now root t tpl) (skip_file st (is_workspace_new root s))
         bootstrap_files False s = (r1, s1)"
      "s' = s1 \<or> (\<exists>r2 st'. write_state enc now root st' s1 = (r2, s'))"
proof (cases "read_state dec root s")
  case (Inl e)
  then have "s' = s" using assms by (simp add: ensure_layout_def)
  with Inl show ?thesis by (rule that(1))
next
  case (Inr st)
  let ?t = "if tdir = [] then default_template_dir root else tdir"
  obtain r1 s1 where e: "ensure_files (ensure_file now root ?t tpl) (skip_file st (is_workspace_new root s))
      bootstrap_files False s = (r1, s1)" by fastforce
  have "s' = s1 \<or> (\<exists>r2 st'. write_state enc now root st' s1 = (r2, s'))"
  proof (cases r1)
    case (Inl x)
    with assms Inr e show ?thesis by (simp add: ensure_layout_def)
  next
    case i: (Inr b)
    show ?thesis
    proof (cases "b \<and> ob_seeded st = []")
      case True
      with assms Inr e i have "write_state enc now root (st\<lparr>ob_seeded := rfc\<rparr>) s1 = (r, s')"
        by (simp add: ensure_layout_def)
      then show ?thesis by blast
    next
      case False
      with assms Inr e i show ?thesis by (simp add: ensure_layout_def)
    qed
  qed
  with that(2) [OF Inr e] show ?thesis by blast
qed


definition demo_ob_enc :: "onboarding \<Rightarrow> go_error + string" where
  "demo_ob_enc st = Inr (''{'' @ ob_seeded st @ ''|'' @ ob_done st @ ''}'')"

definition demo_ob_dec :: "string \<Rightarrow> go_error + onboarding" where
  "demo_ob_dec b = Inr \<lparr>ob_version = 1, ob_seeded = ''t'', ob_done = ''t''\<rparr>"


text \<open>
  Onboarding happens once. When the state says that it is complete, \<open>EnsureLayout\<close> does not
  bring \<open>BOOTSTRAP.md\<close> back, nor change it if it is still there.
\<close>

theorem completed_stays_completed:
  assumes "ensure_layout enc dec now rfc root tpl tdir s = (r, s')"
    and "read_state dec root s = Inr st" "ob_done st \<noteq> []"
    and "\<forall>rel \<in> set bootstrap_files. fs_fault s OpStat (path_join [root, rel]) = None"
    and "\<forall>rel \<in> set bootstrap_files. rel \<noteq> bootstrap_md \<longrightarrow> path_join [root, rel] \<noteq> path_join [root, bootstrap_md]"
    and "path_join [root, bootstrap_md] \<notin> {state_path root, state_path root @ ''.tmp''}"
  shows "file_of s' (path_join [root, bootstrap_md]) = file_of s (path_join [root, bootstrap_md])"
  using assms(1)
proof (cases rule: ensure_layout_cases)
  case (bad_state e)
  then show ?thesis by simp
next
  case (laid st' t r1 s1)
  have st: "st' = st" using laid(1) assms(2) by simp
  have "skip_file st b bootstrap_md" for b using assms(3) by (simp add: skip_file_def)
  then have "\<forall>rel \<in> set bootstrap_files. \<not> skip_file st (is_workspace_new root s) rel \<longrightarrow>
      path_join [root, bootstrap_md] \<noteq> path_join [root, rel]"
    using assms(5) by metis
  with ensure_files_keeps [OF laid(2) assms(4), of "path_join [root, bootstrap_md]"]
  have "file_of s1 (path_join [root, bootstrap_md]) = file_of s (path_join [root, bootstrap_md])"
    by (simp add: st)
  with laid(3) write_state_keeps [of enc now root _ s1 _ s' "path_join [root, bootstrap_md]"] assms(6)
  show ?thesis by auto
qed

definition done_fs :: fs where
  "done_fs = \<lparr>fs_ents = [(''w'', NDir), (''w/.nisix/workspace_state.json'', NFile ''{}'' (GTime 0))],
     fs_fault = (\<lambda>_ _. None)\<rparr>"

theorem completed_stays_completed_witness:
  "file_of (snd (ensure_layout demo_ob_enc demo_ob_dec (GTime 1) ''t'' ''w'' False [] done_fs)) ''w/BOOTSTRAP.md''
     = None"
proof -
  let ?e = "ensure_layout demo_ob_enc demo_ob_dec (GTime 1) ''t'' ''w'' False [] done_fs"
  have p: "path_join [''w'', bootstrap_md] = ''w/BOOTSTRAP.md''"
    "file_of done_fs ''w/BOOTSTRAP.md'' = None" by code_simp+
  have h: "read_state demo_ob_dec ''w'' done_fs = Inr \<lparr>ob_version = 1, ob_seeded = ''t'', ob_done = ''t''\<rparr>"
    "\<forall>rel \<in> set bootstrap_files. rel \<noteq> bootstrap_md \<longrightarrow> path_join [''w'', rel] \<noteq> path_join [''w'', bootstrap_md]"
    "path_join [''w'', bootstrap_md] \<notin> {state_path ''w'', state_path ''w'' @ ''.tmp''}"
    by code_simp+
  have f: "\<forall>rel \<in> set bootstrap_files. fs_fault done_fs OpStat (path_join [''w'', rel]) = None"
    by (simp add: done_fs_def)
  from completed_stays_completed [of demo_ob_enc demo_ob_dec "GTime 1" "''t''" "''w''" False "[]" done_fs
      "fst ?e" "snd ?e", OF _ h(1) _ f h(2,3)] p show ?thesis by simp
qed

section \<open>Properties of the identity\<close>

text \<open>
  The two readers of \<open>IDENTITY.md\<close> disagree. The bootstrap service cuts a key off in any
  case of its letters; the identity service finds it in any case, cuts it off only in lower
  case, and so keeps it as part of the name.
\<close>

theorem identity_readers_differ:
  "load_identity ''w'' (plain_fs [(''w/IDENTITY.md'', ''Name: Nix'' @ [NL])])
     = default_identity\<lparr>id_name := ''Nix''\<rparr>
   \<and> identity_service_load ''w'' (plain_fs [(''w/IDENTITY.md'', ''Name: Nix'' @ [NL])])
     = default_identity\<lparr>id_name := ''Name: Nix''\<rparr>"
  by (intro conjI; code_simp)

lemma scan_lines_last:
  assumes "\<forall>l \<in> set (split_on NL a). int (length l) < 65536" "NL \<notin> set b" "int (length b) < 65536"
  shows "scan_lines (a @ NL # b @ [NL]) = map drop_cr (split_on NL a @ [b])"
  using assms split_on_append [of NL b "[]"]
  by (simp add: scan_lines_def split_on_glue Let_def butlast_append takeWhile_append)

lemma identity_name_line:
  assumes "trim_space (''name: '' @ v) = ''name: '' @ v" "trim_space v = v"
  shows "id_name (identity_line (''name: '' @ v) i) = v"
proof -
  have "to_lower ''name: '' = ''name: ''" by code_simp
  then have "has_prefix (to_lower (''name: '' @ v)) ''name:''" by simp
  with assms show ?thesis by (simp add: identity_line_def Let_def)
qed

lemma fold_identity_last:
  assumes "trim_space (''name: '' @ v) = ''name: '' @ v" "trim_space v = v"
  shows "id_name (fold identity_line (ls @ [''name: '' @ v]) i) = v"
  using identity_name_line [OF assms] by simp

lemma patch_entries_name:
  assumes "trim_space (''name: '' @ v) = ''name: '' @ v" "trim_space v = v" "NL \<notin> set v"
  shows "patch_entries (''name: '' @ v) = [(''name'', v)]"
proof -
  have "NL \<notin> set (''name: '' @ v)" using assms(3) by simp
  then have s: "split_on NL (''name: '' @ v) = [''name: '' @ v]" by (rule split_on_single)
  have "split_n2 (CHR '':'') (''name: '' @ v) = [''name'', '' '' @ v]"
    using split_n2_append [of "CHR '':''" "''name''" "'' '' @ v"] by simp
  moreover have "trim_space ''name'' = ''name''" by code_simp
  ultimately have "patch_entry (''name: '' @ v) = Some (''name'', v)"
    using assms(1,2) by (simp add: patch_entry_def)
  with s assms(1) show ?thesis by (simp add: patch_entries_def)
qed

lemma split_lines_trim: "l \<in> set (split_on NL (trim_right_set s [NL])) \<Longrightarrow> l \<in> set (split_on NL s)"
proof (induction s rule: rev_induct)
  case (snoc c s)
  show ?case
  proof (cases "c = NL")
    case True
    then have "trim_right_set (s @ [c]) [NL] = trim_right_set s [NL]" by (simp add: trim_right_set_def)
    with snoc True show ?thesis using split_on_glue [of NL s "[]"] by simp
  next
    case False
    then have "trim_right_set (s @ [c]) [NL] = s @ [c]" by (simp add: trim_right_set_def)
    with snoc.prems show ?thesis by simp
  qed
qed simp

text \<open>
  Telling the agent its name works. Patching an identity file that has no name yet with a
  line \<open>name: v\<close> makes the bootstrap service read exactly \<open>v\<close>, whatever else the file holds and
  whether or not it ends with a line break, as long as its lines fit the scanner.
\<close>

theorem patched_name_is_read:
  assumes "trim_space (''name: '' @ v) = ''name: '' @ v" "trim_space v = v" "NL \<notin> set v"
    and "\<not> re_match (identity_matcher ''name'') text"
    and "\<forall>l \<in> set (split_on NL text). int (length l) < 65536" "int (length v) < 65530"
    and "v = [] \<or> last v \<noteq> CR"
  shows "id_name (parse_identity (patch_identity text (''name: '' @ v))) = v"
proof -
  let ?l = "''name: '' @ v"
  have key: "to_lower ''name'' = ''name''" by code_simp
  have NLl: "NL \<notin> set ?l" using assms(3) by simp
  have cr: "drop_cr ?l = ?l" using assms(7) by (auto simp: drop_cr_def)
  have len: "int (length ?l) < 65536" using assms(6) by simp
  have out: "patch_identity text ?l = (if trim_space text = [] then ?l @ [NL]
      else trim_right_set text [NL] @ [NL] @ ?l @ [NL])"
  proof -
    have "patch_identity text ?l = ensure_trailing_newline (patch_identity_line (''name'', v) text)"
      by (simp only: patch_identity_def patch_entries_name [OF assms(1-3)] fold.simps o_apply id_apply)
    also have "\<dots> = ensure_trailing_newline (if trim_space text = [] then ?l @ [NL]
        else trim_right_set text [NL] @ [NL] @ ?l @ [NL])"
      unfolding patch_identity_line_def Let_def fst_conv snd_conv key using assms(4) by simp
    also have "\<dots> = (if trim_space text = [] then ?l @ [NL]
        else trim_right_set text [NL] @ [NL] @ ?l @ [NL])"
      by (simp add: ensure_trailing_newline_def has_suffix_def)
    finally show ?thesis .
  qed
  show ?thesis
  proof (cases "trim_space text = []")
    case True
    have "split_on NL (?l @ [NL]) = [?l, []]" using split_on_append [OF NLl, of "[]"] by simp
    then have "scan_lines (?l @ [NL]) = [?l]" using len cr by (simp add: scan_lines_def Let_def)
    with out True show ?thesis
      using identity_name_line [OF assms(1,2)] by (simp add: parse_identity_def)
  next
    case False
    have "\<forall>l \<in> set (split_on NL (trim_right_set text [NL])). int (length l) < 65536"
      using assms(5) split_lines_trim by blast
    from scan_lines_last [OF this NLl len]
    have "scan_lines (patch_identity text ?l) = map drop_cr (split_on NL (trim_right_set text [NL])) @ [?l]"
      using out False cr by simp
    then show ?thesis using fold_identity_last [OF assms(1,2)] by (simp add: parse_identity_def)
  qed
qed

theorem patched_name_is_read_witness:
  "id_name (parse_identity (patch_identity (''emoji: x'' @ [NL]) ''name: Nix'')) = ''Nix''"
proof -
  have h: "trim_space (''name: '' @ ''Nix'') = ''name: '' @ ''Nix''" "trim_space ''Nix'' = ''Nix''"
    "NL \<notin> set ''Nix''" "\<not> re_match (identity_matcher ''name'') (''emoji: x'' @ [NL])"
    "\<forall>l \<in> set (split_on NL (''emoji: x'' @ [NL])). int (length l) < 65536"
    "int (length ''Nix'') < 65530" "''Nix'' = [] \<or> last ''Nix'' \<noteq> CR" by code_simp+
  from patched_name_is_read [OF h] show ?thesis by simp
qed

end
