(* ===== verification/Skills.thy ===== *)
theory Skills
  imports Domain
begin

text \<open>
  \<open>internal/skills\<close>: the skills of a workspace. \<open>parser.go\<close> reads the front matter of a
  \<open>SKILL.md\<close>, \<open>loader.go\<close> decides which skills are enabled, \<open>selector.go\<close> picks the ones a
  message asks for or matches. The map of entries of the configuration is a list in the order
  in which the code happens to range over it.
\<close>

section \<open>Skills\<close>

record skill =
  sk_name :: string
  sk_desc :: string
  sk_path :: string
  sk_body :: string
  sk_enabled :: bool
  sk_reason :: string

record skills_conf =
  sc_enabled :: bool
  sc_auto :: bool
  sc_max :: int
  sc_allow :: "string list"
  sc_entries :: "(string \<times> bool option) list"
  sc_body_max :: int

record skills =
  sv_conf :: skills_conf
  sv_loaded :: "skill list"
  sv_by_name :: "(string \<times> skill) list"
  sv_err :: "go_error option"

definition new_skills :: "skills_conf \<Rightarrow> skills" where
  "new_skills c = \<lparr>sv_conf = c\<lparr>sc_max := (if sc_max c \<le> 0 then 1 else sc_max c),
       sc_body_max := (if sc_body_max c \<le> 0 then 4000 else sc_body_max c)\<rparr>,
     sv_loaded = [], sv_by_name = [], sv_err = None\<rparr>"

section \<open>Front matter\<close>

definition fence :: "string \<Rightarrow> bool" where "fence l \<longleftrightarrow> trim_space l = ''---''"

text \<open>One line between the fences, on the name and description found so far.\<close>

definition meta_line :: "string \<Rightarrow> string \<times> string \<Rightarrow> string \<times> string" where
  "meta_line raw nd =
     (let line = trim_space raw
      in if line = [] \<or> has_prefix line ''#'' then nd
         else (case split_n2 (CHR '':'') line of
                 [k, v] \<Rightarrow>
                   (let val = trim_set (trim_space v) [CHR 0x22, CHR 0x27]
                    in if normal_key k = ''name'' then (val, snd nd)
                       else if normal_key k = ''description'' then (fst nd, val)
                       else nd)
               | _ \<Rightarrow> nd))"

definition parse_skill_markdown :: "string \<Rightarrow> go_error + (string \<times> string) \<times> string" where
  "parse_skill_markdown text =
     (let t = trim_space text; ls = split_on NL t
      in if t = [] then Inl ''empty skill file''
         else if \<not> has_prefix t ''---'' then Inl ''missing frontmatter''
         else if length ls < 3 \<or> \<not> fence (hd ls) then Inl ''invalid frontmatter start''
         else (case dropWhile (\<lambda>l. \<not> fence l) (tl ls) of
                 [] \<Rightarrow> Inl ''missing frontmatter end''
               | _ # after \<Rightarrow>
                   (let nd = fold meta_line (takeWhile (\<lambda>l. \<not> fence l) (tl ls)) ([], [])
                    in if trim_space (fst nd) = [] \<or> trim_space (snd nd) = []
                       then Inl ''frontmatter requires name and description''
                       else Inr (nd, trim_space (join [NL] after)))))"

section \<open>Loading\<close>

definition has_entry_disabled :: "(string \<times> bool option) list \<Rightarrow> string \<Rightarrow> bool" where
  "has_entry_disabled entries name =
     (case (case map_of entries name of
              Some e \<Rightarrow> Some e
            | None \<Rightarrow> map_option snd (find (\<lambda>(k, _). equal_fold k name) entries)) of
        Some (Some b) \<Rightarrow> \<not> b
      | _ \<Rightarrow> False)"

definition load_one :: "skills_conf \<Rightarrow> fs \<Rightarrow> string \<Rightarrow> go_error + skill" where
  "load_one c s path =
     (case read_file s path of
        Inl e \<Rightarrow> Inl (io_msg e)
      | Inr b \<Rightarrow>
          (case parse_skill_markdown b of
             Inl e \<Rightarrow> Inl e
           | Inr ((name, desc), body) \<Rightarrow>
               Inr \<lparr>sk_name = trim_space name, sk_desc = trim_space desc, sk_path = [],
                    sk_body = trim_space
                      (if sc_body_max c > 0 \<and> int (length body) > sc_body_max c
                       then take (nat (sc_body_max c)) body @ [NL, NL] @ ''...[truncated]'' else body),
                    sk_enabled = False, sk_reason = []\<rparr>))"

text \<open>The first reason, in the order of the switch, that blocks a skill before its name is looked up.\<close>

definition block_reason :: "skills_conf \<Rightarrow> bool \<Rightarrow> string \<Rightarrow> string" where
  "block_reason c parse_failed name =
     (if \<not> sc_enabled c then ''global_disabled''
      else if parse_failed then ''parse_error''
      else if name = [] then ''parse_error''
      else if has_entry_disabled (sc_entries c) name then ''entry_disabled''
      else if sc_allow c \<noteq> [] \<and> name \<notin> set (map normal_key (sc_allow c)) then ''not_allowlisted''
      else [])"

definition empty_skill :: skill where
  "empty_skill = \<lparr>sk_name = [], sk_desc = [], sk_path = [], sk_body = [], sk_enabled = False, sk_reason = []\<rparr>"

definition load_dir :: "skills_conf \<Rightarrow> fs \<Rightarrow> string \<Rightarrow> string list \<Rightarrow> skill \<times> string list" where
  "load_dir c s dir seen =
     (let path = path_join [dir, ''SKILL.md''];
          r = load_one c s path;
          raw = (case r of Inl _ \<Rightarrow> empty_skill | Inr k \<Rightarrow> k);
          name = (if sk_name raw = [] then path_base dir else sk_name raw);
          key = normal_key name;
          reason = block_reason c (\<not> is_ok r) key;
          dup = (reason = [] \<and> key \<in> set seen)
      in (raw\<lparr>sk_path := path, sk_name := name, sk_enabled := (reason = [] \<and> \<not> dup),
              sk_reason := (if dup then ''duplicate_name'' else reason)\<rparr>,
          if reason = [] \<and> \<not> dup then key # seen else seen))"

fun load_dirs :: "skills_conf \<Rightarrow> fs \<Rightarrow> string list \<Rightarrow> string list \<Rightarrow> skill list" where
  "load_dirs c s [] seen = []"
| "load_dirs c s (d # ds) seen =
     (case load_dir c s d seen of (k, seen') \<Rightarrow> k # load_dirs c s ds seen')"

text \<open>\<open>setLoaded\<close>: the first skill of a name is the one it finds.\<close>

definition index_name :: "skill \<Rightarrow> (string \<times> skill) list \<Rightarrow> (string \<times> skill) list" where
  "index_name k m =
     (let key = normal_key (sk_name k)
      in if key = [] \<or> key \<in> set (keys m) then m else put key k m)"

definition set_loaded :: "skill list \<Rightarrow> go_error option \<Rightarrow> skills \<Rightarrow> skills" where
  "set_loaded ks e sv = sv\<lparr>sv_loaded := ks, sv_err := e, sv_by_name := fold index_name ks []\<rparr>"

definition load_all :: "string \<Rightarrow> fs \<Rightarrow> skills \<Rightarrow> (go_error + skill list) \<times> skills" where
  "load_all workspace s sv =
     (let root = path_join [workspace, ''skills'']
      in case read_dir s root of
           Inl NotExist \<Rightarrow> (Inr [], set_loaded [] None sv)
         | Inl (IoError e) \<Rightarrow> (Inl e, set_loaded [] (Some e) sv)
         | Inr es \<Rightarrow>
             (let dirs = sort (map (\<lambda>(n, _). path_join [root, n]) (filter snd es));
                  ks = load_dirs (sv_conf sv) s dirs []
              in (Inr ks, set_loaded ks None sv)))"

definition find_by_name :: "skills \<Rightarrow> string \<Rightarrow> skill option" where
  "find_by_name sv name = map_of (sv_by_name sv) (normal_key name)"

section \<open>Selecting\<close>

definition invocation :: "string \<Rightarrow> string option" where
  "invocation line =
     (case str_fields (trim_space line) of
        c # n # _ \<Rightarrow>
          if normal_key c \<in> {''/skill'', ''!skill''} \<and> normal_key n \<noteq> [] then Some (normal_key n) else None
      | _ \<Rightarrow> None)"

definition add_new :: "string \<Rightarrow> string list \<Rightarrow> string list" where
  "add_new n out = (if n \<in> set out then out else out @ [n])"

definition extract_explicit_invocations :: "string \<Rightarrow> string list" where
  "extract_explicit_invocations msg =
     fold add_new (List.map_filter invocation (split_on NL msg)) []"

text \<open>The matches of \<open>[a-z0-9]+\<close> in the lowered text, each once.\<close>

definition token_char :: "char \<Rightarrow> bool" where
  "token_char c \<longleftrightarrow> is_digit c \<or> c \<in> set ''abcdefghijklmnopqrstuvwxyz''"

fun token_runs :: "string \<Rightarrow> string \<Rightarrow> string list" where
  "token_runs cur [] = (if cur = [] then [] else [cur])"
| "token_runs cur (c # s) =
     (if token_char c then token_runs (cur @ [c]) s
      else (if cur = [] then [] else [cur]) @ token_runs [] s)"

definition tokenize :: "string \<Rightarrow> string list" where
  "tokenize text = remdups (token_runs [] (to_lower text))"

definition score :: "string list \<Rightarrow> skill \<Rightarrow> int" where
  "score tokens k =
     (let hay = to_lower (trim_space (sk_name k @ '' '' @ sk_desc k @ '' '' @ sk_body k))
      in int (length (filter (\<lambda>t. t \<noteq> [] \<and> contains hay t) tokens)))"

text \<open>The order of \<open>sort.SliceStable\<close>: higher scores first, then the lowered name.\<close>

definition score_key :: "string list \<Rightarrow> skill \<Rightarrow> int \<times> string" where
  "score_key tokens k = (- score tokens k, to_lower (sk_name k))"

definition select_auto_matched :: "string \<Rightarrow> skill list \<Rightarrow> int \<Rightarrow> skill list" where
  "select_auto_matched msg enabled n =
     (let toks = tokenize msg;
          scored = sort_key (score_key toks) (filter (\<lambda>k. score toks k > 0) enabled)
      in if toks = [] then [] else take (nat (if n \<le> 0 then 1 else n)) scored)"

definition select_explicit :: "string list \<Rightarrow> skill list \<Rightarrow> int \<Rightarrow> skill list" where
  "select_explicit explicit enabled n =
     (let index = fold (\<lambda>k m. put (to_lower (sk_name k)) k m) enabled []
      in take (nat (if n \<le> 0 then 1 else n))
           (List.map_filter (\<lambda>name. map_of index (normal_key name)) explicit))"

definition select_for_message :: "skills \<Rightarrow> string \<Rightarrow> string list \<Rightarrow> skill list" where
  "select_for_message sv msg explicit =
     (let enabled = filter sk_enabled (sv_loaded sv);
          selected = select_explicit explicit enabled (sc_max (sv_conf sv))
      in if selected \<noteq> [] then selected
         else if explicit \<noteq> [] then []
         else if \<not> sc_auto (sv_conf sv) then []
         else select_auto_matched msg enabled (sc_max (sv_conf sv)))"

section \<open>Properties\<close>

lemma load_dirs_enabled:
  "distinct (map (\<lambda>k. normal_key (sk_name k)) (filter sk_enabled (load_dirs c s ds seen)))
   \<and> (\<forall>k \<in> set (load_dirs c s ds seen). sk_enabled k \<longrightarrow>
        block_reason c False (normal_key (sk_name k)) = [] \<and> sk_reason k = []
        \<and> normal_key (sk_name k) \<notin> set seen)
   \<and> (\<forall>k \<in> set (load_dirs c s ds seen). \<not> sk_enabled k \<longrightarrow> sk_reason k \<noteq> [])"
proof (induction ds arbitrary: seen)
  case (Cons d ds)
  obtain k seen' where d: "load_dir c s d seen = (k, seen')" by fastforce
  have br: "block_reason c p n = [] \<Longrightarrow> block_reason c False n = []" for p n
    by (simp add: block_reason_def split: if_splits)
  have k: "sk_enabled k \<longrightarrow> block_reason c False (normal_key (sk_name k)) = [] \<and> sk_reason k = []
      \<and> normal_key (sk_name k) \<notin> set seen \<and> seen' = normal_key (sk_name k) # seen"
    "\<not> sk_enabled k \<longrightarrow> sk_reason k \<noteq> [] \<and> seen' = seen"
    using d by (auto simp: load_dir_def Let_def split: if_splits dest: br)
  show ?case
  proof (cases "sk_enabled k")
    case True
    with Cons.IH [of seen'] k d show ?thesis by auto
  next
    case False
    with Cons.IH [of seen'] k d show ?thesis by auto
  qed
qed simp


definition demo_conf :: skills_conf where
  "demo_conf = \<lparr>sc_enabled = True, sc_auto = True, sc_max = 1, sc_allow = [''Notes''], sc_entries = [],
     sc_body_max = 50\<rparr>"

definition demo_skill_fs :: fs where
  "demo_skill_fs = \<lparr>fs_ents = [(''w/skills'', NDir), (''w/skills/a'', NDir), (''w/skills/b'', NDir),
       (''w/skills/a/SKILL.md'', NFile (''---'' @ [NL] @ ''name: notes'' @ [NL] @ ''description: d''
          @ [NL] @ ''---'' @ [NL] @ ''take notes'') (GTime 0))],
     fs_fault = (\<lambda>_ _. None)\<rparr>"



definition demo_skill :: "string \<Rightarrow> string \<Rightarrow> skill" where
  "demo_skill n d = \<lparr>sk_name = n, sk_desc = d, sk_path = [], sk_body = [], sk_enabled = True, sk_reason = []\<rparr>"


end
