(* ===== verification/Prompts.thy ===== *)
theory Prompts
  imports Domain
begin

text \<open>
  The model clients of \<open>internal/model\<close>: the prompts they build of a request, the echo client,
  and the two that call a service over HTTP. A payload is the value that is encoded, sending it
  an argument that answers with the status and the body of the reply or an error; the decoding
  of a reply is an argument too.
\<close>

section \<open>Requests and prompts\<close>

record model_request =
  mq_agent :: string
  mq_session :: string
  mq_user :: string
  mq_history :: "conv_msg list"
  mq_summary :: string
  mq_identity :: identity
  mq_soul :: string
  mq_project :: string
  mq_skill :: string
  mq_memory :: "string list"

definition if_text :: "string \<Rightarrow> (string \<Rightarrow> string list) \<Rightarrow> string list" where
  "if_text s f = (if trim_space s = [] then [] else f (trim_space s))"

definition system_lines :: "model_request \<Rightarrow> string list" where
  "system_lines r =
     [if trim_space (id_name (mq_identity r)) \<noteq> []
      then ''You are '' @ trim_space (id_name (mq_identity r)) @ ''.''
      else ''You are a helpful assistant.'']
     @ if_text (id_emoji (mq_identity r)) (\<lambda>v. [''Persona emoji: '' @ v @ ''.''])
     @ if_text (id_avatar (mq_identity r)) (\<lambda>v. [''Persona avatar: '' @ v @ ''.''])
     @ if_text (mq_soul r) (\<lambda>v. [''SOUL instructions:'', v])
     @ if_text (mq_project r) (\<lambda>v. if has_prefix v ''#'' then [v] else [''Project context:'', v])
     @ if_text (mq_skill r) (\<lambda>v. [''Active skills:'', v])
     @ if_text (mq_summary r) (\<lambda>v. [''Conversation summary:'', v])
     @ (if mq_memory r = [] then [] else ''Relevant memory files:'' # map (\<lambda>h. ''- '' @ h) (mq_memory r))"

definition build_system_prompt :: "model_request \<Rightarrow> string" where
  "build_system_prompt r = join [NL] (system_lines r)"

definition normalize_role :: "string \<Rightarrow> string" where
  "normalize_role role = (if normal_key role = ''assistant'' then ''Assistant'' else ''User'')"

definition history_line :: "conv_msg \<Rightarrow> string option" where
  "history_line m =
     (if trim_space (cm_text m) = [] then None
      else Some (normalize_role (cm_role m) @ '': '' @ trim_space (cm_text m)))"

definition build_user_prompt :: "model_request \<Rightarrow> string" where
  "build_user_prompt r =
     (if mq_history r = [] then trim_space (mq_user r)
      else join [NL] ([''Conversation history:''] @ List.map_filter history_line (mq_history r)
             @ [''Current user message:'', trim_space (mq_user r)]))"

section \<open>The echo client\<close>

definition echo_generate :: "model_request \<Rightarrow> string" where
  "echo_generate r =
     (if trim_space (id_name (mq_identity r)) = [] then ''Assistant'' else trim_space (id_name (mq_identity r)))
     @ '': '' @ trim_space (mq_user r)
     @ (if mq_memory r = [] then [] else '' (memory hits: '' @ itoa (int (length (mq_memory r))) @ '')'')
     @ (if trim_space (mq_soul r) = [] then [] else '' [soul loaded]'')
     @ (if trim_space (mq_skill r) = [] then [] else [NL, NL] @ mq_skill r)
     @ (if trim_space (mq_summary r) = [] then []
        else [NL, NL] @ ''Conversation summary:'' @ [NL] @ trim_space (mq_summary r))
     @ (if trim_space (mq_project r) = [] then [] else [NL, NL] @ mq_project r)"

section \<open>Calling a service\<close>

definition truncate_body :: "string \<Rightarrow> int \<Rightarrow> string" where
  "truncate_body v n =
     (if n \<le> 0 \<or> int (length v) \<le> n then v else take (nat n) v @ ''...(truncated)'')"

record model_call =
  ml_url :: string
  ml_auth :: string
  ml_agent :: string
  ml_payload :: goany

type_synonym 'w model_http = "model_call \<Rightarrow> 'w \<Rightarrow> (go_error + int \<times> string) \<times> 'w"

text \<open>Sending, the status check and the decoding, which both clients do in the same order.\<close>

definition call_model ::
    "string \<Rightarrow> 'w model_http \<Rightarrow> (string \<Rightarrow> go_error + 'r) \<Rightarrow> ('r \<Rightarrow> go_error + string) \<Rightarrow> model_call \<Rightarrow> 'w
      \<Rightarrow> (go_error + string) \<times> 'w" where
  "call_model who send dec sel mc w =
     (case send mc w of
        (Inl e, w') \<Rightarrow> (Inl e, w')
      | (Inr (status, body), w') \<Rightarrow>
          if status < 200 \<or> status \<ge> 300
          then (Inl (who @ '': status '' @ itoa status @ '': '' @ truncate_body body 500), w')
          else (case dec body of
                  Inl e \<Rightarrow> (Inl (who @ '': parse response: '' @ e), w')
                | Inr r \<Rightarrow> (sel r, w')))"

subsection \<open>Ollama\<close>

record ollama_client =
  ol_base :: string
  ol_model :: string
  ol_agent :: string

definition or_fallback :: "string \<Rightarrow> string \<Rightarrow> string" where
  "or_fallback s d = (if trim_space s = [] then d else trim_space s)"

definition new_ollama :: "string \<Rightarrow> string \<Rightarrow> string \<Rightarrow> go_error + ollama_client" where
  "new_ollama base name agent =
     (if trim_space name = [] then Inl ''ollama: model is required''
      else Inr \<lparr>ol_base = trim_right_set (or_fallback base ''http://127.0.0.1:11434'') ''/'',
               ol_model = trim_space name, ol_agent = or_fallback agent ''nisix/0.1''\<rparr>)"

record ollama_response =
  or_response :: string
  or_error :: string

definition choose_ollama :: "ollama_response \<Rightarrow> go_error + string" where
  "choose_ollama r =
     (if trim_space (or_error r) \<noteq> [] then Inl (''ollama: '' @ trim_space (or_error r))
      else if trim_space (or_response r) \<noteq> [] then Inr (trim_space (or_response r))
      else Inl ''ollama: empty response output'')"

definition ollama_generate ::
    "ollama_client \<Rightarrow> 'w model_http \<Rightarrow> (string \<Rightarrow> go_error + ollama_response) \<Rightarrow> model_request \<Rightarrow> 'w
      \<Rightarrow> (go_error + string) \<times> 'w" where
  "ollama_generate c send dec r w =
     (if trim_space (mq_user r) = [] then (Inl ''ollama: user text is empty'', w)
      else call_model ''ollama'' send dec choose_ollama
             \<lparr>ml_url = ol_base c @ ''/api/generate'', ml_auth = [], ml_agent = ol_agent c,
              ml_payload = VMap [(''model'', VStr (ol_model c)), (''prompt'', VStr (build_user_prompt r)),
                (''system'', VStr (build_system_prompt r)), (''stream'', VBool False)]\<rparr> w)"

subsection \<open>OpenAI\<close>

record openai_client =
  oa_key :: string
  oa_base :: string
  oa_model :: string
  oa_agent :: string

definition new_openai :: "string \<Rightarrow> string \<Rightarrow> string \<Rightarrow> string \<Rightarrow> go_error + openai_client" where
  "new_openai key base name agent =
     (if trim_space key = [] then Inl ''openai: api key is required''
      else if trim_space name = [] then Inl ''openai: model is required''
      else Inr \<lparr>oa_key = trim_space key,
               oa_base = trim_right_set (or_fallback base ''https://api.openai.com/v1'') ''/'',
               oa_model = trim_space name, oa_agent = or_fallback agent ''nisix/0.1''\<rparr>)"

definition input_item :: "string \<Rightarrow> string \<Rightarrow> goany" where
  "input_item role t = VMap [(''role'', VStr role),
     (''content'', VList [VMap [(''type'', VStr ''input_text''), (''text'', VStr t)]])]"

definition history_item :: "conv_msg \<Rightarrow> goany option" where
  "history_item m =
     (if trim_space (cm_text m) = [] then None
      else Some (input_item (if normal_key (cm_role m) \<noteq> ''assistant'' then ''user'' else normal_key (cm_role m))
             (trim_space (cm_text m))))"

definition build_openai_input :: "model_request \<Rightarrow> goany list" where
  "build_openai_input r =
     [input_item ''system'' (build_system_prompt r)] @ List.map_filter history_item (mq_history r)
     @ [input_item ''user'' (trim_space (mq_user r))]"

record openai_response =
  ox_text :: string
  ox_output :: "string list list"
  ox_error :: "string option"

text \<open>The texts of \<open>output\<close> are taken in order, the contents of each item in order.\<close>

definition choose_openai :: "openai_response \<Rightarrow> go_error + string" where
  "choose_openai r =
     (case (case ox_error r of Some e \<Rightarrow> if trim_space e \<noteq> [] then Some e else None | None \<Rightarrow> None) of
        Some e \<Rightarrow> Inl (''openai: '' @ e)
      | None \<Rightarrow>
          if trim_space (ox_text r) \<noteq> [] then Inr (trim_space (ox_text r))
          else (case find (\<lambda>t. trim_space t \<noteq> []) (concat (ox_output r)) of
                  Some t \<Rightarrow> Inr (trim_space t)
                | None \<Rightarrow> Inl ''openai: empty response output''))"

definition openai_generate ::
    "openai_client \<Rightarrow> 'w model_http \<Rightarrow> (string \<Rightarrow> go_error + openai_response) \<Rightarrow> model_request \<Rightarrow> 'w
      \<Rightarrow> (go_error + string) \<times> 'w" where
  "openai_generate c send dec r w =
     (if trim_space (mq_user r) = [] then (Inl ''openai: user text is empty'', w)
      else call_model ''openai'' send dec choose_openai
             \<lparr>ml_url = oa_base c @ ''/responses'', ml_auth = ''Bearer '' @ oa_key c, ml_agent = oa_agent c,
              ml_payload = VMap [(''model'', VStr (oa_model c)), (''input'', VList (build_openai_input r))]\<rparr> w)"

section \<open>What a model call returns\<close>

text \<open>The interface \<open>Client\<close>: a text or an error.\<close>

locale model_client =
  fixes generate :: "model_request \<Rightarrow> 'w \<Rightarrow> (go_error + string) \<times> 'w"
    and asks :: "model_request \<Rightarrow> bool"
  assumes trimmed_reply: "fst (generate r w) = Inr t \<Longrightarrow> t \<noteq> [] \<and> trim_space t = t"
    and not_asked: "\<not> asks r \<Longrightarrow> snd (generate r w) = w"
begin

lemma reply_not_blank: "fst (generate r w) = Inr t \<Longrightarrow> trim_space t \<noteq> []"
  using trimmed_reply by fastforce

lemma silent: "snd (generate r w) \<noteq> w \<Longrightarrow> asks r"
  using not_asked by blast

end

lemma choose_ollama_trimmed: "choose_ollama r = Inr t \<Longrightarrow> t \<noteq> [] \<and> trim_space t = t"
  by (auto simp: choose_ollama_def split: if_splits)

lemma choose_openai_trimmed: "choose_openai r = Inr t \<Longrightarrow> t \<noteq> [] \<and> trim_space t = t"
  by (auto simp: choose_openai_def find_Some_iff split: if_splits option.splits)

lemma call_model_trimmed:
  assumes "\<And>r t. sel r = Inr t \<Longrightarrow> t \<noteq> [] \<and> trim_space t = t"
  shows "fst (call_model who send dec sel mc w) = Inr t \<Longrightarrow> t \<noteq> [] \<and> trim_space t = t"
  using assms by (auto simp: call_model_def split: prod.splits sum.splits if_splits)

definition has_user_text :: "model_request \<Rightarrow> bool" where
  "has_user_text r \<longleftrightarrow> trim_space (mq_user r) \<noteq> []"

interpretation ollama: model_client "ollama_generate c send dec" has_user_text for c send dec
proof
  show "fst (ollama_generate c send dec r w) = Inr t \<Longrightarrow> t \<noteq> [] \<and> trim_space t = t" for r w t
    using call_model_trimmed [of choose_ollama, OF choose_ollama_trimmed]
    by (simp add: ollama_generate_def split: if_splits)
qed (simp add: ollama_generate_def has_user_text_def)

interpretation openai: model_client "openai_generate c send dec" has_user_text for c send dec
proof
  show "fst (openai_generate c send dec r w) = Inr t \<Longrightarrow> t \<noteq> [] \<and> trim_space t = t" for r w t
    using call_model_trimmed [of choose_openai, OF choose_openai_trimmed]
    by (simp add: openai_generate_def split: if_splits)
qed (simp add: openai_generate_def has_user_text_def)
text \<open>
  A model service is only asked when there is something to say, and its reply is never blank. With a
  blank message both clients return an error and no request goes out; a reply that is returned is
  a trimmed, non-empty text, whatever the service sends and however it is decoded.
\<close>

theorem model_reply_not_blank:
  "(fst (openai_generate c send dec r w) = Inr t \<longrightarrow> t \<noteq> [] \<and> trim_space t = t \<and> has_user_text r)
   \<and> (fst (ollama_generate d send dec' r w) = Inr t \<longrightarrow> t \<noteq> [] \<and> trim_space t = t \<and> has_user_text r)
   \<and> (\<not> has_user_text r \<longrightarrow> snd (openai_generate c send dec r w) = w \<and> snd (ollama_generate d send dec' r w) = w)"
  using openai.trimmed_reply [of c send dec r w t] ollama.trimmed_reply [of d send dec' r w t]
    openai.not_asked [of r c send dec w] ollama.not_asked [of r d send dec' w]
  by (auto simp: openai_generate_def ollama_generate_def has_user_text_def split: if_splits)

definition demo_ask :: model_request where
  "demo_ask = \<lparr>mq_agent = [], mq_session = [], mq_user = ''hi'', mq_history = [], mq_summary = [],
     mq_identity = \<lparr>id_name = [], id_avatar = [], id_emoji = []\<rparr>, mq_soul = [], mq_project = [], mq_skill = [],
     mq_memory = []\<rparr>"

theorem model_reply_not_blank_witness:
  "fst (ollama_generate \<lparr>ol_base = ''u'', ol_model = ''m'', ol_agent = ''a''\<rparr> (\<lambda>_ w. (Inr (200, ''b''), w + 1))
      (\<lambda>_. Inr \<lparr>or_response = '' hey '', or_error = []\<rparr>) demo_ask (0::nat)) = Inr ''hey''
   \<and> trim_space ''hey'' = ''hey'' \<and> has_user_text demo_ask"
proof -
  have "fst (ollama_generate \<lparr>ol_base = ''u'', ol_model = ''m'', ol_agent = ''a''\<rparr> (\<lambda>_ w. (Inr (200, ''b''), w + 1))
      (\<lambda>_. Inr \<lparr>or_response = '' hey '', or_error = []\<rparr>) demo_ask (0::nat)) = Inr ''hey''" by code_simp
  note r = model_reply_not_blank [THEN conjunct2, THEN conjunct1, THEN mp, OF this] and t = this
  show ?thesis using r t by blast
qed

end
