(* ===== verification/Config.thy ===== *)
theory Config
  imports Domain
begin

text \<open>
  \<open>internal/config/config.go\<close>: the configuration record, the defaults and the clamping that
  \<open>Load\<close> applies to the decoded file, the validation of the Telegram accounts, and the
  accessors of the optional switches. The text of the file goes through \<open>encoding/json\<close>,
  an argument of \<open>config_load\<close>; so does \<open>os.Getenv\<close>.
\<close>

section \<open>The record\<close>

record gateway_config =
  gc_bind :: string
  gc_port :: int
  gc_token :: string

record agent_config =
  ac_id :: string
  ac_workspace :: string

record binding_rule =
  br_agent :: string
  br_channel :: string
  br_account :: string
  br_peer :: string

record session_config =
  sc_state_dir :: string
  sc_history_limit :: int
  sc_summary_max :: int
  sc_summary_line :: int

record tools_config =
  tcf_allow :: "string list"
  tcf_deny :: "string list"

record mcp_config =
  mc_enabled :: "bool option"
  mc_file :: string
  mc_prefix :: string

record skills_config =
  skc_enabled :: "bool option"
  skc_auto_match :: "bool option"
  skc_max_injected :: int
  skc_allowlist :: "string list"
  skc_entries :: "(string \<times> bool option) list"
  skc_max_body :: int

record model_config =
  moc_provider :: string
  moc_timeout :: int
  moc_openai_key :: string
  moc_openai_url :: string
  moc_openai_model :: string
  moc_ollama_url :: string
  moc_ollama_model :: string

record profile_config =
  pc_update_mode :: string
  pc_auto_detect :: "bool option"
  pc_allowed :: "string list"
  pc_max_bytes :: int

record telegram_config =
  tg_account :: string
  tg_enabled :: bool
  tg_token :: string
  tg_polling :: bool
  tg_username :: string
  tg_auto_username :: "bool option"
  tg_require_mention :: "bool option"
  tg_help :: "bool option"
  tg_interval_ms :: int
  tg_dedupe :: int
  tg_mode :: string
  tg_users :: "string list"
  tg_chats :: "string list"

record config =
  cf_gateway :: gateway_config
  cf_default_id :: string
  cf_agents :: "agent_config list"
  cf_bindings :: "binding_rule list"
  cf_session :: session_config
  cf_tools :: tools_config
  cf_mcp :: mcp_config
  cf_memory_scope :: string
  cf_skills :: skills_config
  cf_model :: model_config
  cf_templates :: "bool option"
  cf_template_dir :: string
  cf_reload_mode :: string
  cf_profile :: profile_config
  cf_telegram :: telegram_config
  cf_telegram_accounts :: "telegram_config list"

text \<open>The accessors of the switches that default to true.\<close>

definition switch_value :: "bool option \<Rightarrow> bool" where
  "switch_value b = (case b of None \<Rightarrow> True | Some v \<Rightarrow> v)"

definition normalize_account_id :: "string \<Rightarrow> string" where
  "normalize_account_id v =
     (let value = to_lower (trim_space v) in if value = [] then ''default'' else value)"

section \<open>Defaults\<close>

abbreviation or_default :: "string \<Rightarrow> string \<Rightarrow> string" where
  "or_default v d \<equiv> (if v = [] then d else v)"

abbreviation or_positive :: "int \<Rightarrow> int \<Rightarrow> int" where
  "or_positive v d \<equiv> (if v \<le> 0 then d else v)"

definition allowlist_modes :: "string list" where
  "allowlist_modes = [''off'', ''users'', ''chats'', ''users_or_chats'', ''users_and_chats'']"

text \<open>
  Field by field: an unknown mode becomes \<open>off\<close>, and \<open>off\<close> gives way to the mode the two
  lists imply.
\<close>

definition telegram_mode :: "string \<Rightarrow> string list \<Rightarrow> string list \<Rightarrow> string" where
  "telegram_mode mode users chats =
     (let m = (if mode \<in> set allowlist_modes then mode else ''off'')
      in if m = ''off'' then
           (if users \<noteq> [] \<and> chats \<noteq> [] then ''users_or_chats''
            else if users \<noteq> [] then ''users''
            else if chats \<noteq> [] then ''chats''
            else m)
         else m)"

definition apply_telegram_defaults :: "telegram_config \<Rightarrow> telegram_config" where
  "apply_telegram_defaults c =
     c\<lparr>tg_account := normalize_account_id (tg_account c),
       tg_mode := telegram_mode (tg_mode c) (tg_users c) (tg_chats c),
       tg_interval_ms := (let i = (if tg_interval_ms c < 0 then 0 else tg_interval_ms c)
                          in if i = 0 then 700 else i),
       tg_dedupe := or_positive (tg_dedupe c) 2048\<rparr>"

definition default_profile_files :: "string list" where
  "default_profile_files =
     [''IDENTITY.md'', ''SOUL.md'', ''USER.md'', ''TOOLS.md'', ''AGENTS.md'', ''MEMORY.md'']"

definition gateway_defaults :: "gateway_config \<Rightarrow> gateway_config" where
  "gateway_defaults g = g\<lparr>gc_bind := or_default (gc_bind g) ''127.0.0.1'',
     gc_port := (if gc_port g = 0 then 18789 else gc_port g)\<rparr>"

definition session_defaults :: "session_config \<Rightarrow> session_config" where
  "session_defaults s =
     \<lparr>sc_state_dir = or_default (sc_state_dir s) ''./state'',
      sc_history_limit = or_positive (sc_history_limit s) 24,
      sc_summary_max = or_positive (sc_summary_max s) 1800,
      sc_summary_line = or_positive (sc_summary_line s) 180\<rparr>"

definition mcp_defaults :: "mcp_config \<Rightarrow> mcp_config" where
  "mcp_defaults m = m\<lparr>mc_file := or_default (mc_file m) ''./mcp.json'',
     mc_prefix := or_default (mc_prefix m) ''mcp''\<rparr>"

definition skills_defaults :: "skills_config \<Rightarrow> skills_config" where
  "skills_defaults k = k\<lparr>skc_max_injected := or_positive (skc_max_injected k) 1,
     skc_max_body := or_positive (skc_max_body k) 4000\<rparr>"

definition model_defaults :: "string \<Rightarrow> model_config \<Rightarrow> model_config" where
  "model_defaults env_key m =
     \<lparr>moc_provider = or_default (moc_provider m) ''echo'',
      moc_timeout = or_positive (moc_timeout m) 60,
      moc_openai_key = or_default (moc_openai_key m) env_key,
      moc_openai_url = or_default (moc_openai_url m) ''https://api.openai.com/v1'',
      moc_openai_model = or_default (moc_openai_model m) ''gpt-5-codex'',
      moc_ollama_url = or_default (moc_ollama_url m) ''http://127.0.0.1:11434'',
      moc_ollama_model = or_default (moc_ollama_model m) ''llama3.2''\<rparr>"

definition profile_defaults :: "profile_config \<Rightarrow> profile_config" where
  "profile_defaults p =
     p\<lparr>pc_update_mode := (let m = or_default (pc_update_mode p) ''hybrid''
         in if m \<in> {''explicit'', ''hybrid'', ''auto''} then m else ''hybrid''),
       pc_max_bytes := or_positive (pc_max_bytes p) 262144,
       pc_allowed := (if pc_allowed p = [] then default_profile_files else pc_allowed p)\<rparr>"

definition load_defaults :: "string \<Rightarrow> config \<Rightarrow> config" where
  "load_defaults env_key c =
     \<lparr>cf_gateway = gateway_defaults (cf_gateway c),
      cf_default_id = or_default (cf_default_id c) ''main'',
      cf_agents = cf_agents c,
      cf_bindings = cf_bindings c,
      cf_session = session_defaults (cf_session c),
      cf_tools = cf_tools c,
      cf_mcp = mcp_defaults (cf_mcp c),
      cf_memory_scope = (let m = or_default (cf_memory_scope c) ''dm_only''
        in if m \<in> {''dm_only'', ''all''} then m else ''dm_only''),
      cf_skills = skills_defaults (cf_skills c),
      cf_model = model_defaults env_key (cf_model c),
      cf_templates = cf_templates c,
      cf_template_dir = or_default (cf_template_dir c) ''./workspace/templates'',
      cf_reload_mode = (let m = or_default (cf_reload_mode c) ''per_message''
        in if m \<in> {''per_message'', ''session_snapshot''} then m else ''per_message''),
      cf_profile = profile_defaults (cf_profile c),
      cf_telegram = apply_telegram_defaults (cf_telegram c),
      cf_telegram_accounts = map apply_telegram_defaults (cf_telegram_accounts c)\<rparr>"

section \<open>Validation\<close>

datatype config_error =
    TokenRequired
  | AccountTokenRequired nat
  | DuplicateAccount string
  | AgentsRequired
  | ReadFailed go_error
  | ParseFailed go_error

text \<open>The closure \<open>register\<close> over the set of accounts seen.\<close>

definition register_account :: "string list \<Rightarrow> string \<Rightarrow> config_error + string list" where
  "register_account seen a = (if a \<in> set seen then Inl (DuplicateAccount a) else Inr (a # seen))"

fun validate_accounts :: "nat \<Rightarrow> string list \<Rightarrow> telegram_config list \<Rightarrow> config_error option" where
  "validate_accounts i seen [] = None"
| "validate_accounts i seen (a # as) =
     (if \<not> tg_enabled a then validate_accounts (Suc i) seen as
      else if trim_space (tg_token a) = [] then Some (AccountTokenRequired i)
      else (case register_account seen (normalize_account_id (tg_account a)) of
              Inl e \<Rightarrow> Some e
            | Inr seen' \<Rightarrow> validate_accounts (Suc i) seen' as))"

definition validate_telegram_accounts :: "config \<Rightarrow> config_error option" where
  "validate_telegram_accounts c =
     (let t = cf_telegram c in
      if tg_enabled t then
        (if trim_space (tg_token t) = [] then Some TokenRequired
         else (case register_account [] (normalize_account_id (tg_account t)) of
                 Inl e \<Rightarrow> Some e
               | Inr seen \<Rightarrow> validate_accounts 0 seen (cf_telegram_accounts c)))
      else validate_accounts 0 [] (cf_telegram_accounts c))"

definition config_load ::
    "(string \<Rightarrow> go_error + config) \<Rightarrow> string \<Rightarrow> fs \<Rightarrow> string \<Rightarrow> config_error + config" where
  "config_load decode env_key s path =
     (case read_file s path of
        Inl e \<Rightarrow> Inl (ReadFailed (io_msg e))
      | Inr b \<Rightarrow>
          (case decode b of
             Inl e \<Rightarrow> Inl (ParseFailed e)
           | Inr raw \<Rightarrow>
               (let c = load_defaults env_key raw
                in case validate_telegram_accounts c of
                     Some e \<Rightarrow> Inl e
                   | None \<Rightarrow> if cf_agents c = [] then Inl AgentsRequired else Inr c)))"

text \<open>\<open>collectEnabledTelegramAccounts\<close> of the daemon.\<close>

definition enabled_telegram :: "config \<Rightarrow> telegram_config list" where
  "enabled_telegram c =
     (if tg_enabled (cf_telegram c) then [cf_telegram c] else [])
       @ filter tg_enabled (cf_telegram_accounts c)"

section \<open>What a loaded configuration satisfies\<close>

definition telegram_id :: "telegram_config \<Rightarrow> string" where
  "telegram_id t = normalize_account_id (tg_account t)"

definition telegram_wf :: "telegram_config \<Rightarrow> bool" where
  "telegram_wf t \<longleftrightarrow> tg_account t \<noteq> [] \<and> telegram_id t = tg_account t
     \<and> tg_mode t \<in> set allowlist_modes \<and> 0 < tg_interval_ms t \<and> 0 < tg_dedupe t
     \<and> (tg_mode t = ''off'' \<longrightarrow> tg_users t = [] \<and> tg_chats t = [])"

definition config_wf :: "config \<Rightarrow> bool" where
  "config_wf c \<longleftrightarrow>
     cf_default_id c \<noteq> [] \<and> cf_agents c \<noteq> []
     \<and> gc_bind (cf_gateway c) \<noteq> [] \<and> gc_port (cf_gateway c) \<noteq> 0
     \<and> sc_state_dir (cf_session c) \<noteq> []
     \<and> 0 < sc_history_limit (cf_session c) \<and> 0 < sc_summary_max (cf_session c)
     \<and> 0 < sc_summary_line (cf_session c)
     \<and> mc_file (cf_mcp c) \<noteq> [] \<and> mc_prefix (cf_mcp c) \<noteq> []
     \<and> cf_memory_scope c \<in> {''dm_only'', ''all''}
     \<and> 0 < skc_max_injected (cf_skills c) \<and> 0 < skc_max_body (cf_skills c)
     \<and> moc_provider (cf_model c) \<noteq> [] \<and> 0 < moc_timeout (cf_model c)
     \<and> cf_reload_mode c \<in> {''per_message'', ''session_snapshot''}
     \<and> pc_update_mode (cf_profile c) \<in> {''explicit'', ''hybrid'', ''auto''}
     \<and> 0 < pc_max_bytes (cf_profile c) \<and> pc_allowed (cf_profile c) \<noteq> []
     \<and> telegram_wf (cf_telegram c) \<and> (\<forall>t \<in> set (cf_telegram_accounts c). telegram_wf t)"

text \<open>The accounts that are enabled can be told apart, and each has a token.\<close>

definition accounts_valid :: "telegram_config list \<Rightarrow> bool" where
  "accounts_valid ts \<longleftrightarrow>
     (\<forall>t \<in> set ts. trim_space (tg_token t) \<noteq> []) \<and> distinct (map telegram_id ts)"

lemma normalize_account_id_simps [simp]:
  "normalize_account_id v \<noteq> []"
  "normalize_account_id (normalize_account_id v) = normalize_account_id v"
proof -
  show "normalize_account_id v \<noteq> []"
    by (simp add: normalize_account_id_def Let_def)
  have d: "normalize_account_id ''default'' = ''default''" by code_simp
  show "normalize_account_id (normalize_account_id v) = normalize_account_id v"
  proof (cases "to_lower (trim_space v) = []")
    case True
    then have "normalize_account_id v = ''default''" by (simp add: normalize_account_id_def)
    with d show ?thesis by simp
  next
    case False
    then show ?thesis by (simp add: normalize_account_id_def)
  qed
qed

lemma apply_telegram_defaults_wf: "telegram_wf (apply_telegram_defaults t)"
  by (auto simp: telegram_wf_def telegram_id_def apply_telegram_defaults_def Let_def
      telegram_mode_def allowlist_modes_def)

lemma apply_telegram_defaults_id: "telegram_wf t \<Longrightarrow> apply_telegram_defaults t = t"
  by (auto simp: telegram_wf_def telegram_id_def apply_telegram_defaults_def Let_def
      telegram_mode_def allowlist_modes_def)

lemma validate_accounts_None:
  "validate_accounts i seen ts = None \<longleftrightarrow>
     accounts_valid (filter tg_enabled ts)
     \<and> (\<forall>t \<in> set ts. tg_enabled t \<longrightarrow> telegram_id t \<notin> set seen)"
  by (induction i seen ts rule: validate_accounts.induct)
    (auto simp: accounts_valid_def register_account_def split: if_splits
      simp flip: telegram_id_def intro: rev_image_eqI)

lemma validate_None_iff:
  "validate_telegram_accounts c = None \<longleftrightarrow> accounts_valid (enabled_telegram c)"
  by (auto simp: validate_telegram_accounts_def enabled_telegram_def Let_def
      register_account_def validate_accounts_None accounts_valid_def
      simp flip: telegram_id_def intro: rev_image_eqI)

lemma load_defaults_wf: "cf_agents c \<noteq> [] \<Longrightarrow> config_wf (load_defaults k c)"
  by (auto simp: config_wf_def load_defaults_def gateway_defaults_def session_defaults_def
      mcp_defaults_def skills_defaults_def model_defaults_def profile_defaults_def Let_def
      default_profile_files_def apply_telegram_defaults_wf)

lemma load_defaults_agents [simp]: "cf_agents (load_defaults k c) = cf_agents c"
  by (simp add: load_defaults_def)

lemma config_load_cases:
  assumes "config_load decode k s path = Inr c"
  obtains b raw where "read_file s path = Inr b" "decode b = Inr raw" "c = load_defaults k raw"
    "accounts_valid (enabled_telegram c)" "cf_agents c \<noteq> []"
  using assms
  by (auto simp: config_load_def Let_def validate_None_iff
      split: sum.splits option.splits if_splits)


text \<open>
  \<open>Load\<close> refuses a decodable file exactly when two enabled Telegram accounts share an
  account id after normalisation, one has a blank token, or no agent is listed.
\<close>

theorem config_load_accepts_iff:
  assumes "read_file s path = Inr b" "decode b = Inr raw"
  shows "(\<exists>c. config_load decode env_key s path = Inr c) \<longleftrightarrow>
    accounts_valid (enabled_telegram (load_defaults env_key raw)) \<and> cf_agents raw \<noteq> []"
  using assms
  by (auto simp: config_load_def Let_def simp flip: validate_None_iff split: option.splits)

section \<open>Witnesses\<close>

definition sample_telegram :: "string \<Rightarrow> telegram_config" where
  "sample_telegram account =
     \<lparr>tg_account = account, tg_enabled = True, tg_token = ''t'', tg_polling = False,
      tg_username = [], tg_auto_username = None, tg_require_mention = None, tg_help = None,
      tg_interval_ms = -5, tg_dedupe = 0, tg_mode = ''nonsense'', tg_users = [''7''],
      tg_chats = []\<rparr>"

definition sample_config :: config where
  "sample_config =
     \<lparr>cf_gateway = \<lparr>gc_bind = [], gc_port = 0, gc_token = ''dev''\<rparr>, cf_default_id = [],
      cf_agents = [\<lparr>ac_id = ''main'', ac_workspace = ''ws''\<rparr>],
      cf_bindings = [\<lparr>br_agent = ''support'', br_channel = '' Telegram'', br_account = ''*'',
        br_peer = []\<rparr>],
      cf_session = \<lparr>sc_state_dir = [], sc_history_limit = 0, sc_summary_max = 0,
        sc_summary_line = 0\<rparr>,
      cf_tools = \<lparr>tcf_allow = [], tcf_deny = []\<rparr>,
      cf_mcp = \<lparr>mc_enabled = None, mc_file = [], mc_prefix = []\<rparr>,
      cf_memory_scope = ''everything'',
      cf_skills = \<lparr>skc_enabled = None, skc_auto_match = None, skc_max_injected = 0,
        skc_allowlist = [], skc_entries = [], skc_max_body = 0\<rparr>,
      cf_model = \<lparr>moc_provider = [], moc_timeout = 0, moc_openai_key = [], moc_openai_url = [],
        moc_openai_model = [], moc_ollama_url = [], moc_ollama_model = []\<rparr>,
      cf_templates = None, cf_template_dir = [], cf_reload_mode = [],
      cf_profile = \<lparr>pc_update_mode = [], pc_auto_detect = None, pc_allowed = [],
        pc_max_bytes = 0\<rparr>,
      cf_telegram = sample_telegram '' Main '', cf_telegram_accounts = [sample_telegram []]\<rparr>"


theorem config_load_accepts_iff_witness:
  "\<exists>c. config_load (\<lambda>_. Inr sample_config) ''k'' (plain_fs [(''nisix.json'', ''{}'')]) ''nisix.json'' = Inr c"
proof -
  have "read_file (plain_fs [(''nisix.json'', ''{}'')]) ''nisix.json'' = Inr ''{}''" by code_simp
  moreover have "accounts_valid (enabled_telegram (load_defaults ''k'' sample_config))
      \<and> cf_agents sample_config \<noteq> []"
    by code_simp
  ultimately show ?thesis
    using config_load_accepts_iff [of "plain_fs [(''nisix.json'', ''{}'')]" "''nisix.json''" "''{}''"
        "\<lambda>_. Inr sample_config" sample_config "''k''"] by simp
qed

end
