(* ===== verification/Access.thy ===== *)
theory Access
  imports Config
begin

text \<open>
  Who may do what: the token check of \<open>internal/security/auth.go\<close>, the allow and deny lists
  of \<open>internal/toolpolicy/policy.go\<close>, and the frame check of \<open>internal/protocol/frames.go\<close>.
  The locale states what the gateway expects of any authenticator.
\<close>

section \<open>Tokens\<close>

record principal =
  pr_id :: string
  pr_role :: string
  pr_scopes :: "string list"

definition authenticate :: "string \<Rightarrow> string \<Rightarrow> go_error + principal" where
  "authenticate configured token =
     (if configured = [] then
        Inr \<lparr>pr_id = ''local'', pr_role = ''operator'', pr_scopes = [''operator.admin'']\<rparr>
      else if token \<noteq> configured then Inl ''security: invalid token''
      else Inr \<lparr>pr_id = ''operator'', pr_role = ''operator'', pr_scopes = [''operator.admin'']\<rparr>)"

text \<open>The interface \<open>Authenticator\<close>: it admits a fixed set of tokens.\<close>

locale authenticator =
  fixes auth :: "string \<Rightarrow> go_error + principal"
    and admitted :: "string \<Rightarrow> bool"
  assumes auth_iff: "is_ok (auth t) \<longleftrightarrow> admitted t"
begin

lemma rejected: "\<not> admitted t \<Longrightarrow> \<exists>e. auth t = Inl e"
  using auth_iff [of t] by (cases "auth t") auto

lemma accepted: "admitted t \<Longrightarrow> \<exists>p. auth t = Inr p"
  using auth_iff [of t] by (cases "auth t") auto

lemma auth_Inr: "auth t = Inr p \<Longrightarrow> admitted t"
  using auth_iff [of t] by simp

end

text \<open>The tokens a configured secret admits: itself, or any when there is none.\<close>

definition token_admitted :: "string \<Rightarrow> string \<Rightarrow> bool" where
  "token_admitted configured token \<longleftrightarrow> configured = [] \<or> token = configured"

interpretation tok: authenticator "authenticate configured" "token_admitted configured"
  for configured
  by unfold_locales (auto simp: authenticate_def token_admitted_def)

section \<open>Tool policy\<close>

record policy =
  po_allow :: "string list"
  po_deny :: "string list"

definition allowed :: "policy \<Rightarrow> string \<Rightarrow> bool" where
  "allowed p name =
     (if name \<in> set (po_deny p) then False
      else if po_allow p = [] then True
      else name \<in> set (po_allow p))"

text \<open>
  Deny wins over allow, an empty allow list allows everything that is not denied, and
  adding names to the deny list never allows a tool that was blocked.
\<close>

theorem policy_deny_wins:
  "(allowed p name \<longleftrightarrow>
      name \<notin> set (po_deny p) \<and> (po_allow p = [] \<or> name \<in> set (po_allow p)))
   \<and> (set (po_deny p) \<subseteq> set (po_deny q) \<and> po_allow q = po_allow p \<and> allowed q name
      \<longrightarrow> allowed p name)"
  by (auto simp: allowed_def)

section \<open>Frames\<close>

record request_frame =
  rf_type :: string
  rf_id :: string
  rf_method :: string
  rf_params :: goany

definition validate_request :: "request_frame \<Rightarrow> go_error option" where
  "validate_request f =
     (if rf_type f \<noteq> ''req'' then Some ''protocol: request type must be req''
      else if rf_id f = [] \<or> rf_method f = [] then
        Some ''protocol: request id and method are required''
      else None)"

definition current_protocol :: int where "current_protocol = 1"

end
