(* ===== verification/Runtime.thy ===== *)
theory Runtime
  imports ToolCall Workspace Skills Prompts Access Mcp
begin

text \<open>
  \<open>internal/agentruntime/runtime.go\<close>: one run of an agent, from an inbound message to the events
  it sends. The world of a run is the file system beside whatever else its tools and its model
  change. The events of the channel are a list; the clock is read once per run, and the times
  at which the context of the run may be found cancelled are an argument. JSON, the \<open>%+v\<close> of a
  tool's output and the Unicode tables are arguments too. A registry that is nil is an empty
  one: the daemon always sets it, and apart from \<open>!tool\<close>, which would panic, the code treats
  both alike.
\<close>

section \<open>State\<close>

type_synonym 'x world = "fs \<times> 'x"

record ('c, 'x) runtime =
  ru_tools :: "'x world registry"
  ru_policy :: policy
  ru_mcp :: "'c mcp_manager option option"
  ru_memory :: "string option"
  ru_identity :: identity
  ru_soul :: string
  ru_workspace :: string
  ru_bootstrap :: "string option"
  ru_profile :: "profile option"
  ru_skills :: "skills option"
  ru_model :: "(model_request \<Rightarrow> 'x world \<Rightarrow> (go_error + string) \<times> 'x world) option"
  ru_scope :: string
  ru_mode :: string
  ru_auto :: bool

record run_env =
  en_now :: gtime
  en_rfc :: string
  en_cancel :: "nat \<Rightarrow> bool"
  en_letters :: "nat \<Rightarrow> bool"
  en_show :: "goany \<Rightarrow> string"
  en_marshal :: "goany \<Rightarrow> go_error + string"
  en_args :: "string \<Rightarrow> go_error + gomap"
  en_enc_state :: "onboarding \<Rightarrow> go_error + string"
  en_dec_state :: "string \<Rightarrow> go_error + onboarding"

text \<open>\<open>New\<close> normalises the two options.\<close>

definition set_options :: "string \<Rightarrow> string \<Rightarrow> ('c, 'x) runtime \<Rightarrow> ('c, 'x) runtime" where
  "set_options scope mode rt = rt\<lparr>ru_scope := normal_key scope, ru_mode := normal_key mode\<rparr>"

section \<open>Listings\<close>

definition value_or_dash :: "string \<Rightarrow> string" where
  "value_or_dash s = (if trim_space s = [] then ''-'' else trim_space s)"

definition with_desc :: "string \<Rightarrow> string \<Rightarrow> string" where
  "with_desc line desc = (if trim_space desc = [] then line else line @ '' - '' @ trim_space desc)"

definition skill_line :: "skill \<Rightarrow> string" where
  "skill_line k =
     with_desc (''- '' @ sk_name k @ '' ['' @
       (if sk_enabled k then ''enabled''
        else ''disabled'' @ (if trim_space (sk_reason k) = [] then [] else '' ('' @ sk_reason k @ '')''))
       @ '']'') (sk_desc k)"

definition list_skills :: "('c, 'x) runtime \<Rightarrow> fs \<Rightarrow> string \<times> ('c, 'x) runtime" where
  "list_skills rt s =
     (case ru_skills rt of
        None \<Rightarrow> (''skills service unavailable'', rt)
      | Some sv \<Rightarrow>
          (case (if trim_space (ru_workspace rt) = [] then (Inr (sv_loaded sv), sv)
                 else load_all (ru_workspace rt) s sv) of
             (Inl e, sv') \<Rightarrow> (''skills list failed: '' @ e, rt\<lparr>ru_skills := Some sv'\<rparr>)
           | (Inr loaded, sv') \<Rightarrow>
               (if loaded = [] then ''no skills found'' else join [NL] (''skills:'' # map skill_line loaded),
                rt\<lparr>ru_skills := Some sv'\<rparr>)))"

definition tool_line :: "policy \<Rightarrow> metadata \<Rightarrow> string" where
  "tool_line p md =
     with_desc (''- '' @ md_name md @ '' ['' @ (if allowed p (md_name md) then ''allowed'' else ''blocked'') @ '']'')
       (md_desc md)"

definition list_registered :: "('c, 'x) runtime \<Rightarrow> string" where
  "list_registered rt =
     (let catalog = reg_catalog (ru_tools rt)
      in if catalog = [] then ''no tools registered''
         else join [NL] (''tools:'' # map (tool_line (ru_policy rt)) catalog))"

text \<open>
  The inspector is an interface: \<open>None\<close> is the nil interface, \<open>Some None\<close> one that holds a nil
  \<open>*mcp.Manager\<close>, which is what the daemon sets when there is no manager.
\<close>

definition mcp_status_text :: "'c mcp_manager option option \<Rightarrow> string" where
  "mcp_status_text mo =
     (case mo of
        None \<Rightarrow> ''mcp runtime unavailable''
      | Some m \<Rightarrow>
          (let st = mcp_status m
           in if \<not> sn_available st then ''mcp runtime unavailable''
              else join [NL]
                ([''mcp: available=true prefix='' @ value_or_dash (sn_prefix st) @ '' tools='' @ itoa (sn_tools st)
                   @ '' servers='' @ itoa (int (length (sn_servers st)))]
                 @ (if trim_space (sn_file st) = [] then [] else [''config: '' @ sn_file st])
                 @ (if sn_servers st = [] then [''servers: none'']
                    else ''servers:'' # map (\<lambda>v. ''- '' @ ss_name v @ '' ['' @ value_or_dash (ss_transport v)
                           @ ''] tools='' @ itoa (ss_tools v)) (sn_servers st)))))"

definition mapping_line :: "tool_mapping \<Rightarrow> string" where
  "mapping_line t = with_desc (''- '' @ tm_local t @ '' -> '' @ tm_server t @ ''.'' @ tm_remote t) (tm_desc t)"

definition mcp_tools_text :: "'c mcp_manager option option \<Rightarrow> string" where
  "mcp_tools_text mo =
     (case mo of
        None \<Rightarrow> ''mcp runtime unavailable''
      | Some m \<Rightarrow>
          if mcp_tools m = [] then ''mcp tools: none''
          else join [NL] (''mcp tools:'' # map mapping_line (mcp_tools m)))"

section \<open>Commands\<close>

definition format_command_error :: "go_error \<Rightarrow> string" where
  "format_command_error e =
     (let k = trim_space e
      in if k = forbidden_file then ''file is not allowed. Use /profile list to see writable files.''
         else if k = file_too_large then ''content is too large for this file.''
         else if k = proposal_invalid then ''proposal is invalid or expired.''
         else if k = internal_error then ''internal error while processing profile update.''
         else e)"

definition no_profile :: string where "no_profile = ''profile service unavailable''"
definition no_bootstrap :: string where "no_bootstrap = ''bootstrap service unavailable''"

definition update_req :: "string \<Rightarrow> string \<Rightarrow> string \<Rightarrow> string \<Rightarrow> update_request" where
  "update_req file body mode reason =
     \<lparr>ur_file = file, ur_content = body, ur_mode = mode, ur_reason = reason\<rparr>"

definition show_command :: "profile \<Rightarrow> fs \<Rightarrow> string \<Rightarrow> string" where
  "show_command p s file =
     (case profile_get p s file of
        Inl e \<Rightarrow> ''profile show failed: '' @ format_command_error e
      | Inr r \<Rightarrow>
          if trim_space (gr_content r) = [] then gr_file r @ '' is empty''
          else ''## '' @ gr_file r @ [NL] @ trim_space (gr_content r))"

definition diff_command ::
    "gtime \<Rightarrow> string \<Rightarrow> profile \<Rightarrow> fs \<Rightarrow> string \<Rightarrow> string \<Rightarrow> string \<times> profile \<times> fs" where
  "diff_command now session p s file body =
     (let pick = (if trim_space body \<noteq> [] then (Some (trim_space body, ''replace''), p)
            else (case latest_proposal now session file p of
                    (None, p') \<Rightarrow> (None, p')
                  | (Some pr, p') \<Rightarrow> (Some (ur_content (pp_request pr), ur_mode (pp_request pr)), p')))
      in case pick of
           (None, p') \<Rightarrow> (''profile diff requires content or an active proposal for this file'', p', s)
         | (Some (candidate, mode), p') \<Rightarrow>
             (case profile_get p' s file of
                Inl e \<Rightarrow> (''profile diff failed: '' @ format_command_error e, p', s)
              | Inr cur \<Rightarrow>
                  (case profile_preview p' (update_req file candidate mode ''chat_command_diff'') s of
                     (Inl e, s') \<Rightarrow> (''profile diff failed: '' @ format_command_error e, p', s')
                   | (Inr proposed, s') \<Rightarrow>
                       (''## Diff '' @ gr_file cur @ [NL] @ render_line_diff (gr_content cur) proposed, p', s'))))"

definition write_command ::
    "gtime \<Rightarrow> profile \<Rightarrow> fs \<Rightarrow> string \<Rightarrow> string \<Rightarrow> string \<Rightarrow> string \<Rightarrow> string \<times> fs" where
  "write_command now p s file body mode done =
     (if trim_space body = [] then (''profile '' @ (if mode = ''append'' then ''append'' else ''set'') @ '' requires content'', s)
      else (case profile_update now p (update_req file body mode
                   (if mode = ''append'' then ''chat_command_append'' else ''chat_command_set'')) s of
              (Inl e, s') \<Rightarrow>
                (''profile '' @ (if mode = ''append'' then ''append'' else ''set'') @ '' failed: ''
                   @ format_command_error e, s')
            | (Inr r, s') \<Rightarrow> (done @ '' '' @ us_file r @ '' ('' @ itoa (us_bytes r) @ '' bytes)'', s')))"

definition apply_command ::
    "gtime \<Rightarrow> string \<Rightarrow> profile \<Rightarrow> fs \<Rightarrow> string \<Rightarrow> string \<times> profile \<times> fs" where
  "apply_command now session p s i =
     (case apply_proposal now session i p s of
        (Inl e, p', s') \<Rightarrow> (''profile apply failed: '' @ format_command_error e, p', s')
      | (Inr r, p', s') \<Rightarrow>
          (''proposal applied to '' @ us_file r @ '' ('' @ itoa (us_bytes r) @ '' bytes)'', p', s'))"

definition onboard_status :: "run_env \<Rightarrow> string \<Rightarrow> fs \<Rightarrow> string" where
  "onboard_status en root s =
     (case get_status (en_dec_state en) root s of
        Inl e \<Rightarrow> ''onboard status failed: '' @ e
      | Inr st \<Rightarrow> ''seeded='' @ show_bool (ws_seeded st) @ '' onboardingCompleted='' @ show_bool (ws_completed st)
                    @ '' bootstrapExists='' @ show_bool (ws_bootstrap st))"

definition onboard_done :: "run_env \<Rightarrow> string \<Rightarrow> fs \<Rightarrow> string \<times> fs" where
  "onboard_done en root s =
     (case complete_onboarding (en_enc_state en) (en_dec_state en) (en_now en) (en_rfc en) root True s of
        (Inl e, s') \<Rightarrow> (''onboard done failed: '' @ e, s')
      | (Inr st, s') \<Rightarrow> (''onboarding completed='' @ show_bool (ws_completed st) @ '' bootstrapRemoved=''
                           @ show_bool (\<not> ws_bootstrap st), s'))"

text \<open>A command that needs the profile, and one that needs the bootstrap service.\<close>

definition on_profile ::
    "('c, 'x) runtime \<Rightarrow> fs \<Rightarrow> (profile \<Rightarrow> string \<times> profile \<times> fs) \<Rightarrow> string \<times> ('c, 'x) runtime \<times> fs" where
  "on_profile rt s f =
     (case ru_profile rt of
        None \<Rightarrow> (no_profile, rt, s)
      | Some p \<Rightarrow> (case f p of (t, p', s') \<Rightarrow> (t, rt\<lparr>ru_profile := Some p'\<rparr>, s')))"

definition on_bootstrap ::
    "('c, 'x) runtime \<Rightarrow> fs \<Rightarrow> (string \<Rightarrow> string \<times> fs) \<Rightarrow> string \<times> ('c, 'x) runtime \<times> fs" where
  "on_bootstrap rt s f =
     (case ru_bootstrap rt of
        None \<Rightarrow> (no_bootstrap, rt, s)
      | Some root \<Rightarrow> (case f root of (t, s') \<Rightarrow> (t, rt, s')))"

definition run_command ::
    "run_env \<Rightarrow> string \<Rightarrow> command \<Rightarrow> ('c, 'x) runtime \<Rightarrow> fs \<Rightarrow> string \<times> ('c, 'x) runtime \<times> fs" where
  "run_command en session cmd rt s =
     (case cmd of
        ProfileList \<Rightarrow> on_profile rt s (\<lambda>p.
          (if profile_allowed_files p = [] then ''no profile files are writable''
           else ''allowed profile files: '' @ join '', '' (profile_allowed_files p), p, s))
      | ProfileShow file \<Rightarrow> on_profile rt s (\<lambda>p. (show_command p s file, p, s))
      | ProfileDiff file body \<Rightarrow> on_profile rt s (\<lambda>p. diff_command (en_now en) session p s file body)
      | ProfileSet file body \<Rightarrow> on_profile rt s (\<lambda>p.
          case write_command (en_now en) p s file body ''replace'' ''updated'' of (t, s') \<Rightarrow> (t, p, s'))
      | ProfileAppend file body \<Rightarrow> on_profile rt s (\<lambda>p.
          case write_command (en_now en) p s file body ''append'' ''appended'' of (t, s') \<Rightarrow> (t, p, s'))
      | ProfileApply i \<Rightarrow> on_profile rt s (\<lambda>p. apply_command (en_now en) session p s i)
      | OnboardStatus \<Rightarrow> on_bootstrap rt s (\<lambda>root. (onboard_status en root s, s))
      | OnboardDone \<Rightarrow> on_bootstrap rt s (\<lambda>root. onboard_done en root s))"

text \<open>\<open>handleCommand\<close>: \<open>None\<close> when the text is no command.\<close>

definition handle_command ::
    "run_env \<Rightarrow> string \<Rightarrow> string \<Rightarrow> ('c, 'x) runtime \<Rightarrow> fs \<Rightarrow> (string \<times> ('c, 'x) runtime \<times> fs) option" where
  "handle_command en session t rt s =
     (let k = normal_key t
      in if k = ''/skills list'' \<or> k = ''/skill list'' then
           Some (case list_skills rt s of (out, rt') \<Rightarrow> (out, rt', s))
         else if k = ''/tools list'' \<or> k = ''/tool list'' then Some (list_registered rt, rt, s)
         else if k = ''/mcp status'' then Some (mcp_status_text (ru_mcp rt), rt, s)
         else if k = ''/mcp tools'' then Some (mcp_tools_text (ru_mcp rt), rt, s)
         else map_option (\<lambda>cmd. run_command en session cmd rt s) (parse_command t))"

section \<open>Tool calls\<close>

definition called :: "string \<Rightarrow> gomap \<Rightarrow> goany \<Rightarrow> string \<Rightarrow> string \<Rightarrow> tool_call" where
  "called name input output err status =
     \<lparr>tc_name = name, tc_input = input, tc_output = output, tc_error = err, tc_status = status\<rparr>"

definition tool_text :: "run_env \<Rightarrow> string \<Rightarrow> goany \<Rightarrow> string" where
  "tool_text en name data = ''tool '' @ name @ '' result: '' @ en_show en data"

definition tool_answer :: "run_env \<Rightarrow> string \<Rightarrow> goany \<Rightarrow> string" where
  "tool_answer en name data =
     (case (if name = ''time_now'' then (case data of VMap m \<Rightarrow> map_of m ''now'' | _ \<Rightarrow> None) else None) of
        Some now \<Rightarrow> ''Server time now: '' @ en_show en now
      | None \<Rightarrow> (case en_marshal en data of Inr s \<Rightarrow> s | Inl _ \<Rightarrow> tool_text en name data))"

text \<open>
  \<open>maybeExecuteGeneratedToolCall\<close>: the text of the tool event, the text of the answer and the
  call, or \<open>None\<close> when the generated text holds no call.
\<close>

definition generated_call ::
    "run_env \<Rightarrow> policy \<Rightarrow> 'x world registry \<Rightarrow> string \<Rightarrow> 'x world
      \<Rightarrow> (string \<times> string \<times> tool_call option) option \<times> 'x world" where
  "generated_call en pol reg generated w =
     (case parse_tool_call (en_args en) (reg_list reg) generated of
        None \<Rightarrow> (None, w)
      | Some (Inl e) \<Rightarrow> (Some ([], ''tool error: '' @ e, None), w)
      | Some (Inr (name, input)) \<Rightarrow>
          if \<not> allowed pol name
          then (Some ([], ''tool blocked by policy'', Some (called name input VNil [] ''blocked'')), w)
          else (case reg_execute reg name input w of
                  (Inl e, w') \<Rightarrow> (Some ([], ''tool error: '' @ e, Some (called name input VNil e ''error'')), w')
                | (Inr data, w') \<Rightarrow>
                    (Some (tool_text en name data, tool_answer en name data,
                       Some (called name input data [] ''success'')), w')))"

section \<open>A run\<close>

definition final_event :: "string \<Rightarrow> string \<Rightarrow> string \<Rightarrow> agent_event" where
  "final_event r s t = (event ''final'' r s t)\<lparr>ev_done := True\<rparr>"

definition aborted_event :: "string \<Rightarrow> string \<Rightarrow> agent_event" where
  "aborted_event r s = (final_event r s ''run aborted'')\<lparr>ev_aborted := True\<rparr>"

definition tool_event :: "string \<Rightarrow> string \<Rightarrow> string \<Rightarrow> tool_call option \<Rightarrow> agent_event" where
  "tool_event r s t c = (event ''tool'' r s t)\<lparr>ev_provider := ''tool'', ev_tool := c\<rparr>"

subsection \<open>\<open>!slow\<close> and \<open>!tool\<close>\<close>

fun slow_from :: "(nat \<Rightarrow> bool) \<Rightarrow> string \<Rightarrow> string \<Rightarrow> string \<Rightarrow> nat \<Rightarrow> nat \<Rightarrow> agent_event list" where
  "slow_from cancel r s payload i 0 = [final_event r s ''slow run complete'']"
| "slow_from cancel r s payload i (Suc n) =
     (if cancel i then [aborted_event r s]
      else event ''block'' r s (''chunk '' @ itoa (int i + 1) @ '': '' @ payload)
             # slow_from cancel r s payload (Suc i) n)"

definition slow_payload :: "string \<Rightarrow> string" where
  "slow_payload t =
     (case split_n2 (CHR '' '') t of
        [_, p] \<Rightarrow> if trim_space p \<noteq> [] then trim_space p else ''processing''
      | _ \<Rightarrow> ''processing'')"

definition tool_request :: "string \<Rightarrow> string option" where
  "tool_request t =
     (if has_prefix t ''!tool '' then (case str_fields t of _ # name # _ \<Rightarrow> Some name | _ \<Rightarrow> None) else None)"

definition direct_call ::
    "run_env \<Rightarrow> policy \<Rightarrow> 'x world registry \<Rightarrow> string \<Rightarrow> string \<Rightarrow> string \<Rightarrow> 'x world
      \<Rightarrow> agent_event list \<times> 'x world" where
  "direct_call en pol reg r s name w =
     (if \<not> allowed pol name
      then ([(final_event r s ''tool blocked by policy'')\<lparr>ev_provider := ''tool''\<rparr>], w)
      else (case reg_execute reg name [] w of
              (Inl e, w') \<Rightarrow>
                ([(final_event r s (''tool error: '' @ e))\<lparr>ev_provider := ''tool'',
                    ev_tool := Some (called name [] VNil e ''error'')\<rparr>], w')
            | (Inr data, w') \<Rightarrow>
                ([tool_event r s (tool_text en name data) (Some (called name [] data [] ''success'')),
                  final_event r s ''done''], w')))"

subsection \<open>Skills\<close>

definition reject_reason :: "skill list \<Rightarrow> string \<Rightarrow> string" where
  "reject_reason loaded name =
     (case find (\<lambda>k. equal_fold (sk_name k) name) loaded of
        None \<Rightarrow> name @ '' not found''
      | Some k \<Rightarrow> if sk_enabled k then name @ '' unavailable'' else name @ '' blocked ('' @ sk_reason k @ '')'')"

text \<open>The skills of a run: a refusal, or the text for the prompt.\<close>

definition skill_stage :: "('c, 'x) runtime \<Rightarrow> fs \<Rightarrow> string \<Rightarrow> (string + string) \<times> ('c, 'x) runtime" where
  "skill_stage rt s t =
     (case ru_skills rt of
        None \<Rightarrow> (Inr [], rt)
      | Some sv \<Rightarrow>
          if ru_workspace rt = [] then (Inr [], rt)
          else (case load_all (ru_workspace rt) s sv of
                  (res, sv') \<Rightarrow>
                    (let loaded = (case res of Inr ks \<Rightarrow> ks | Inl _ \<Rightarrow> []);
                         explicit = extract_explicit_invocations t;
                         selected = select_for_message sv' t explicit;
                         rt' = rt\<lparr>ru_skills := Some sv'\<rparr>
                     in if explicit \<noteq> [] \<and> selected = []
                        then (Inl (''skill request rejected: '' @ join ''; '' (map (reject_reason loaded) explicit)), rt')
                        else (Inr (join [NL, NL]
                               (map (\<lambda>k. ''## Skill: '' @ sk_name k @ [NL] @ sk_body k) selected)), rt'))))"

subsection \<open>The answer\<close>

record run_context =
  rc_identity :: identity
  rc_soul :: string
  rc_project :: string
  rc_skill :: string
  rc_memory :: "string list"

definition gather_context :: "('c, 'x) runtime \<Rightarrow> fs \<Rightarrow> string \<Rightarrow> string \<Rightarrow> string \<Rightarrow> run_context" where
  "gather_context rt s peer_type t skill =
     (let bundle = map_option (\<lambda>root. load_context root s) (ru_bootstrap rt);
          scope = (if ru_scope rt = [] then ''dm_only'' else ru_scope rt)
      in \<lparr>rc_identity = (case bundle of
              Some b \<Rightarrow> if trim_space (id_name (cb_identity b)) \<noteq> [] then cb_identity b else ru_identity rt
            | None \<Rightarrow> ru_identity rt),
          rc_soul = (case bundle of
              Some b \<Rightarrow> if trim_space (cb_soul b) \<noteq> [] then cb_soul b else ru_soul rt
            | None \<Rightarrow> ru_soul rt),
          rc_project = (case bundle of Some b \<Rightarrow> cb_project b | None \<Rightarrow> []),
          rc_skill = skill,
          rc_memory = (case ru_memory rt of
              None \<Rightarrow> []
            | Some root \<Rightarrow> if scope = ''dm_only'' \<and> peer_type \<noteq> chat_direct then [] else memory_search root t s)\<rparr>)"

definition model_request_of :: "run_request \<Rightarrow> string \<Rightarrow> run_context \<Rightarrow> model_request" where
  "model_request_of rq t c =
     \<lparr>mq_agent = rq_agent rq, mq_session = rq_session rq, mq_user = t, mq_history = rq_history rq,
      mq_summary = rq_summary rq, mq_identity = rc_identity c, mq_soul = rc_soul c,
      mq_project = rc_project c, mq_skill = rc_skill c, mq_memory = rc_memory c\<rparr>"

definition plain_reply :: "string \<Rightarrow> run_context \<Rightarrow> string" where
  "plain_reply t c =
     (if id_name (rc_identity c) = [] then ''Assistant'' else id_name (rc_identity c)) @ '': '' @ t
     @ (if rc_memory c = [] then [] else '' (memory hits: '' @ itoa (int (length (rc_memory c))) @ '')'')
     @ (if trim_space (rc_soul c) = [] then [] else '' [soul loaded]'')
     @ (if trim_space (rc_skill c) = [] then [] else [NL, NL] @ rc_skill c)
     @ (if trim_space (rc_project c) = [] then [] else [NL, NL] @ rc_project c)"

definition answer_stage ::
    "run_env \<Rightarrow> ('c, 'x) runtime \<Rightarrow> run_request \<Rightarrow> string \<Rightarrow> string \<Rightarrow> string \<Rightarrow> 'x world
      \<Rightarrow> agent_event list \<times> 'x world" where
  "answer_stage en rt rq r t skill w =
     (let c = gather_context rt (fst w) (im_peer_type (rq_message rq)) t skill; s = rq_session rq
      in case ru_model rt of
           None \<Rightarrow> ([final_event r s (plain_reply t c)], w)
         | Some generate \<Rightarrow>
             (case generate (model_request_of rq t c) w of
                (Inl e, w') \<Rightarrow> ([(final_event r s (''model error: '' @ e))\<lparr>ev_provider := ''model''\<rparr>], w')
              | (Inr generated, w') \<Rightarrow>
                  (case generated_call en (ru_policy rt) (ru_tools rt) generated w' of
                     (None, w'') \<Rightarrow> ([(final_event r s generated)\<lparr>ev_provider := ''model''\<rparr>], w'')
                   | (Some (ev, answer, call), w'') \<Rightarrow>
                       ((if trim_space ev = [] then [] else [tool_event r s ev call])
                        @ [(final_event r s answer)\<lparr>ev_provider := ''tool''\<rparr>], w''))))"

definition offer_text :: "proposal \<Rightarrow> string" where
  "offer_text p = pp_summary p @ [NL] @ ''Proposal ID: '' @ pp_id p @ [NL]
     @ ''Apply with: /profile apply '' @ pp_id p"

definition proposal_stage :: "run_env \<Rightarrow> ('c, 'x) runtime \<Rightarrow> string \<Rightarrow> string \<Rightarrow> proposal option \<times> ('c, 'x) runtime" where
  "proposal_stage en rt session t =
     (case ru_profile rt of
        None \<Rightarrow> (None, rt)
      | Some p \<Rightarrow>
          if ru_auto rt \<and> ru_mode rt \<noteq> ''explicit''
          then (case maybe_create_proposal (en_letters en) (en_now en) session t p of
                  (pr, p') \<Rightarrow> (pr, rt\<lparr>ru_profile := Some p'\<rparr>))
          else (None, rt))"

definition run_id :: "run_env \<Rightarrow> run_request \<Rightarrow> string" where
  "run_id en rq = (if trim_space (rq_run rq) = [] then ''run-'' @ itoa (nanos (en_now en)) else trim_space (rq_run rq))"

definition agent_run ::
    "run_env \<Rightarrow> run_request \<Rightarrow> ('c, 'x) runtime \<Rightarrow> 'x world \<Rightarrow> agent_event list \<times> ('c, 'x) runtime \<times> 'x world" where
  "agent_run en rq rt w =
     (let r = run_id en rq; s = rq_session rq; t = trim_space (im_text (rq_message rq))
      in case handle_command en s t rt (fst w) of
           Some (out, rt', f) \<Rightarrow> ([final_event r s out], rt', (f, snd w))
         | None \<Rightarrow>
             (case proposal_stage en rt s t of
                (Some p, rt1) \<Rightarrow> ([final_event r s (offer_text p)], rt1, w)
              | (None, rt1) \<Rightarrow>
                  (case skill_stage rt1 (fst w) t of
                     (Inl reason, rt2) \<Rightarrow> ([final_event r s reason], rt2, w)
                   | (Inr skill, rt2) \<Rightarrow>
                       if has_prefix t ''!slow '' \<or> t = ''!slow''
                       then (slow_from (en_cancel en) r s (slow_payload t) 0 20, rt2, w)
                       else (case tool_request t of
                               Some name \<Rightarrow>
                                 (case direct_call en (ru_policy rt2) (ru_tools rt2) r s name w of
                                    (evs, w') \<Rightarrow> (evs, rt2, w'))
                             | None \<Rightarrow>
                                 if en_cancel en 20 then ([aborted_event r s], rt2, w)
                                 else (case answer_stage en rt2 rq r t skill w of
                                         (evs, w') \<Rightarrow> (evs, rt2, w'))))))"

section \<open>Every run ends once\<close>

text \<open>The events of a run: some that are not done, then one final event that is.\<close>

definition run_events :: "string \<Rightarrow> string \<Rightarrow> agent_event list \<Rightarrow> bool" where
  "run_events r s evs \<longleftrightarrow>
     evs \<noteq> [] \<and> ev_done (last evs) \<and> ev_kind (last evs) = ''final''
     \<and> (\<forall>e \<in> set (butlast evs). \<not> ev_done e \<and> ev_kind e \<noteq> ''final'')
     \<and> (\<forall>e \<in> set evs. ev_run e = r \<and> ev_session e = s \<and> ev_err e = None)"

lemma final_fields [simp]:
  "ev_done (final_event r s t)" "ev_kind (final_event r s t) = ''final''" "ev_run (final_event r s t) = r"
  "ev_session (final_event r s t) = s" "ev_text (final_event r s t) = t" "ev_err (final_event r s t) = None"
  "ev_tool (final_event r s t) = None"
  by (simp_all add: final_event_def event_def)

lemma tool_event_fields [simp]:
  "\<not> ev_done (tool_event r s t c)" "ev_kind (tool_event r s t c) = ''tool''" "ev_run (tool_event r s t c) = r"
  "ev_session (tool_event r s t c) = s" "ev_err (tool_event r s t c) = None" "ev_tool (tool_event r s t c) = c"
  by (simp_all add: tool_event_def event_def)

lemma run_events_single:
  "run_events r s [e] \<longleftrightarrow> ev_done e \<and> ev_kind e = ''final'' \<and> ev_run e = r \<and> ev_session e = s \<and> ev_err e = None"
  by (auto simp: run_events_def)

lemma run_events_Cons:
  "run_events r s evs \<Longrightarrow> \<not> ev_done e \<Longrightarrow> ev_kind e \<noteq> ''final'' \<Longrightarrow> ev_run e = r \<Longrightarrow> ev_session e = s \<Longrightarrow>
     ev_err e = None \<Longrightarrow> run_events r s (e # evs)"
  by (auto simp: run_events_def)

lemma run_events_pair:
  "run_events r s [e, f] \<longleftrightarrow> \<not> ev_done e \<and> ev_kind e \<noteq> ''final'' \<and> ev_run e = r \<and> ev_session e = s
     \<and> ev_err e = None \<and> run_events r s [f]"
  by (auto simp: run_events_def)

lemmas run_events_simps = run_events_single run_events_pair

lemma run_events_slow: "run_events r s (slow_from cancel r s p i n)"
  by (induction n arbitrary: i) (auto simp: run_events_single aborted_event_def intro!: run_events_Cons)

lemma run_events_direct: "run_events r s (fst (direct_call en pol reg r s name w))"
  by (auto simp: direct_call_def run_events_simps split: prod.splits sum.splits)

lemma run_events_answer: "run_events (r) (rq_session rq) (fst (answer_stage en rt rq r t skill w))"
  by (auto simp: answer_stage_def Let_def run_events_simps split: prod.splits sum.splits option.splits)

lemma agent_run_events:
  "run_events (run_id en rq) (rq_session rq) (fst (agent_run en rq rt w))"
  by (auto simp: agent_run_def Let_def run_events_simps aborted_event_def run_events_slow
      split: prod.splits sum.splits option.splits)
    (metis fst_conv run_events_direct run_events_answer)+

text \<open>
  C28: a run ends once. Whatever the message, the services that are configured, the tools, the
  model and the moment of a cancellation, the events of a run are blocks and tool events that
  are not done, followed by one final event that is, all with the id and the session of the run.
\<close>

theorem run_ends_once:
  "run_events (run_id en rq) (rq_session rq) (fst (agent_run en rq rt w))"
  by (rule agent_run_events)

section \<open>The policy\<close>

text \<open>A registry whose blocked tools do something else.\<close>

definition swap_blocked :: "policy \<Rightarrow> (string \<Rightarrow> gomap \<Rightarrow> 'w \<Rightarrow> (go_error + goany) \<times> 'w) \<Rightarrow> 'w registry \<Rightarrow> 'w registry" where
  "swap_blocked pol f reg = map (\<lambda>(n, t). (n, if allowed pol n then t else t\<lparr>tl_exec := f n\<rparr>)) reg"

lemma swap_keys [simp]: "keys (swap_blocked pol f reg) = keys reg"
  by (induction reg) (auto simp: swap_blocked_def)

lemma swap_list [simp]: "reg_list (swap_blocked pol f reg) = reg_list reg"
  by (simp add: reg_list_def)

lemma swap_get:
  "reg_get (swap_blocked pol f reg) n =
     map_option (\<lambda>t. if allowed pol n then t else t\<lparr>tl_exec := f n\<rparr>) (reg_get reg n)"
  by (induction reg) (auto simp: swap_blocked_def reg_get_def)

lemma swap_execute: "allowed pol n \<Longrightarrow> reg_execute (swap_blocked pol f reg) n input w = reg_execute reg n input w"
  by (simp add: reg_execute_def swap_get option.map_ident cong: option.map_cong)

lemma swap_catalog [simp]: "reg_catalog (swap_blocked pol f reg) = reg_catalog reg"
proof -
  have "map_option (tool_metadata n) (reg_get (swap_blocked pol f reg) n) = map_option (tool_metadata n) (reg_get reg n)" for n
    by (cases "reg_get reg n") (simp_all add: swap_get tool_metadata_def)
  then show ?thesis by (simp add: reg_catalog_def)
qed

lemma swap_generated [simp]: "generated_call en pol (swap_blocked pol f reg) g w = generated_call en pol reg g w"
  by (auto simp: generated_call_def swap_execute split: option.splits sum.splits)

lemma swap_direct [simp]: "direct_call en pol (swap_blocked pol f reg) r s n w = direct_call en pol reg r s n w"
  by (simp add: direct_call_def swap_execute)

text \<open>The other stages do not look at what the tools do.\<close>

definition rework_blocked ::
    "(string \<Rightarrow> gomap \<Rightarrow> 'x world \<Rightarrow> (go_error + goany) \<times> 'x world) \<Rightarrow> ('c, 'x) runtime \<Rightarrow> ('c, 'x) runtime" where
  "rework_blocked f rt = rt\<lparr>ru_tools := swap_blocked (ru_policy rt) f (ru_tools rt)\<rparr>"

lemma rework_fields [simp]:
  "ru_tools (rework_blocked f rt) = swap_blocked (ru_policy rt) f (ru_tools rt)"
  "ru_policy (rework_blocked f rt) = ru_policy rt" "ru_mcp (rework_blocked f rt) = ru_mcp rt"
  "ru_memory (rework_blocked f rt) = ru_memory rt" "ru_identity (rework_blocked f rt) = ru_identity rt"
  "ru_soul (rework_blocked f rt) = ru_soul rt" "ru_workspace (rework_blocked f rt) = ru_workspace rt"
  "ru_bootstrap (rework_blocked f rt) = ru_bootstrap rt" "ru_profile (rework_blocked f rt) = ru_profile rt"
  "ru_skills (rework_blocked f rt) = ru_skills rt" "ru_model (rework_blocked f rt) = ru_model rt"
  "ru_scope (rework_blocked f rt) = ru_scope rt" "ru_mode (rework_blocked f rt) = ru_mode rt"
  "ru_auto (rework_blocked f rt) = ru_auto rt"
  "rework_blocked f (rt\<lparr>ru_skills := sv\<rparr>) = (rework_blocked f rt)\<lparr>ru_skills := sv\<rparr>"
  "rework_blocked f (rt\<lparr>ru_profile := p\<rparr>) = (rework_blocked f rt)\<lparr>ru_profile := p\<rparr>"
  by (simp_all add: rework_blocked_def)

lemma rework_skills: "list_skills (rework_blocked f rt) s = apsnd (rework_blocked f) (list_skills rt s)"
  by (auto simp: list_skills_def split: option.splits prod.splits sum.splits)

lemma rework_command:
  "run_command en session cmd (rework_blocked f rt) s =
     apsnd (apfst (rework_blocked f)) (run_command en session cmd rt s)"
  by (cases cmd) (auto simp: run_command_def on_profile_def on_bootstrap_def split: option.splits prod.splits)

lemma rework_handle:
  "handle_command en session t (rework_blocked f rt) s =
     map_option (apsnd (apfst (rework_blocked f))) (handle_command en session t rt s)"
  by (auto simp: handle_command_def Let_def rework_skills rework_command list_registered_def
      option.map_comp comp_def split: prod.splits)

lemma rework_proposal:
  "proposal_stage en (rework_blocked f rt) session t = apsnd (rework_blocked f) (proposal_stage en rt session t)"
  by (auto simp: proposal_stage_def split: option.splits prod.splits)

lemma rework_skill_stage:
  "skill_stage (rework_blocked f rt) s t = apsnd (rework_blocked f) (skill_stage rt s t)"
  by (auto simp: skill_stage_def Let_def split: option.splits prod.splits)

lemma rework_answer: "answer_stage en (rework_blocked f rt) rq r t skill w = answer_stage en rt rq r t skill w"
proof -
  have "gather_context (rework_blocked f rt) = gather_context rt"
    by (cases "ru_bootstrap rt"; cases "ru_memory rt") (simp_all add: gather_context_def fun_eq_iff)
  then show ?thesis
    by (auto simp: answer_stage_def Let_def split: option.splits prod.splits sum.splits)
qed

text \<open>
  C6: a blocked tool is never run. If the tools the policy does not allow did anything else, the
  run would give the same events and leave the same world: neither a message, nor a command,
  nor the text of a model makes a blocked tool act.
\<close>

theorem blocked_tools_never_run:
  "fst (agent_run en rq (rework_blocked f rt) w) = fst (agent_run en rq rt w)
   \<and> snd (snd (agent_run en rq (rework_blocked f rt) w)) = snd (snd (agent_run en rq rt w))"
  by (auto simp: agent_run_def Let_def rework_handle rework_proposal rework_skill_stage rework_answer
      split: option.splits prod.splits sum.splits)

end
