(* ===== verification/Router.thy ===== *)
theory Router
  imports Config
begin

text \<open>
  \<open>internal/router/router.go\<close>: from a channel, an account and a peer to the agent that answers
  and the key of the session. The first binding of the configuration that matches decides;
  the key names every coordinate, so that two conversations share a session only when the
  coordinates themselves contain the separator.
\<close>

definition match_channel :: "binding_rule \<Rightarrow> string \<Rightarrow> bool" where
  "match_channel b channel = equal_fold (trim_space (br_channel b)) channel"

definition match_account :: "binding_rule \<Rightarrow> string \<Rightarrow> bool" where
  "match_account b account =
     (let rule = trim_space (br_account b)
      in if rule = [] then account = [] \<or> account = ''default''
         else if rule = ''*'' then True
         else equal_fold rule account)"

definition session_key :: "string \<Rightarrow> string \<Rightarrow> string \<Rightarrow> string \<Rightarrow> string" where
  "session_key agent channel account peer =
     ''agent:'' @ agent @ '':'' @ channel @ '':'' @ account @ '':dm:'' @ peer"

definition new_route :: "string \<Rightarrow> string \<Rightarrow> string \<Rightarrow> string \<Rightarrow> string \<Rightarrow> route" where
  "new_route agent channel account peer matched =
     (let account = (if account = [] then ''default'' else account);
          peer = (if peer = [] then ''unknown'' else peer)
      in \<lparr>rt_agent = agent, rt_session = session_key agent channel account peer,
          rt_matched = matched, rt_channel = channel, rt_account = account\<rparr>)"

fun resolve_bindings ::
    "binding_rule list \<Rightarrow> string \<Rightarrow> string \<Rightarrow> string \<Rightarrow> route option" where
  "resolve_bindings [] channel account peer = None"
| "resolve_bindings (b # bs) channel account peer =
     (if \<not> match_channel b channel then resolve_bindings bs channel account peer
      else if \<not> match_account b account then resolve_bindings bs channel account peer
      else if br_peer b \<noteq> [] \<and> br_peer b \<noteq> peer then resolve_bindings bs channel account peer
      else Some (new_route (br_agent b) channel account peer ''binding''))"

definition resolve :: "config \<Rightarrow> inbound \<Rightarrow> route" where
  "resolve cfg msg =
     (let channel = to_lower (trim_space (im_channel msg));
          account = to_lower (trim_space (im_account msg));
          peer = trim_space (im_peer msg)
      in case resolve_bindings (cf_bindings cfg) channel account peer of
           Some r \<Rightarrow> r
         | None \<Rightarrow> new_route (cf_default_id cfg) channel account peer ''default'')"

section \<open>What a route is\<close>

text \<open>The specification: a binding applies to normalised coordinates, and the first wins.\<close>

definition binding_applies :: "binding_rule \<Rightarrow> string \<Rightarrow> string \<Rightarrow> string \<Rightarrow> bool" where
  "binding_applies b channel account peer \<longleftrightarrow>
     match_channel b channel \<and> match_account b account \<and> (br_peer b = [] \<or> br_peer b = peer)"

definition route_spec :: "config \<Rightarrow> string \<Rightarrow> string \<Rightarrow> string \<Rightarrow> string \<times> string" where
  "route_spec cfg channel account peer =
     (case find (\<lambda>b. binding_applies b channel account peer) (cf_bindings cfg) of
        Some b \<Rightarrow> (br_agent b, ''binding'')
      | None \<Rightarrow> (cf_default_id cfg, ''default''))"

lemma resolve_bindings_find:
  "resolve_bindings bs channel account peer =
     map_option (\<lambda>b. new_route (br_agent b) channel account peer ''binding'')
       (find (\<lambda>b. binding_applies b channel account peer) bs)"
  by (induction bs) (auto simp: binding_applies_def)

definition account_or_default :: "string \<Rightarrow> string" where
  "account_or_default a = (if a = [] then ''default'' else a)"

definition peer_or_unknown :: "string \<Rightarrow> string" where
  "peer_or_unknown p = (if p = [] then ''unknown'' else p)"

lemma new_route_fields [simp]:
  "rt_agent (new_route ag ch ac p m) = ag" "rt_matched (new_route ag ch ac p m) = m"
  "rt_channel (new_route ag ch ac p m) = ch"
  "rt_account (new_route ag ch ac p m) = account_or_default ac"
  "rt_session (new_route ag ch ac p m) =
     session_key ag ch (account_or_default ac) (peer_or_unknown p)"
  by (simp_all add: new_route_def account_or_default_def peer_or_unknown_def Let_def)

lemma resolve_new_route:
  "resolve cfg msg =
     (let ch = normal_key (im_channel msg); ac = normal_key (im_account msg);
          p = trim_space (im_peer msg); (ag, m) = route_spec cfg ch ac p
      in new_route ag ch ac p m)"
  by (auto simp: resolve_def route_spec_def resolve_bindings_find normal_key_def Let_def
      split: option.splits)


section \<open>Session keys tell conversations apart\<close>

lemma colon_split_unique:
  fixes a b :: string
  assumes "CHR '':'' \<notin> set a" "CHR '':'' \<notin> set b" "a @ CHR '':'' # x = b @ CHR '':'' # y"
  shows "a = b \<and> x = y"
  using assms by (induction a arbitrary: b) (auto simp: Cons_eq_append_conv append_eq_Cons_conv)

lemma session_key_inject:
  assumes "CHR '':'' \<notin> set ag" "CHR '':'' \<notin> set ch" "CHR '':'' \<notin> set ac"
    and "CHR '':'' \<notin> set ag'" "CHR '':'' \<notin> set ch'" "CHR '':'' \<notin> set ac'"
    and "session_key ag ch ac p = session_key ag' ch' ac' p'"
  shows "ag = ag' \<and> ch = ch' \<and> ac = ac' \<and> p = p'"
proof -
  from assms(7) have "ag @ CHR '':'' # ch @ CHR '':'' # ac @ CHR '':'' # ''dm:'' @ p
      = ag' @ CHR '':'' # ch' @ CHR '':'' # ac' @ CHR '':'' # ''dm:'' @ p'"
    by (simp add: session_key_def)
  note 1 = colon_split_unique [OF assms(1,4) this]
  note 2 = colon_split_unique [OF assms(2,5) conjunct2 [OF 1]]
  note 3 = colon_split_unique [OF assms(3,6) conjunct2 [OF 2]]
  from 1 2 3 show ?thesis by simp
qed

lemma colon_free_norm:
  "CHR '':'' \<notin> set s \<Longrightarrow> CHR '':'' \<notin> set (trim_space s)"
  "CHR '':'' \<notin> set s \<Longrightarrow> CHR '':'' \<notin> set (normal_key s)"
proof -
  show t: "CHR '':'' \<notin> set (trim_space s)" if "CHR '':'' \<notin> set s" for s
    using set_trim_space [of s] that by auto
  have "caseless '':''" by (auto simp: caseless_def)
  then have "lower_char c = CHR '':'' \<longleftrightarrow> c = CHR '':''" for c by (rule lower_char_fixes)
  then show "CHR '':'' \<notin> set (normal_key s)" if "CHR '':'' \<notin> set s"
    using t [OF that] unfolding normal_key_def to_lower_def by force
qed

text \<open>
  C15: session isolation. When no agent id, channel or account id contains a colon, two
  messages are filed under one session key only if they go to the same agent and agree on
  the normalised channel, account and peer (a missing account or peer counting as
  \<open>default\<close> or \<open>unknown\<close>).
\<close>

theorem session_isolation:
  assumes "resolve cfg m1 = r1" "resolve cfg m2 = r2" "rt_session r1 = rt_session r2"
    and "CHR '':'' \<notin> set (rt_agent r1)" "CHR '':'' \<notin> set (rt_agent r2)"
    and "CHR '':'' \<notin> set (im_channel m1)" "CHR '':'' \<notin> set (im_channel m2)"
    and "CHR '':'' \<notin> set (im_account m1)" "CHR '':'' \<notin> set (im_account m2)"
  shows "rt_agent r1 = rt_agent r2 \<and> rt_channel r1 = rt_channel r2
    \<and> rt_account r1 = rt_account r2
    \<and> peer_or_unknown (trim_space (im_peer m1)) = peer_or_unknown (trim_space (im_peer m2))"
proof -
  have free: "CHR '':'' \<notin> set (account_or_default (normal_key a))" if "CHR '':'' \<notin> set a" for a
    using colon_free_norm(2) [OF that] by (simp add: account_or_default_def)
  have 1: "rt_session r1 = session_key (rt_agent r1) (rt_channel r1) (rt_account r1)
      (peer_or_unknown (trim_space (im_peer m1)))"
    and 2: "rt_session r2 = session_key (rt_agent r2) (rt_channel r2) (rt_account r2)
      (peer_or_unknown (trim_space (im_peer m2)))"
    and fields: "rt_channel r1 = normal_key (im_channel m1)" "rt_channel r2 = normal_key (im_channel m2)"
      "rt_account r1 = account_or_default (normal_key (im_account m1))"
      "rt_account r2 = account_or_default (normal_key (im_account m2))"
    using assms(1,2) by (auto simp: resolve_new_route Let_def split: prod.splits)
  from assms(3) 1 2 show ?thesis
    by (intro session_key_inject)
      (auto simp: fields assms(4-9) free colon_free_norm)
qed

text \<open>
  A channel with a colon breaks it: these two messages, for two peers on two channels, are
  filed under one key.
\<close>

definition sample_msg :: "string \<Rightarrow> string \<Rightarrow> string \<Rightarrow> inbound" where
  "sample_msg channel account peer =
     \<lparr>im_channel = channel, im_account = account, im_peer = peer, im_peer_type = chat_direct,
      im_user = peer, im_text = ''hi'', im_thread = [], im_run = [], im_at = GTime 0\<rparr>"

text \<open>
  The separator is not escaped: a client that names the channel \<open>web:eu\<close> shares the
  session of another whose channel is \<open>web\<close> and whose account is \<open>eu:x\<close>.
\<close>

theorem session_key_collision:
  "rt_session (resolve sample_config (sample_msg ''web:eu'' ''x'' ''7''))
     = rt_session (resolve sample_config (sample_msg ''web'' ''eu:x'' ''7''))
   \<and> rt_channel (resolve sample_config (sample_msg ''web:eu'' ''x'' ''7''))
     \<noteq> rt_channel (resolve sample_config (sample_msg ''web'' ''eu:x'' ''7''))"
  by code_simp

theorem session_isolation_witness:
  "rt_session (resolve sample_config (sample_msg ''Telegram'' [] ''7''))
     = rt_session (resolve sample_config (sample_msg ''telegram '' ''DEFAULT'' '' 7''))
   \<and> rt_account (resolve sample_config (sample_msg ''Telegram'' [] ''7''))
     = rt_account (resolve sample_config (sample_msg ''telegram '' ''DEFAULT'' '' 7''))"
proof -
  have e: "rt_session (resolve sample_config (sample_msg ''Telegram'' [] ''7''))
      = rt_session (resolve sample_config (sample_msg ''telegram '' ''DEFAULT'' '' 7''))"
    by code_simp
  have a: "CHR '':'' \<notin> set (rt_agent (resolve sample_config (sample_msg ''Telegram'' [] ''7'')))"
    "CHR '':'' \<notin> set (rt_agent (resolve sample_config (sample_msg ''telegram '' ''DEFAULT'' '' 7'')))"
    by code_simp+
  show ?thesis
    using e session_isolation [OF refl refl e a] by (simp add: sample_msg_def)
qed

end
