(* ===== verification/Hub.thy ===== *)
theory Hub
  imports Config
begin

text \<open>
  \<open>internal/channels/hub.go\<close>: the hub that finds the sender of an outbound message by channel
  and account, and the loop of the daemon that fills it from the configuration. A sender is
  a value of the type \<open>'s\<close>; what it does with a message is an argument of \<open>hub_send\<close>.
\<close>

section \<open>The hub\<close>

record 's hub =
  hb_default :: "'s option"
  hb_channel :: "(string \<times> 's) list"
  hb_account :: "(string \<times> (string \<times> 's) list) list"

definition new_multi_hub :: "'s option \<Rightarrow> 's hub" where
  "new_multi_hub d = \<lparr>hb_default = d, hb_channel = [], hb_account = []\<rparr>"

definition normalize_hub_key :: "string \<Rightarrow> string" where
  "normalize_hub_key v = to_lower (trim_space v)"

definition hub_register :: "string \<Rightarrow> 's \<Rightarrow> 's hub \<Rightarrow> 's hub" where
  "hub_register channel s h =
     h\<lparr>hb_channel := put (normalize_hub_key channel) s (hb_channel h)\<rparr>"

definition hub_register_account :: "string \<Rightarrow> string \<Rightarrow> 's \<Rightarrow> 's hub \<Rightarrow> 's hub" where
  "hub_register_account channel account s h =
     (let ck = normalize_hub_key channel;
          ak = normalize_hub_key account;
          ak = (if ak = [] then ''default'' else ak);
          inner = (case map_of (hb_account h) ck of None \<Rightarrow> [] | Some m \<Rightarrow> m)
      in h\<lparr>hb_account := put ck (put ak s inner) (hb_account h)\<rparr>)"

text \<open>The look-up of \<open>Send\<close>: account, then channel, then the default sender.\<close>

definition hub_lookup :: "'s hub \<Rightarrow> string \<Rightarrow> string \<Rightarrow> 's option" where
  "hub_lookup h channel account =
     (let ck = normalize_hub_key channel;
          ak = normalize_hub_key account;
          ak = (if ak = [] then ''default'' else ak);
          s = (case map_of (hb_account h) ck of None \<Rightarrow> None | Some m \<Rightarrow> map_of m ak);
          s = (case s of None \<Rightarrow> map_of (hb_channel h) ck | Some _ \<Rightarrow> s)
      in case s of Some _ \<Rightarrow> s | None \<Rightarrow> hb_default h)"

definition hub_send ::
    "('s \<Rightarrow> outbound \<Rightarrow> 'w \<Rightarrow> go_error option \<times> 'w) \<Rightarrow> 's hub \<Rightarrow> outbound \<Rightarrow> 'w
      \<Rightarrow> go_error option \<times> 'w" where
  "hub_send deliver h msg w =
     (case hub_lookup h (om_channel msg) (om_account msg) of
        Some s \<Rightarrow> deliver s msg w
      | None \<Rightarrow> (None, w))"

section \<open>The contract of a hub\<close>

text \<open>
  What the daemon relies on: registering routes the messages of that account, and of that
  channel, and nothing else changes.
\<close>

locale message_hub =
  fixes reg_channel :: "string \<Rightarrow> 's \<Rightarrow> 'h \<Rightarrow> 'h"
    and reg_account :: "string \<Rightarrow> string \<Rightarrow> 's \<Rightarrow> 'h \<Rightarrow> 'h"
    and by_account :: "'h \<Rightarrow> string \<Rightarrow> string \<Rightarrow> 's option"
    and by_channel :: "'h \<Rightarrow> string \<Rightarrow> 's option"
    and fallback :: "'h \<Rightarrow> 's option"
    and look :: "'h \<Rightarrow> string \<Rightarrow> string \<Rightarrow> 's option"
    and ckey :: "string \<Rightarrow> string"
    and akey :: "string \<Rightarrow> string"
  assumes look_order: "look h c a =
      (case by_account h c a of Some s \<Rightarrow> Some s | None \<Rightarrow>
        (case by_channel h c of Some s \<Rightarrow> Some s | None \<Rightarrow> fallback h))"
    and reg_account_spec: "by_account (reg_account c a s h) c' a' =
      (if ckey c' = ckey c \<and> akey a' = akey a then Some s else by_account h c' a')"
    and reg_account_frame: "by_channel (reg_account c a s h) = by_channel h"
      "fallback (reg_account c a s h) = fallback h"
    and reg_channel_spec: "by_channel (reg_channel c s h) c' =
      (if ckey c' = ckey c then Some s else by_channel h c')"
    and reg_channel_frame: "by_account (reg_channel c s h) = by_account h"
      "fallback (reg_channel c s h) = fallback h"
begin

lemmas reg_simps = reg_account_spec reg_account_frame reg_channel_spec reg_channel_frame

text \<open>Registering a list of accounts of one channel, with distinct keys.\<close>

lemma fold_accounts_frame:
  "by_channel (fold (\<lambda>(a, s) h. reg_account c a s h) xs h) = by_channel h"
  "fallback (fold (\<lambda>(a, s) h. reg_account c a s h) xs h) = fallback h"
  by (induction xs arbitrary: h) (auto simp: reg_simps)

lemma fold_accounts:
  "by_account (fold (\<lambda>(a, s) h. reg_account c a s h) xs h) c' a' =
     (if ckey c' = ckey c
      then (case map_of (rev (map (\<lambda>p. (akey (fst p), snd p)) xs)) (akey a') of
              Some s \<Rightarrow> Some s | None \<Rightarrow> by_account h c' a')
      else by_account h c' a')"
  by (induction xs arbitrary: h)
    (auto simp: reg_simps map_add_def split: option.splits)

lemma fold_accounts_reach:
  assumes "distinct (map (akey \<circ> fst) xs)" "(a, s) \<in> set xs" "akey a' = akey a" "ckey c' = ckey c"
  shows "look (fold (\<lambda>(a, s) h. reg_account c a s h) xs h) c' a' = Some s"
proof -
  let ?ys = "map (\<lambda>p. (akey (fst p), snd p)) xs"
  have "map fst ?ys = map (akey \<circ> fst) xs" by simp
  with assms(1) have d: "distinct (map fst (rev ?ys))" by (metis distinct_rev rev_map)
  have "(akey a, s) \<in> set (rev ?ys)" using assms(2) by force
  with d have "map_of (rev ?ys) (akey a) = Some s" by (rule map_of_is_SomeI)
  with assms show ?thesis by (simp add: look_order fold_accounts)
qed

end

definition hub_account_key :: "string \<Rightarrow> string" where
  "hub_account_key a = (let k = normalize_hub_key a in if k = [] then ''default'' else k)"

definition hub_by_account :: "'s hub \<Rightarrow> string \<Rightarrow> string \<Rightarrow> 's option" where
  "hub_by_account h c a =
     (case map_of (hb_account h) (normalize_hub_key c) of
        None \<Rightarrow> None | Some m \<Rightarrow> map_of m (hub_account_key a))"

definition hub_by_channel :: "'s hub \<Rightarrow> string \<Rightarrow> 's option" where
  "hub_by_channel h c = map_of (hb_channel h) (normalize_hub_key c)"

interpretation mh: message_hub hub_register hub_register_account hub_by_account hub_by_channel
  hb_default hub_lookup normalize_hub_key hub_account_key
  by unfold_locales
    (auto simp: hub_lookup_def hub_by_account_def hub_by_channel_def hub_register_def
      hub_register_account_def hub_account_key_def Let_def fun_eq_iff split: option.splits)

section \<open>The daemon fills the hub\<close>

text \<open>
  The loop of \<open>main\<close> over the enabled accounts: the first adapter also serves the channel.
  An adapter is identified by the account it was made for.
\<close>

fun register_telegram :: "nat \<Rightarrow> (telegram_config \<Rightarrow> 's) \<Rightarrow> telegram_config list \<Rightarrow> 's hub \<Rightarrow> 's hub"
where
  "register_telegram i mk [] h = h"
| "register_telegram i mk (t # ts) h =
     (let h = (if i = 0 then hub_register ''telegram'' (mk t) h else h);
          h = hub_register_account ''telegram'' (normalize_account_id (tg_account t)) (mk t) h
      in register_telegram (Suc i) mk ts h)"

definition daemon_hub :: "'s \<Rightarrow> (telegram_config \<Rightarrow> 's) \<Rightarrow> config \<Rightarrow> 's hub" where
  "daemon_hub stdout mk c =
     register_telegram 0 mk (enabled_telegram c) (new_multi_hub (Some stdout))"

lemma register_telegram_fold:
  "register_telegram i mk ts h =
     fold (\<lambda>(a, s) h. hub_register_account ''telegram'' a s h)
       (map (\<lambda>t. (telegram_id t, mk t)) ts)
       (if i = 0 \<and> ts \<noteq> [] then hub_register ''telegram'' (mk (hd ts)) h else h)"
  by (induction i mk ts h rule: register_telegram.induct)
    (auto simp: telegram_id_def Let_def)

lemma hub_account_key_normal: "hub_account_key a = normalize_account_id a"
  by (simp add: hub_account_key_def normalize_account_id_def normalize_hub_key_def)

lemma hub_key_normal [simp]:
  "normalize_hub_key x = normal_key x" "normal_key ''telegram'' = ''telegram''"
proof -
  show "normalize_hub_key x = normal_key x" by (simp add: normalize_hub_key_def normal_key_def)
  show "normal_key ''telegram'' = ''telegram''" by code_simp
qed

lemma new_multi_hub_empty [simp]:
  "hub_by_account (new_multi_hub d) x a = None" "hub_by_channel (new_multi_hub d) x = None"
  "hb_default (new_multi_hub d) = d"
  by (simp_all add: hub_by_account_def hub_by_channel_def new_multi_hub_def)

text \<open>The senders of the accounts, under the keys of the hub; the last of a key counts.\<close>

definition account_senders :: "(telegram_config \<Rightarrow> 's) \<Rightarrow> telegram_config list \<Rightarrow> (string \<times> 's) list"
where
  "account_senders mk ts = rev (map (\<lambda>t. (telegram_id t, mk t)) ts)"

lemma telegram_id_normal [simp]: "normalize_account_id (telegram_id t) = telegram_id t"
  by (simp add: telegram_id_def)

lemma daemon_hub_lookup:
  "hub_lookup (daemon_hub stdout mk c) channel account =
     (if normal_key channel = ''telegram'' \<and> enabled_telegram c \<noteq> []
      then (case map_of (account_senders mk (enabled_telegram c)) (normalize_account_id account) of
              Some s \<Rightarrow> Some s
            | None \<Rightarrow> Some (mk (hd (enabled_telegram c))))
      else Some stdout)"
  by (simp add: daemon_hub_def register_telegram_fold mh.look_order mh.fold_accounts
      mh.fold_accounts_frame mh.reg_simps hub_account_key_normal account_senders_def comp_def
      split: option.splits)

lemma account_wf:
  assumes "config_load decode env_key s path = Inr c" and "t \<in> set (enabled_telegram c)"
  shows "telegram_wf t"
proof -
  from assms(1) have "config_wf c" by (auto elim!: config_load_cases intro: load_defaults_wf)
  with assms(2) show ?thesis by (auto simp: config_wf_def enabled_telegram_def split: if_splits)
qed

lemma account_reaches_adapter:
  assumes "config_load decode env_key s path = Inr c"
    and "t \<in> set (enabled_telegram c)"
    and "normal_key (om_channel msg) = ''telegram''"
    and "normalize_account_id (om_account msg) = tg_account t"
  shows "hub_send deliver (daemon_hub stdout mk c) msg w = deliver (mk t) msg w"
proof -
  from assms(1) have valid: "accounts_valid (enabled_telegram c)"
    by (auto elim!: config_load_cases intro: load_defaults_wf)
  from account_wf [OF assms(1,2)] have a: "normalize_account_id (om_account msg) = telegram_id t"
    using assms(4) by (simp add: telegram_wf_def)
  from valid have "distinct (map fst (account_senders mk (enabled_telegram c)))"
    by (simp add: accounts_valid_def account_senders_def comp_def flip: rev_map)
  moreover have "(telegram_id t, mk t) \<in> set (account_senders mk (enabled_telegram c))"
    using assms(2) by (simp add: account_senders_def)
  ultimately have "map_of (account_senders mk (enabled_telegram c)) (telegram_id t) = Some (mk t)"
    by (rule map_of_is_SomeI)
  with assms(2,3) a show ?thesis by (auto simp: hub_send_def daemon_hub_lookup)
qed

text \<open>
  For a configuration that \<open>Load\<close> returned, the message of any enabled Telegram account,
  however its channel and account are spelled, is sent by the adapter made for that account.
\<close>

theorem telegram_account_reaches_own_adapter:
  assumes "config_load decode env_key s path = Inr c"
    and "t \<in> set (enabled_telegram c)"
    and "normal_key (om_channel msg) = ''telegram''"
    and "normalize_account_id (om_account msg) = tg_account t"
  shows "hub_send deliver (daemon_hub stdout mk c) msg w = deliver (mk t) msg w"
  using assms by (rule account_reaches_adapter)

text \<open>
  A message for a channel no adapter was registered for goes to the default sender, and
  a Telegram message for an account no adapter serves goes to the first enabled one.
\<close>

theorem hub_fallbacks:
  "(normal_key (om_channel msg) \<noteq> ''telegram'' \<longrightarrow>
      hub_send deliver (daemon_hub stdout mk c) msg w = deliver stdout msg w)
   \<and> (normal_key (om_channel msg) = ''telegram''
        \<and> normalize_account_id (om_account msg) \<notin> telegram_id ` set (enabled_telegram c)
        \<and> enabled_telegram c = t # ts \<longrightarrow>
      hub_send deliver (daemon_hub stdout mk c) msg w = deliver (mk t) msg w)"
proof -
  have "map_of (account_senders mk xs) k = None" if "k \<notin> telegram_id ` set xs" for k xs
    using that by (auto simp: map_of_eq_None_iff account_senders_def image_image)
  then show ?thesis by (auto simp: hub_send_def daemon_hub_lookup)
qed

text \<open>Delivery as a log: the sender and the text.\<close>

definition log_delivery ::
    "string \<Rightarrow> outbound \<Rightarrow> (string \<times> string) list \<Rightarrow> go_error option \<times> (string \<times> string) list" where
  "log_delivery s msg w = (None, w @ [(s, om_text msg)])"

definition sample_out :: "string \<Rightarrow> string \<Rightarrow> outbound" where
  "sample_out channel account =
     \<lparr>om_channel = channel, om_account = account, om_target = ''7'', om_thread = [],
      om_session = ''k'', om_text = ''hi''\<rparr>"

theorem telegram_account_reaches_own_adapter_witness:
  "hub_send log_delivery
     (daemon_hub ''stdout'' tg_account (load_defaults ''k'' sample_config))
     (sample_out '' TELEGRAM'' '' MAIN'') [] = (None, [(''main'', ''hi'')])"
proof -
  let ?c = "load_defaults ''k'' sample_config"
  have l: "config_load (\<lambda>_. Inr sample_config) ''k'' (plain_fs [(''nisix.json'', ''{}'')]) ''nisix.json''
      = Inr ?c" by code_simp
  have t: "apply_telegram_defaults (sample_telegram '' Main '') \<in> set (enabled_telegram ?c)"
    by code_simp
  have c: "normal_key (om_channel (sample_out '' TELEGRAM'' '' MAIN'')) = ''telegram''" by code_simp
  have a: "normalize_account_id (om_account (sample_out '' TELEGRAM'' '' MAIN''))
      = tg_account (apply_telegram_defaults (sample_telegram '' Main ''))" by code_simp
  have m: "tg_account (apply_telegram_defaults (sample_telegram '' Main '')) = ''main''" by code_simp
  show ?thesis
    using telegram_account_reaches_own_adapter [OF l t c a, of log_delivery "''stdout''" tg_account "[]"]
    by (simp add: m log_delivery_def sample_out_def)
qed

theorem hub_fallbacks_witness:
  "hub_send log_delivery
     (daemon_hub ''stdout'' tg_account (load_defaults ''k'' sample_config))
     (sample_out ''discord'' ''main'') [] = (None, [(''stdout'', ''hi'')])"
proof -
  have "normal_key (om_channel (sample_out ''discord'' ''main'')) \<noteq> ''telegram''" by code_simp
  then show ?thesis
    using hub_fallbacks [of "sample_out ''discord'' ''main''" log_delivery "''stdout''" tg_account]
    by (simp add: log_delivery_def sample_out_def)
qed

end
