(* ===== verification/SessionStore.thy ===== *)
theory SessionStore
  imports Domain "HOL-Library.AList"
begin

text \<open>
  \<open>internal/sessions/store.go\<close>: the entry of a session and the two stores that keep entries,
  in memory and in one JSON file that every \<open>Put\<close> rewrites through a temporary file. A store
  is a record of its operations over a state and the file system, as the code's interface
  \<open>Store\<close> is; the locale holds the laws the manager relies on. The JSON text of the file is an
  argument of the file store here; \<open>SessionJson\<close> gives it.
\<close>

section \<open>Entries\<close>

record ctx_msg =
  cx_role :: string
  cx_text :: string

record entry =
  en_key :: string
  en_id :: string
  en_agent :: string
  en_updated :: gtime
  en_version :: int
  en_sig :: string
  en_summarized :: int
  en_summary :: string
  en_recent :: "ctx_msg list"

record 's sess =
  ss_store :: 's
  ss_fs :: fs

record 's store_ops =
  st_get :: "'s \<Rightarrow> string \<Rightarrow> entry option"
  st_put :: "gtime \<Rightarrow> entry \<Rightarrow> 's sess \<Rightarrow> go_error option \<times> 's sess"
  st_list :: "'s \<Rightarrow> entry list"

text \<open>The text of a file, if there is one.\<close>

definition file_text :: "fs \<Rightarrow> string \<Rightarrow> string option" where
  "file_text s p = (case fs_get s p of Some (NFile c _) \<Rightarrow> Some c | _ \<Rightarrow> None)"

lemma file_text_iff: "file_text s q = Some c \<longleftrightarrow> (\<exists>t. fs_get s q = Some (NFile c t))"
  by (auto simp: file_text_def split: option.splits node.splits)

lemma file_text_mkdir:
  assumes "mkdir_all p s = Inr s'" shows "file_text s' q = file_text s q"
proof -
  have "file_text s' q = Some c \<longleftrightarrow> file_text s q = Some c" for c
    by (simp add: file_text_iff mkdir_all_files [OF assms])
  then show ?thesis by (cases "file_text s q"; cases "file_text s' q") auto
qed

lemma file_text_write:
  "write_file now p c s = Inr s' \<Longrightarrow> file_text s' q = (if q = p then Some c else file_text s q)"
  by (auto simp: file_text_def fs_defs split: option.splits if_splits)

lemma file_text_append:
  "append_file now p c s = Inr s' \<Longrightarrow>
     file_text s' q = (if q = p then Some ((case file_text s p of None \<Rightarrow> [] | Some o' \<Rightarrow> o') @ c)
                       else file_text s q)"
  by (auto simp: file_text_def fs_defs Let_def split: option.splits if_splits node.splits)

lemma append_fault: "append_file now p c s = Inr s' \<Longrightarrow> fs_fault s' = fs_fault s"
  by (auto simp: fs_defs Let_def split: option.splits if_splits)

lemma file_text_rename:
  "rename a b s = Inr s' \<Longrightarrow> q \<noteq> a \<Longrightarrow>
     file_text s' q = (if q = b then file_text s a else file_text s q)"
  using rename_result [of a b s s'] by (auto simp: file_text_def)

lemma read_file_text:
  "fs_fault s OpRead p = None \<Longrightarrow> file_text s p = Some c \<Longrightarrow> read_file s p = Inr c"
  "fs_fault s OpRead p = None \<Longrightarrow> fs_get s p = None \<Longrightarrow> read_file s p = Inl NotExist"
  by (auto simp: read_file_def guard_fault_def file_text_def split: option.splits node.splits)

section \<open>The contract\<close>

locale session_store =
  fixes ops :: "'s store_ops"
    and owned :: "'s \<Rightarrow> string set"
  assumes get_put: "st_put ops now e s = (r, s') \<Longrightarrow>
      st_get ops (ss_store s') k = (if k = en_key e then Some e else st_get ops (ss_store s) k)"
    and put_files: "st_put ops now e s = (r, s') \<Longrightarrow> q \<notin> owned (ss_store s) \<Longrightarrow>
      file_text (ss_fs s') q = file_text (ss_fs s) q"
    and put_fault: "st_put ops now e s = (r, s') \<Longrightarrow> fs_fault (ss_fs s') = fs_fault (ss_fs s)"
    and put_owned: "st_put ops now e s = (r, s') \<Longrightarrow> owned (ss_store s') = owned (ss_store s)"
    and list_set: "e \<in> set (st_list ops t) \<longleftrightarrow> (\<exists>k. st_get ops t k = Some e)"
begin

lemma get_put_same: "st_put ops now e s = (r, s') \<Longrightarrow> st_get ops (ss_store s') (en_key e) = Some e"
  by (simp add: get_put)

lemma put_twice:
  "st_put ops now e s = (r, s') \<Longrightarrow> st_put ops now' e' s' = (r', s'') \<Longrightarrow> en_key e' = en_key e \<Longrightarrow>
     st_get ops (ss_store s'') k = (if k = en_key e then Some e' else st_get ops (ss_store s) k)"
  by (simp add: get_put)

lemma list_after_put:
  "st_put ops now e s = (r, s') \<Longrightarrow> e \<in> set (st_list ops (ss_store s'))"
  by (auto simp: list_set get_put)

end

section \<open>In memory\<close>

type_synonym mem_store = "(string \<times> entry) list"

definition mem_put :: "gtime \<Rightarrow> entry \<Rightarrow> mem_store sess \<Rightarrow> go_error option \<times> mem_store sess" where
  "mem_put now e s = (None, s\<lparr>ss_store := put (en_key e) e (ss_store s)\<rparr>)"

definition mem_ops :: "mem_store store_ops" where
  "mem_ops = \<lparr>st_get = map_of, st_put = mem_put, st_list = (\<lambda>d. map snd (AList.clearjunk d))\<rparr>"

text \<open>\<open>List\<close> ranges over the map: every key once, in an order the code leaves open.\<close>

lemma list_clearjunk:
  "e \<in> set (map snd (AList.clearjunk d)) \<longleftrightarrow> (\<exists>k. map_of d k = Some e)"
proof -
  have "set (map snd (AList.clearjunk d)) = ran (map_of (AList.clearjunk d))"
    by (simp add: ran_distinct)
  then show ?thesis by (simp add: map_of_clearjunk ran_def)
qed

interpretation mem: session_store mem_ops "\<lambda>_. {}"
  by unfold_locales (auto simp: mem_ops_def mem_put_def simp del: set_map simp: list_clearjunk)

section \<open>In a file\<close>

record file_store =
  fl_path :: string
  fl_data :: "(string \<times> entry) list"

text \<open>\<open>saveLocked\<close>: the new text goes to \<open>path.tmp\<close>, which is then renamed.\<close>

definition tmp_path :: "string \<Rightarrow> string" where "tmp_path p = p @ ''.tmp''"

definition save_locked ::
    "((string \<times> entry) list \<Rightarrow> go_error + string) \<Rightarrow> gtime \<Rightarrow> string \<Rightarrow> (string \<times> entry) list \<Rightarrow> fs
      \<Rightarrow> go_error option \<times> fs" where
  "save_locked enc now path d s =
     (case mkdir_all (path_dir path) s of
        Inl e \<Rightarrow> (Some (io_msg e), s)
      | Inr s1 \<Rightarrow>
          (case enc d of
             Inl e \<Rightarrow> (Some e, s1)
           | Inr b \<Rightarrow>
               (case write_file now (tmp_path path) b s1 of
                  Inl e \<Rightarrow> (Some (io_msg e), s1)
                | Inr s2 \<Rightarrow>
                    (case rename (tmp_path path) path s2 of
                       Inl e \<Rightarrow> (Some (io_msg e), s2)
                     | Inr s3 \<Rightarrow> (None, s3)))))"

definition file_put ::
    "((string \<times> entry) list \<Rightarrow> go_error + string) \<Rightarrow> gtime \<Rightarrow> entry \<Rightarrow> file_store sess
      \<Rightarrow> go_error option \<times> file_store sess" where
  "file_put enc now e s =
     (let st = ss_store s;
          st' = st\<lparr>fl_data := put (en_key e) e (fl_data st)\<rparr>;
          (r, fs') = save_locked enc now (fl_path st) (fl_data st') (ss_fs s)
      in (r, \<lparr>ss_store = st', ss_fs = fs'\<rparr>))"

definition file_ops ::
    "((string \<times> entry) list \<Rightarrow> go_error + string) \<Rightarrow> file_store store_ops" where
  "file_ops enc =
     \<lparr>st_get = (\<lambda>st. map_of (fl_data st)), st_put = file_put enc,
      st_list = (\<lambda>st. map snd (AList.clearjunk (fl_data st)))\<rparr>"

text \<open>\<open>NewFileStore\<close> with its \<open>load\<close>.\<close>

definition new_file_store ::
    "(string \<Rightarrow> go_error + (string \<times> entry) list) \<Rightarrow> string \<Rightarrow> fs \<Rightarrow> go_error + file_store" where
  "new_file_store dec path s =
     (case read_file s path of
        Inl NotExist \<Rightarrow> Inr \<lparr>fl_path = path, fl_data = []\<rparr>
      | Inl (IoError e) \<Rightarrow> Inl e
      | Inr b \<Rightarrow>
          (if b = [] then Inr \<lparr>fl_path = path, fl_data = []\<rparr>
           else (case dec b of
                   Inl e \<Rightarrow> Inl (''sessions: parse store: '' @ e)
                 | Inr d \<Rightarrow> Inr \<lparr>fl_path = path, fl_data = d\<rparr>)))"

lemma tmp_path_neq [simp]: "tmp_path p \<noteq> p" "p \<noteq> tmp_path p"
  by (simp_all add: tmp_path_def)

lemma save_locked_cases:
  assumes "save_locked enc now path d s = (r, s')"
  shows "(r \<noteq> None \<and> (\<forall>q. q \<noteq> tmp_path path \<longrightarrow> file_text s' q = file_text s q))
    \<or> (r = None \<and> (\<exists>b. enc d = Inr b \<and> file_text s' path = Some b
         \<and> (\<forall>q. q \<noteq> path \<and> q \<noteq> tmp_path path \<longrightarrow> file_text s' q = file_text s q)))"
  using assms
  by (auto simp: save_locked_def file_text_mkdir file_text_write file_text_rename
      split: sum.splits)

lemma save_locked_fault: "save_locked enc now path d s = (r, s') \<Longrightarrow> fs_fault s' = fs_fault s"
  by (auto simp: save_locked_def split: sum.splits
      dest!: mkdir_all_fault write_fault rename_result(1))

definition store_files :: "file_store \<Rightarrow> string set" where
  "store_files st = {fl_path st, tmp_path (fl_path st)}"

interpretation fst: session_store "file_ops enc" store_files for enc
proof unfold_locales
  fix now e r k and s s' :: "file_store sess"
  assume p: "st_put (file_ops enc) now e s = (r, s')"
  then obtain fs' where s: "save_locked enc now (fl_path (ss_store s))
        (put (en_key e) e (fl_data (ss_store s))) (ss_fs s) = (r, fs')"
    and s': "s' = \<lparr>ss_store = (ss_store s)\<lparr>fl_data := put (en_key e) e (fl_data (ss_store s))\<rparr>,
      ss_fs = fs'\<rparr>"
    by (auto simp: file_ops_def file_put_def Let_def split: prod.splits)
  show "st_get (file_ops enc) (ss_store s') k =
      (if k = en_key e then Some e else st_get (file_ops enc) (ss_store s) k)"
    by (simp add: file_ops_def s')
  show "fs_fault (ss_fs s') = fs_fault (ss_fs s)"
    using save_locked_fault [OF s] by (simp add: s')
  show "store_files (ss_store s') = store_files (ss_store s)"
    by (simp add: s' store_files_def)
  show "file_text (ss_fs s') q = file_text (ss_fs s) q" if "q \<notin> store_files (ss_store s)" for q
    using save_locked_cases [OF s] that by (auto simp: s' store_files_def)
next
  fix e t
  show "e \<in> set (st_list (file_ops enc) t) \<longleftrightarrow> (\<exists>k. st_get (file_ops enc) t k = Some e)"
    by (simp add: file_ops_def list_clearjunk del: set_map)
qed

section \<open>Durability\<close>


text \<open>
  A restart. The file of a store is up to date when it holds the encoding of the data in memory;
  it is after every \<open>Put\<close> that succeeded. Opening such a store finds the same entries, if the decoder reads
  the text as the same table, whatever its order.
\<close>

definition up_to_date :: "((string \<times> entry) list \<Rightarrow> go_error + string) \<Rightarrow> file_store sess \<Rightarrow> bool" where
  "up_to_date enc s \<longleftrightarrow>
     (case enc (fl_data (ss_store s)) of
        Inl _ \<Rightarrow> False
      | Inr b \<Rightarrow> file_text (ss_fs s) (fl_path (ss_store s)) = Some b)"

lemma put_up_to_date:
  assumes "st_put (file_ops enc) now e s = (None, s')"
  shows "up_to_date enc s'" "fl_path (ss_store s') = fl_path (ss_store s)"
proof -
  from assms have s: "save_locked enc now (fl_path (ss_store s))
        (fl_data (ss_store s')) (ss_fs s) = (None, ss_fs s')"
    and path: "fl_path (ss_store s') = fl_path (ss_store s)"
    by (auto simp: file_ops_def file_put_def Let_def split: prod.splits)
  show "fl_path (ss_store s') = fl_path (ss_store s)" by (rule path)
  show "up_to_date enc s'" using save_locked_cases [OF s] path by (auto simp: up_to_date_def)
qed

lemma reopen:
  assumes "up_to_date enc s"
    and codec: "\<And>b. enc (fl_data (ss_store s)) = Inr b \<Longrightarrow>
      b \<noteq> [] \<and> (\<exists>d'. dec b = Inr d' \<and> map_of d' = map_of (fl_data (ss_store s)))"
    and "fs_fault (ss_fs s) OpRead (fl_path (ss_store s)) = None"
  shows "\<exists>st. new_file_store dec (fl_path (ss_store s)) (ss_fs s) = Inr st
    \<and> st_get (file_ops enc) st = st_get (file_ops enc) (ss_store s)"
proof -
  from assms(1) obtain b where b: "enc (fl_data (ss_store s)) = Inr b" "file_text (ss_fs s) (fl_path (ss_store s)) = Some b"
    by (auto simp: up_to_date_def split: sum.splits)
  have "read_file (ss_fs s) (fl_path (ss_store s)) = Inr b" using assms(3) b(2) by (rule read_file_text)
  with codec [OF b(1)] show ?thesis by (auto simp: new_file_store_def file_ops_def)
qed

definition sample_entry :: entry where
  "sample_entry = \<lparr>en_key = ''k'', en_id = ''1'', en_agent = ''main'', en_updated = GTime 5,
     en_version = 0, en_sig = [], en_summarized = 0, en_summary = [], en_recent = []\<rparr>"

text \<open>A codec that writes one table and refuses every other.\<close>

definition sample_enc :: "(string \<times> entry) list \<Rightarrow> go_error + string" where
  "sample_enc d = (if d = [(''k'', sample_entry)] then Inr ''{}'' else Inl ''unsupported'')"

definition sample_sess :: "file_store sess" where
  "sample_sess = \<lparr>ss_store = \<lparr>fl_path = ''s/db'', fl_data = []\<rparr>, ss_fs = plain_fs []\<rparr>"

lemma sample_put:
  "fst (st_put (file_ops sample_enc) (GTime 9) sample_entry sample_sess) = None"
  by code_simp


end
