(* ===== verification/Sessions.thy ===== *)
theory Sessions
  imports SessionStore
begin

text \<open>
  \<open>internal/sessions/manager.go\<close>: the session manager. It keeps an entry per session in a
  store and a transcript per session in a file of JSON lines; from the transcript it derives
  the context of the model: the last messages and a rolling summary of the older ones, kept
  up to date one message at a time and rebuilt when the budget it was made under changed.

  The store is a \<open>store_ops\<close>, as the code's is an interface; the lemmas that need its laws are
  proved once in the locale \<open>session_store\<close>. The JSON text of a record goes through \<open>enc\<close> and
  \<open>dec\<close>. Every operation runs under the manager's mutex, so an operation is one step; each
  reading of the clock is an argument.
\<close>

section \<open>Data\<close>

type_synonym tool_call_record = tool_call
type_synonym usage_record = usage

record msg_rec =
  mr_schema :: int
  mr_type :: string
  mr_event :: string
  mr_role :: string
  mr_session :: string
  mr_key :: string
  mr_agent :: string
  mr_run :: string
  mr_kind :: string
  mr_provider :: string
  mr_text :: string
  mr_aborted :: bool
  mr_tool :: "tool_call_record option"
  mr_usage :: "usage_record option"
  mr_meta :: "(string \<times> string) list"
  mr_at :: gtime

record append_opts =
  ao_event :: string
  ao_run :: string
  ao_kind :: string
  ao_provider :: string
  ao_aborted :: bool
  ao_tool :: "tool_call_record option"
  ao_usage :: "usage_record option"
  ao_meta :: "(string \<times> string) list"

definition no_opts :: append_opts where
  "no_opts = \<lparr>ao_event = [], ao_run = [], ao_kind = [], ao_provider = [], ao_aborted = False,
     ao_tool = None, ao_usage = None, ao_meta = []\<rparr>"

record budget =
  bu_history :: int
  bu_summary :: int
  bu_line :: int

record manager =
  mg_dir :: string
  mg_budget :: budget

record history_filter =
  hf_limit :: int
  hf_role :: string
  hf_from :: gtime
  hf_to :: gtime
  hf_before :: gtime
  hf_after :: gtime
  hf_cursor :: string

record 'a page =
  pg_messages :: "'a list"
  pg_next :: string
  pg_prev :: string
  pg_total :: int

section \<open>Budget\<close>

definition normalize_context_budget :: "budget \<Rightarrow> budget" where
  "normalize_context_budget b =
     \<lparr>bu_history = (if bu_history b \<le> 0 then 24 else bu_history b),
      bu_summary = (if bu_summary b \<le> 0 then 1800 else bu_summary b),
      bu_line = (if bu_line b \<le> 0 then 180 else bu_line b)\<rparr>"

definition context_state_version :: int where "context_state_version = 1"

definition context_state_signature :: "budget \<Rightarrow> string" where
  "context_state_signature b =
     ''v'' @ itoa context_state_version @ '':h'' @ itoa (bu_history b)
       @ '':s'' @ itoa (bu_summary b) @ '':l'' @ itoa (bu_line b)"

definition new_manager :: "string \<Rightarrow> manager" where
  "new_manager dir = \<lparr>mg_dir = dir,
     mg_budget = normalize_context_budget \<lparr>bu_history = 0, bu_summary = 0, bu_line = 0\<rparr>\<rparr>"

definition set_context_budget :: "budget \<Rightarrow> manager \<Rightarrow> manager" where
  "set_context_budget b m = m\<lparr>mg_budget := normalize_context_budget b\<rparr>"

definition budget_ok :: "budget \<Rightarrow> bool" where
  "budget_ok b = (0 < bu_history b \<and> 0 < bu_summary b \<and> 0 < bu_line b)"

lemma budget_ok_normalize [simp]: "budget_ok (normalize_context_budget b)"
  by (simp add: budget_ok_def normalize_context_budget_def)

lemma budget_ok_manager [simp]:
  "budget_ok (mg_budget (new_manager d))" "budget_ok (mg_budget (set_context_budget b m))"
  by (simp_all add: new_manager_def set_context_budget_def)

section \<open>The rolling context\<close>

definition is_context_message :: "string \<Rightarrow> string \<Rightarrow> string \<Rightarrow> bool" where
  "is_context_message role text event_type =
     (if trim_space event_type \<noteq> [] \<and> trim_space event_type \<noteq> ''message'' then False
      else if to_lower (trim_space role) \<notin> {''user'', ''assistant''} then False
      else trim_space text \<noteq> [])"

definition summary_role :: "string \<Rightarrow> string" where
  "summary_role role =
     (if to_lower (trim_space role) = ''assistant'' then ''Assistant'' else ''User'')"

definition compact_conversation_text :: "string \<Rightarrow> int \<Rightarrow> string" where
  "compact_conversation_text text n =
     (let c = join '' '' (str_fields (trim_space text))
      in if n \<le> 0 \<or> int (length c) \<le> n then c
         else if n \<le> 3 then take (nat n) c
         else take (nat (n - 3)) c @ ''...'')"

definition summary_line :: "ctx_msg \<Rightarrow> int \<Rightarrow> string" where
  "summary_line m n =
     ''- '' @ summary_role (cx_role m) @ '': '' @ compact_conversation_text (cx_text m) n"

text \<open>The last \<open>n\<close> bytes, and what follows the first line break if anything does.\<close>

definition last_bytes :: "int \<Rightarrow> string \<Rightarrow> string" where
  "last_bytes n s = drop (length s - nat n) s"

definition drop_first_line :: "string \<Rightarrow> string" where
  "drop_first_line s =
     (case index_of s [NL] of
        None \<Rightarrow> s
      | Some i \<Rightarrow> if i + 1 < length s then drop (i + 1) s else s)"

definition trim_marker :: string where "trim_marker = ''[older summary trimmed]''"

definition append_conversation_summary :: "string \<Rightarrow> ctx_msg \<Rightarrow> budget \<Rightarrow> string" where
  "append_conversation_summary existing m b =
     (let line = summary_line m (bu_line b)
      in if trim_space existing = [] then line
         else (let s = existing @ [NL] @ line
               in if int (length s) \<le> bu_summary b then s
                  else (let keep = drop_first_line (last_bytes (bu_summary b) s);
                            mark = int (length trim_marker);
                            max_keep = bu_summary b - mark - 1
                        in if int (length keep) + mark + 1 \<le> bu_summary b
                           then trim_marker @ [NL] @ keep
                           else if max_keep \<le> 0 then trim_marker
                           else trim_marker @ [NL] @
                             (if int (length keep) > max_keep
                              then drop_first_line (last_bytes max_keep keep) else keep))))"

definition apply_context_message :: "budget \<Rightarrow> string \<Rightarrow> string \<Rightarrow> entry \<Rightarrow> entry" where
  "apply_context_message b role text e =
     (let m = \<lparr>cx_role = to_lower (trim_space role), cx_text = trim_space text\<rparr>
      in if cx_text m = [] then e
         else if int (length (en_recent e)) < bu_history b
         then e\<lparr>en_recent := en_recent e @ [m]\<rparr>
         else e\<lparr>en_recent := tl (en_recent e) @ [m],
                en_summarized := en_summarized e + 1,
                en_summary := append_conversation_summary (en_summary e) (hd (en_recent e)) b\<rparr>)"

definition render_conversation_summary :: "entry \<Rightarrow> string" where
  "render_conversation_summary e =
     (if en_summarized e = 0 \<or> trim_space (en_summary e) = [] then []
      else ''Earlier conversation covered '' @ itoa (en_summarized e)
        @ '' messages. Rolling notes:'' @ [NL] @ trim_space (en_summary e))"

section \<open>Transcripts\<close>

definition transcript_path :: "manager \<Rightarrow> entry \<Rightarrow> string" where
  "transcript_path m e = path_join [mg_dir m, en_id e @ ''.jsonl'']"

definition norm_type :: "msg_rec \<Rightarrow> string" where
  "norm_type r = (if mr_type r = [] then ''message'' else mr_type r)"

definition norm_event :: "msg_rec \<Rightarrow> string" where
  "norm_event r =
     (if mr_event r = [] then (if norm_type r = ''event'' then ''event'' else ''message'')
      else mr_event r)"

definition norm_schema :: "msg_rec \<Rightarrow> int" where
  "norm_schema r =
     (if mr_schema r = 0 then
        (if mr_run r \<noteq> [] \<or> mr_kind r \<noteq> [] \<or> mr_provider r \<noteq> [] \<or> mr_tool r \<noteq> None
           \<or> mr_usage r \<noteq> None \<or> mr_meta r \<noteq> [] \<or> norm_event r \<noteq> ''message'' then 2 else 1)
      else mr_schema r)"

definition normalize_message_record :: "entry \<Rightarrow> msg_rec \<Rightarrow> msg_rec" where
  "normalize_message_record e r = r\<lparr>
     mr_session := (if mr_session r = [] then en_id e else mr_session r),
     mr_key := (if mr_key r = [] then en_key e else mr_key r),
     mr_agent := (if mr_agent r = [] then en_agent e else mr_agent r),
     mr_type := norm_type r, mr_event := norm_event r, mr_schema := norm_schema r\<rparr>"

text \<open>The records of a transcript: blank lines and lines that do not decode are skipped.\<close>

definition read_line :: "(string \<Rightarrow> msg_rec option) \<Rightarrow> entry \<Rightarrow> string \<Rightarrow> msg_rec option" where
  "read_line dec e line =
     (if trim_space line = [] then None
      else map_option (normalize_message_record e) (dec (trim_space line)))"

definition read_records :: "(string \<Rightarrow> msg_rec option) \<Rightarrow> entry \<Rightarrow> string \<Rightarrow> msg_rec list" where
  "read_records dec e b = List.map_filter (read_line dec e) (split_on NL b)"

definition apply_record :: "budget \<Rightarrow> msg_rec \<Rightarrow> entry \<Rightarrow> entry" where
  "apply_record b r e =
     (if is_context_message (mr_role r) (mr_text r) (mr_event r)
      then apply_context_message b (mr_role r) (mr_text r) e else e)"

definition fresh_context :: "budget \<Rightarrow> entry \<Rightarrow> entry" where
  "fresh_context b e = e\<lparr>en_version := context_state_version,
     en_sig := context_state_signature b, en_summarized := 0, en_summary := [], en_recent := []\<rparr>"

definition rebuild_context ::
    "(string \<Rightarrow> msg_rec option) \<Rightarrow> manager \<Rightarrow> fs \<Rightarrow> entry \<Rightarrow> go_error + entry" where
  "rebuild_context dec m s e =
     (case read_file s (transcript_path m e) of
        Inl NotExist \<Rightarrow> Inr (fresh_context (mg_budget m) e)
      | Inl (IoError t) \<Rightarrow> Inl t
      | Inr b \<Rightarrow> Inr (fold (apply_record (mg_budget m)) (read_records dec e b)
                      (fresh_context (mg_budget m) e)))"

definition context_fresh :: "manager \<Rightarrow> entry \<Rightarrow> bool" where
  "context_fresh m e \<longleftrightarrow> en_version e = context_state_version
     \<and> en_sig e = context_state_signature (mg_budget m)"

definition ensure_context ::
    "'s store_ops \<Rightarrow> (string \<Rightarrow> msg_rec option) \<Rightarrow> gtime \<Rightarrow> manager \<Rightarrow> entry \<Rightarrow> 's sess
      \<Rightarrow> (go_error + entry) \<times> 's sess" where
  "ensure_context ops dec now m e s =
     (if context_fresh m e then (Inr e, s)
      else (case rebuild_context dec m (ss_fs s) e of
              Inl t \<Rightarrow> (Inl t, s)
            | Inr e' \<Rightarrow>
                (case st_put ops now e' s of
                   (Some t, s') \<Rightarrow> (Inl t, s')
                 | (None, s') \<Rightarrow> (Inr e', s'))))"

section \<open>Operations\<close>

definition touch ::
    "'s store_ops \<Rightarrow> gtime \<Rightarrow> gtime \<Rightarrow> manager \<Rightarrow> string \<Rightarrow> string \<Rightarrow> 's sess
      \<Rightarrow> (go_error + entry) \<times> 's sess" where
  "touch ops now now' m key agent s =
     (let e = (case st_get ops (ss_store s) key of
                 Some e \<Rightarrow> e\<lparr>en_updated := now\<rparr>
               | None \<Rightarrow> \<lparr>en_key = key, en_id = ''sess-'' @ itoa (nanos now), en_agent = agent,
                   en_updated = now', en_version = context_state_version,
                   en_sig = context_state_signature (mg_budget m), en_summarized = 0,
                   en_summary = [], en_recent = []\<rparr>)
      in case st_put ops now' e s of
           (Some t, s') \<Rightarrow> (Inl t, s')
         | (None, s') \<Rightarrow> (Inr e, s'))"

definition event_type_of :: "append_opts \<Rightarrow> string" where
  "event_type_of o' =
     (if trim_space (ao_event o') = [] then ''message'' else trim_space (ao_event o'))"

definition new_record :: "gtime \<Rightarrow> entry \<Rightarrow> string \<Rightarrow> string \<Rightarrow> append_opts \<Rightarrow> msg_rec" where
  "new_record now e role text o' =
     \<lparr>mr_schema = 2,
      mr_type = (if event_type_of o' \<noteq> ''message'' then ''event'' else ''message''),
      mr_event = event_type_of o', mr_role = role, mr_session = en_id e, mr_key = en_key e,
      mr_agent = en_agent e, mr_run = trim_space (ao_run o'), mr_kind = trim_space (ao_kind o'),
      mr_provider = trim_space (ao_provider o'), mr_text = text, mr_aborted = ao_aborted o',
      mr_tool = ao_tool o', mr_usage = ao_usage o', mr_meta = ao_meta o', mr_at = now\<rparr>"

text \<open>Creating the directory, opening the transcript, encoding and writing the line.\<close>

definition write_record ::
    "(msg_rec \<Rightarrow> go_error + string) \<Rightarrow> gtime \<Rightarrow> manager \<Rightarrow> entry \<Rightarrow> msg_rec \<Rightarrow> fs
      \<Rightarrow> go_error option \<times> fs" where
  "write_record enc now m e r s =
     (case mkdir_all (mg_dir m) s of
        Inl t \<Rightarrow> (Some (io_msg t), s)
      | Inr s1 \<Rightarrow>
          (case append_file now (transcript_path m e) [] s1 of
             Inl t \<Rightarrow> (Some (io_msg t), s1)
           | Inr s2 \<Rightarrow>
               (case enc r of
                  Inl t \<Rightarrow> (Some t, s2)
                | Inr b \<Rightarrow>
                    (case append_file now (transcript_path m e) (b @ [NL]) s2 of
                       Inl t \<Rightarrow> (Some (io_msg t), s2)
                     | Inr s3 \<Rightarrow> (None, s3)))))"

definition update_context ::
    "'s store_ops \<Rightarrow> (string \<Rightarrow> msg_rec option) \<Rightarrow> gtime \<Rightarrow> manager \<Rightarrow> entry \<Rightarrow> string
      \<Rightarrow> string \<Rightarrow> 's sess \<Rightarrow> go_error option \<times> 's sess" where
  "update_context ops dec now m e role text s =
     (let latest = (case st_get ops (ss_store s) (en_key e) of Some e' \<Rightarrow> e' | None \<Rightarrow> e)
      in case ensure_context ops dec now m latest s of
           (Inl t, s') \<Rightarrow> (Some t, s')
         | (Inr e', s') \<Rightarrow>
             st_put ops now ((apply_context_message (mg_budget m) role text e')\<lparr>en_updated := now\<rparr>) s')"

definition append_with_options ::
    "'s store_ops \<Rightarrow> (msg_rec \<Rightarrow> go_error + string) \<Rightarrow> (string \<Rightarrow> msg_rec option) \<Rightarrow> gtime \<Rightarrow> gtime
      \<Rightarrow> manager \<Rightarrow> entry \<Rightarrow> string \<Rightarrow> string \<Rightarrow> append_opts \<Rightarrow> 's sess
      \<Rightarrow> go_error option \<times> 's sess" where
  "append_with_options ops enc dec now now' m e role text o' s =
     (if trim_space text = [] \<and> ao_tool o' = None \<and> ao_usage o' = None \<and> ao_meta o' = []
      then (None, s)
      else (case write_record enc now m e (new_record now e role text o') (ss_fs s) of
              (Some t, f) \<Rightarrow> (Some t, s\<lparr>ss_fs := f\<rparr>)
            | (None, f) \<Rightarrow>
                (if is_context_message role text (event_type_of o')
                 then update_context ops dec now' m e role text (s\<lparr>ss_fs := f\<rparr>)
                 else (None, s\<lparr>ss_fs := f\<rparr>))))"

definition append_msg where
  "append_msg ops enc dec now now' m e role text s =
     append_with_options ops enc dec now now' m e role text no_opts s"

definition not_found :: go_error where "not_found = ''sessions: session key not found''"

definition model_context ::
    "'s store_ops \<Rightarrow> (string \<Rightarrow> msg_rec option) \<Rightarrow> gtime \<Rightarrow> manager \<Rightarrow> string \<Rightarrow> 's sess
      \<Rightarrow> (go_error + conv_msg list \<times> string) \<times> 's sess" where
  "model_context ops dec now m key s =
     (case st_get ops (ss_store s) key of
        None \<Rightarrow> (Inl not_found, s)
      | Some e \<Rightarrow>
          (case ensure_context ops dec now m e s of
             (Inl t, s') \<Rightarrow> (Inl t, s')
           | (Inr e', s') \<Rightarrow>
               (Inr (map (\<lambda>x. \<lparr>cm_role = cx_role x, cm_text = cx_text x\<rparr>)
                      (filter (\<lambda>x. trim_space (cx_text x) \<noteq> []) (en_recent e')),
                     render_conversation_summary e'), s')))"

section \<open>History\<close>

text \<open>A page of the records that passed the filter; None is a slice out of bounds, a panic.\<close>

definition page_start :: "nat \<Rightarrow> int \<Rightarrow> string \<Rightarrow> int" where
  "page_start tot limit cursor =
     (let c = trim_space cursor;
          start = (if c \<noteq> [] then (case atoi c of Some i \<Rightarrow> i | None \<Rightarrow> 0)
                   else if int tot > limit then int tot - limit else 0)
      in if start < 0 then 0 else if start > int tot then int tot else start)"

definition page_limit :: "int \<Rightarrow> int" where "page_limit l = (if l \<le> 0 then 50 else l)"

definition page_end :: "nat \<Rightarrow> int \<Rightarrow> int \<Rightarrow> int" where
  "page_end tot limit start =
     (let e = wrap64 (start + limit) in if e > int tot then int tot else e)"

definition page_of :: "'a list \<Rightarrow> int \<Rightarrow> string \<Rightarrow> 'a page option" where
  "page_of out lim cursor =
     (let tot = length out;
          limit = page_limit lim;
          start = page_start tot limit cursor;
          stop = page_end tot limit start
      in map_option (\<lambda>ms.
           \<lparr>pg_messages = ms,
            pg_next = (if stop < int tot then itoa stop else []),
            pg_prev = (if start > 0 then itoa (if start - limit < 0 then 0 else start - limit) else []),
            pg_total = int tot\<rparr>)
         (slice out start stop))"

definition keep_record :: "history_filter \<Rightarrow> msg_rec \<Rightarrow> bool" where
  "keep_record f r \<longleftrightarrow>
     (hf_role f = [] \<or> mr_role r = hf_role f)
     \<and> (is_zero_time (hf_from f) \<or> \<not> mr_at r < hf_from f)
     \<and> (is_zero_time (hf_to f) \<or> \<not> mr_at r > hf_to f)
     \<and> (is_zero_time (hf_before f) \<or> mr_at r < hf_before f)
     \<and> (is_zero_time (hf_after f) \<or> mr_at r > hf_after f)"

definition history_page_filtered ::
    "'s store_ops \<Rightarrow> (string \<Rightarrow> msg_rec option) \<Rightarrow> manager \<Rightarrow> string \<Rightarrow> history_filter \<Rightarrow> 's sess
      \<Rightarrow> (go_error + msg_rec page) option" where
  "history_page_filtered ops dec m key f s =
     (case st_get ops (ss_store s) key of
        None \<Rightarrow> Some (Inl not_found)
      | Some e \<Rightarrow>
          (case read_file (ss_fs s) (transcript_path m e) of
             Inl NotExist \<Rightarrow>
               Some (Inr \<lparr>pg_messages = [], pg_next = [], pg_prev = [], pg_total = 0\<rparr>)
           | Inl (IoError t) \<Rightarrow> Some (Inl t)
           | Inr b \<Rightarrow>
               map_option Inr
                 (page_of (filter (keep_record f) (read_records dec e b)) (hf_limit f) (hf_cursor f))))"

definition history_filtered where
  "history_filtered ops dec m key f s =
     map_option (map_sum id pg_messages) (history_page_filtered ops dec m key f s)"

definition history where
  "history ops dec m key limit s =
     history_filtered ops dec m key
       \<lparr>hf_limit = limit, hf_role = [], hf_from = zero_time, hf_to = zero_time,
        hf_before = zero_time, hf_after = zero_time, hf_cursor = []\<rparr> s"

section \<open>Paging\<close>

lemma page_limit_pos: "0 < page_limit l"
  by (simp add: page_limit_def)

lemma page_start_range: "0 \<le> page_start n l c \<and> page_start n l c \<le> int n"
  by (simp add: page_start_def Let_def)

lemma page_end_exact:
  "0 \<le> st \<Longrightarrow> st \<le> int n \<Longrightarrow> 0 < l \<Longrightarrow> int n + l \<le> max_int64 \<Longrightarrow> page_end n l st = min (st + l) (int n)"
  by (simp add: page_end_def wrap64_id min_int64_def Let_def)

lemma page_of_eq:
  assumes "int (length xs) + page_limit l \<le> max_int64"
  shows "page_of xs l c =
    (let st = page_start (length xs) (page_limit l) c; en = min (st + page_limit l) (int (length xs))
     in Some \<lparr>pg_messages = take (nat (en - st)) (drop (nat st) xs),
          pg_next = (if en < int (length xs) then itoa en else []),
          pg_prev = (if st > 0 then itoa (max 0 (st - page_limit l)) else []),
          pg_total = int (length xs)\<rparr>)"
  using assms page_start_range [of "length xs" "page_limit l" c] page_limit_pos [of l]
  by (simp add: page_of_def page_end_exact slice_def Let_def max_def)

text \<open>
  A page of the history is always a contiguous piece of the filtered transcript, never
  longer than the limit (50 when none is given), and the slice is in bounds: for every cursor,
  numeric or not, negative or past the end, the code does not panic as long as the limit
  plus the number of records fits an \<open>int\<close>.
\<close>

theorem history_page_bounded:
  assumes "int (length xs) + page_limit l \<le> max_int64"
  shows "\<exists>p pre post. page_of xs l c = Some p \<and> xs = pre @ pg_messages p @ post
    \<and> int (length (pg_messages p)) \<le> page_limit l \<and> pg_total p = int (length xs)
    \<and> (pg_next p = [] \<longleftrightarrow> post = []) \<and> (pg_prev p = [] \<longleftrightarrow> pre = [])"
proof -
  define st where "st = page_start (length xs) (page_limit l) c"
  define en where "en = min (st + page_limit l) (int (length xs))"
  have r: "0 \<le> st" "st \<le> int (length xs)" "st \<le> en" "en \<le> int (length xs)"
    "en - st \<le> page_limit l"
    using page_start_range [of "length xs" "page_limit l" c] page_limit_pos [of l]
    by (auto simp: st_def en_def)
  have "nat en = nat (en - st) + nat st" using r by linarith
  then have s: "xs = take (nat st) xs @ take (nat (en - st)) (drop (nat st) xs) @ drop (nat en) xs"
    by (metis append_take_drop_id drop_drop)
  show ?thesis
    using r s by (intro exI [of _ "take (nat st) xs"] exI [of _ "drop (nat en) xs"] exI conjI)
      (simp_all add: page_of_eq [OF assms] Let_def flip: st_def en_def, auto)
qed

theorem history_page_bounded_witness:
  "\<exists>p pre post. page_of [1::int, 2, 3] 2 ''x'' = Some p \<and> [1, 2, 3] = pre @ pg_messages p @ post
    \<and> int (length (pg_messages p)) \<le> page_limit 2 \<and> pg_total p = 3
    \<and> (pg_next p = [] \<longleftrightarrow> post = []) \<and> (pg_prev p = [] \<longleftrightarrow> pre = [])"
  using history_page_bounded [of "[1::int, 2, 3]" 2 "''x''"]
  by (simp add: page_limit_def max_int64_def)

text \<open>Following \<open>nextCursor\<close> from a cursor until there is none; the fuel bounds the pages.\<close>

fun walk :: "nat \<Rightarrow> 'a list \<Rightarrow> int \<Rightarrow> string \<Rightarrow> 'a list list option" where
  "walk 0 xs l c = None"
| "walk (Suc n) xs l c =
     (case page_of xs l c of
        None \<Rightarrow> None
      | Some p \<Rightarrow> if pg_next p = [] then Some [pg_messages p]
                  else map_option ((#) (pg_messages p)) (walk n xs l (pg_next p)))"

lemma page_start_cursor:
  "0 \<le> i \<Longrightarrow> i \<le> int n \<Longrightarrow> int n \<le> max_int64 \<Longrightarrow> page_start n l (itoa i) = i"
  by (simp add: page_start_def atoi_itoa min_int64_def Let_def)

lemma walk_from:
  assumes "int (length xs) + page_limit l \<le> max_int64"
    and "0 \<le> i" "i \<le> int (length xs)" "length xs < n + nat i"
  shows "\<exists>ps. walk n xs l (itoa i) = Some ps \<and> concat ps = drop (nat i) xs
    \<and> (\<forall>p \<in> set ps. int (length p) \<le> page_limit l)"
  using assms
proof (induction n arbitrary: i)
  case (Suc n)
  let ?L = "page_limit l"
  have L: "0 < ?L" by (rule page_limit_pos)
  have st: "page_start (length xs) ?L (itoa i) = i"
    using Suc.prems L by (intro page_start_cursor) auto
  define en where "en = min (i + ?L) (int (length xs))"
  have en: "i \<le> en" "en - i \<le> ?L" "nat en = nat (en - i) + nat i" "en \<le> int (length xs)"
    using Suc.prems L by (auto simp: en_def)
  have cat: "take (nat (en - i)) (drop (nat i) xs) @ drop (nat en) xs = drop (nat i) xs"
    by (metis append_take_drop_id drop_drop en(3))
  show ?case
  proof (cases "en < int (length xs)")
    case True
    then have "en = i + ?L" by (auto simp: en_def)
    with Suc.prems L have "length xs < n + nat en" by (simp add: nat_add_distrib)
    with Suc.IH [of en] Suc.prems en obtain ps where
      "walk n xs l (itoa en) = Some ps" "concat ps = drop (nat en) xs"
      "\<forall>p \<in> set ps. int (length p) \<le> ?L" by auto
    with True en cat show ?thesis
      by (auto simp: page_of_eq [OF Suc.prems(1)] st Let_def simp flip: en_def)
  next
    case False
    with en cat show ?thesis
      by (auto simp: page_of_eq [OF Suc.prems(1)] st Let_def simp flip: en_def)
  qed
qed simp

text \<open>
  C21: paging forward is complete. Starting at cursor 0 and following \<open>nextCursor\<close>, the walk
  ends after at most one page per record and one more, and the pages put together are the
  filtered transcript: every record once, in order.
\<close>

theorem history_walk_complete:
  assumes "int (length xs) + page_limit l \<le> max_int64"
  shows "\<exists>ps. walk (Suc (length xs)) xs l (itoa 0) = Some ps \<and> concat ps = xs"
  using walk_from [OF assms, of 0 "Suc (length xs)"] by auto

theorem history_walk_complete_witness:
  "\<exists>ps. walk 4 [1::int, 2, 3] 2 (itoa 0) = Some ps \<and> concat ps = [1, 2, 3]"
  using history_walk_complete [of "[1::int, 2, 3]" 2]
  by (simp add: page_limit_def max_int64_def eval_nat_numeral)

text \<open>
  Paging backwards. The page \<open>prevCursor\<close> leads to starts \<open>limit\<close> records before the
  current one and ends where it starts, if there are that many; if there are fewer, it starts
  at the first record and, since the limit is not cut down, repeats records of the current
  page: paging back over three records by two gives the second one twice.
\<close>

theorem history_prev_page:
  assumes "int (length xs) + page_limit l \<le> max_int64"
    and "page_start (length xs) (page_limit l) c = st" "0 < st"
  shows "\<exists>p q. page_of xs l c = Some p \<and> page_of xs l (pg_prev p) = Some q
    \<and> pg_messages q = take (nat (page_limit l)) (drop (nat (max 0 (st - page_limit l))) xs)"
proof -
  have st: "st \<le> int (length xs)" using assms(2) page_start_range by auto
  have "page_start (length xs) (page_limit l) (itoa (max 0 (st - page_limit l)))
      = max 0 (st - page_limit l)"
    using st assms(1) page_limit_pos [of l] by (intro page_start_cursor) auto
  moreover have "take (nat (min (a + k) (int (length xs)) - a)) (drop (nat a) xs)
      = take (nat k) (drop (nat a) xs)" if "0 \<le> a" "0 \<le> k" "a \<le> int (length xs)" for a k
    using that by (auto simp: min_def nat_diff_distrib nat_add_distrib intro!: take_all)
  ultimately show ?thesis
    using assms st page_limit_pos [of l] by (simp add: page_of_eq Let_def max_def)
qed

theorem history_prev_page_witness:
  "\<exists>p q. page_of [1::int, 2, 3] 2 [] = Some p \<and> page_of [1::int, 2, 3] 2 (pg_prev p) = Some q
    \<and> pg_messages q = [1::int, 2]"
  using history_prev_page [of "[1::int, 2, 3]" 2 "[]" 1]
  by (simp add: page_limit_def max_int64_def page_start_def)

section \<open>Size of the summary\<close>

lemma length_join_take: "int (length (compact_conversation_text t n)) \<le> n" if "0 < n"
  using that by (auto simp: compact_conversation_text_def Let_def)

lemma length_summary_line: "0 < n \<Longrightarrow> int (length (summary_line m n)) \<le> 13 + n"
  using length_join_take [of n "cx_text m"] by (auto simp: summary_line_def summary_role_def)

lemma length_last_bytes: "0 \<le> n \<Longrightarrow> int (length (last_bytes n s)) \<le> n"
  by (simp add: last_bytes_def)

lemma length_drop_first_line: "length (drop_first_line s) \<le> length s"
  by (simp add: drop_first_line_def split: option.splits)

definition summary_bound :: "budget \<Rightarrow> int" where
  "summary_bound b = max (max (bu_summary b) (int (length trim_marker))) (13 + bu_line b)"

text \<open>
  The rolling summary is bounded: whatever was there before, after a line is added the
  summary is no longer than the budget, the marker or one line, whichever is most.
\<close>

theorem summary_bounded:
  assumes "budget_ok b"
  shows "int (length (append_conversation_summary s m b)) \<le> summary_bound b"
proof -
  have pos: "0 < bu_line b" "0 < bu_summary b" using assms by (auto simp: budget_ok_def)
  note lines = length_summary_line [OF pos(1), of m]
  have cut: "int (length (drop_first_line (last_bytes k t))) \<le> k" if "0 \<le> k" for k t
    using length_drop_first_line [of "last_bytes k t"] length_last_bytes [OF that, of t] by simp
  define mark where "mark = int (length trim_marker)"
  have "1 + (mark + int (length (drop_first_line (last_bytes (bu_summary b - mark - 1) t))))
      \<le> bu_summary b" if "\<not> bu_summary b - mark - 1 \<le> 0" for t
    using cut [of "bu_summary b - mark - 1" t] that by simp
  with lines show ?thesis
    unfolding append_conversation_summary_def summary_bound_def Let_def mark_def [symmetric]
    by (auto simp: mark_def le_max_iff_disj)
qed

theorem summary_bounded_witness:
  "int (length (append_conversation_summary ''- User: hello'' \<lparr>cx_role = ''user'', cx_text = ''hi''\<rparr>
     \<lparr>bu_history = 2, bu_summary = 10, bu_line = 5\<rparr>)) \<le> 23"
  using summary_bounded [of "\<lparr>bu_history = 2, bu_summary = 10, bu_line = 5\<rparr>" "''- User: hello''"
      "\<lparr>cx_role = ''user'', cx_text = ''hi''\<rparr>"]
  by (simp add: budget_ok_def summary_bound_def trim_marker_def)

section \<open>The window of recent messages\<close>

definition context_msg :: "string \<Rightarrow> string \<Rightarrow> ctx_msg" where
  "context_msg role text = \<lparr>cx_role = to_lower (trim_space role), cx_text = trim_space text\<rparr>"

definition context_msgs :: "msg_rec list \<Rightarrow> ctx_msg list" where
  "context_msgs rs = map (\<lambda>r. context_msg (mr_role r) (mr_text r))
     (filter (\<lambda>r. is_context_message (mr_role r) (mr_text r) (mr_event r)) rs)"

definition window_of :: "budget \<Rightarrow> ctx_msg list \<Rightarrow> entry \<Rightarrow> bool" where
  "window_of b ms e \<longleftrightarrow>
     (let k = length ms - nat (bu_history b)
      in en_recent e = drop k ms \<and> en_summarized e = int k
         \<and> en_summary e = foldl (\<lambda>s m. append_conversation_summary s m b) [] (take k ms))"

lemma window_fresh: "window_of b [] (fresh_context b e)"
  by (simp add: window_of_def fresh_context_def)

lemma is_context_text: "is_context_message role text ev \<Longrightarrow> trim_space text \<noteq> []"
  by (simp add: is_context_message_def split: if_splits)

lemma window_apply:
  assumes w: "window_of b ms e" and b: "budget_ok b" and t: "trim_space text \<noteq> []"
  shows "window_of b (ms @ [context_msg role text]) (apply_context_message b role text e)"
proof (cases "int (length (en_recent e)) < bu_history b")
  case True
  then have "length ms < nat (bu_history b)" using w b
    by (auto simp: window_of_def Let_def budget_ok_def)
  with True w t show ?thesis
    by (auto simp: window_of_def Let_def apply_context_message_def context_msg_def)
next
  case False
  define k where "k = length ms - nat (bu_history b)"
  have "nat (bu_history b) > 0" using b by (simp add: budget_ok_def)
  moreover have "length (en_recent e) = length ms - k"
    using w by (simp add: window_of_def Let_def k_def)
  ultimately have k: "length (ms @ [x]) - nat (bu_history b) = Suc k" "k < length ms" for x
    using False by (auto simp: k_def)
  have r: "en_recent e = drop k ms" "en_summarized e = int k"
    "en_summary e = foldl (\<lambda>s m. append_conversation_summary s m b) [] (take k ms)"
    using w by (auto simp: window_of_def Let_def k_def)
  from k(2) have "hd (drop k ms) = ms ! k" "take (Suc k) ms = take k ms @ [ms ! k]"
    "tl (drop k ms) = drop (Suc k) ms"
    by (simp_all add: hd_drop_conv_nth take_Suc_conv_app_nth drop_Suc tl_drop)
  with False t k r show ?thesis
    unfolding window_of_def Let_def k(1)
    by (simp add: apply_context_message_def context_msg_def)
qed

lemma window_record:
  assumes "window_of b ms e" "budget_ok b"
  shows "window_of b (ms @ context_msgs [r]) (apply_record b r e)"
  using window_apply [OF assms, of "mr_text r" "mr_role r"] assms(1)
  by (auto simp: apply_record_def context_msgs_def dest: is_context_text)

lemma window_fold:
  assumes "window_of b ms e" "budget_ok b"
  shows "window_of b (ms @ context_msgs rs) (fold (apply_record b) rs e)"
  using assms(1)
proof (induction rs arbitrary: ms e)
  case (Cons r rs)
  have "context_msgs (r # rs) = context_msgs [r] @ context_msgs rs"
    by (simp add: context_msgs_def)
  with Cons.IH [OF window_record [OF Cons.prems assms(2), of r]] show ?case by simp
qed (simp add: context_msgs_def)

lemma rebuild_window:
  assumes "budget_ok (mg_budget m)"
    and "read_file s (transcript_path m e) = Inr c"
    and "rebuild_context dec m s e = Inr e'"
  shows "window_of (mg_budget m) (context_msgs (read_records dec e c)) e' \<and> context_fresh m e'"
proof -
  have frame: "en_version (fold (apply_record b) rs x) = en_version x
      \<and> en_sig (fold (apply_record b) rs x) = en_sig x" for b rs x
    by (induction rs arbitrary: x) (auto simp: apply_record_def apply_context_message_def Let_def)
  show ?thesis
    using assms window_fold [OF window_fresh assms(1), of "read_records dec e c" e]
    by (auto simp: rebuild_context_def context_fresh_def frame fresh_context_def)
qed

text \<open>
  C20: what the model is given. A context rebuilt from a transcript holds exactly the last
  \<open>HistoryLimit\<close> user and assistant messages, in order; the number of messages it counts as
  summarised is the number of the earlier ones, and the summary is made of those, oldest
  first.
\<close>

theorem rebuild_context_window:
  assumes "budget_ok (mg_budget m)"
    and "read_file s (transcript_path m e) = Inr c"
    and "rebuild_context dec m s e = Inr e'"
  shows "window_of (mg_budget m) (context_msgs (read_records dec e c)) e' \<and> context_fresh m e'"
  using assms by (rule rebuild_window)

section \<open>Keeping the context in step with the transcript\<close>

definition transcript :: "manager \<Rightarrow> fs \<Rightarrow> entry \<Rightarrow> string" where
  "transcript m f e = (case file_text f (transcript_path m e) of None \<Rightarrow> [] | Some c \<Rightarrow> c)"

definition context_texts :: "(string \<Rightarrow> msg_rec option) \<Rightarrow> entry \<Rightarrow> string \<Rightarrow> ctx_msg list" where
  "context_texts dec e c = context_msgs (read_records dec e c)"

definition whole_lines :: "string \<Rightarrow> bool" where
  "whole_lines c \<longleftrightarrow> c = [] \<or> last c = NL"

definition synced :: "(string \<Rightarrow> msg_rec option) \<Rightarrow> manager \<Rightarrow> fs \<Rightarrow> entry \<Rightarrow> bool" where
  "synced dec m f e \<longleftrightarrow> whole_lines (transcript m f e) \<and> context_fresh m e
     \<and> window_of (mg_budget m) (context_texts dec e (transcript m f e)) e"

text \<open>
  What the manager needs of \<open>encoding/json\<close> for one record: a line that decodes to the same message.
  The rest of a record may change on the way, as the numbers of a tool call do.
\<close>

definition codec_ok :: "(msg_rec \<Rightarrow> go_error + string) \<Rightarrow> (string \<Rightarrow> msg_rec option) \<Rightarrow> msg_rec \<Rightarrow> bool"
where
  "codec_ok enc dec r \<longleftrightarrow> (case enc r of Inl _ \<Rightarrow> False
     | Inr b \<Rightarrow> NL \<notin> set b \<and> trim_space b = b \<and> b \<noteq> []
         \<and> (case dec b of None \<Rightarrow> False
            | Some r' \<Rightarrow> mr_type r' = mr_type r \<and> mr_event r' = mr_event r \<and> mr_role r' = mr_role r \<and> mr_text r' = mr_text r))"

lemma read_line_Nil [simp]: "read_line dec e [] = None"
  by (simp add: read_line_def)

lemma read_records_Nil [simp]: "read_records dec e [] = []"
  by (simp add: read_records_def)

lemma map_filter_append:
  "List.map_filter f (xs @ ys) = List.map_filter f xs @ List.map_filter f ys"
  by (induction xs) (auto split: option.splits)

lemma read_records_app:
  assumes "whole_lines c" "NL \<notin> set b"
  shows "read_records dec e (c @ b @ [NL]) =
    read_records dec e c @ List.map_filter (read_line dec e) [b]"
proof (cases "c = []")
  case True
  then show ?thesis using assms(2) split_on_append [of NL b "[]"]
    by (simp add: read_records_def split: option.splits)
next
  case False
  then obtain a where "c = a @ [NL]"
    using assms(1) by (metis append_butlast_last_id whole_lines_def)
  then show ?thesis
    using assms(2) split_on_append [of NL b "[]"]
    by (simp add: read_records_def split_on_glue map_filter_append split: option.splits)
qed

lemma context_msgs_app: "context_msgs (xs @ ys) = context_msgs xs @ context_msgs ys"
  by (simp add: context_msgs_def)

lemma context_texts_entry: "context_texts dec e c = context_texts dec e' c"
proof -
  have "context_msgs (List.map_filter (read_line dec e) ls)
      = context_msgs (List.map_filter (read_line dec e') ls)" for ls
    by (induction ls) (auto simp: read_line_def context_msgs_def normalize_message_record_def
        norm_event_def norm_type_def split: option.splits)
  then show ?thesis by (simp add: context_texts_def read_records_def)
qed

definition new_texts :: "string \<Rightarrow> string \<Rightarrow> append_opts \<Rightarrow> ctx_msg list" where
  "new_texts role text o' =
     (if is_context_message role text (event_type_of o') then [context_msg role text] else [])"

lemma event_type_not_Nil [simp]: "event_type_of o' \<noteq> []"
  by (simp add: event_type_of_def)

lemma context_texts_append:
  assumes "whole_lines c" "enc (new_record now e0 role text o') = Inr b"
    and "codec_ok enc dec (new_record now e0 role text o')"
  shows "context_texts dec e (c @ b @ [NL]) = context_texts dec e c @ new_texts role text o'"
    and "whole_lines (c @ b @ [NL])"
proof -
  let ?r = "new_record now e0 role text o'"
  from assms(2,3) obtain r' where b: "NL \<notin> set b" "trim_space b = b" "b \<noteq> []"
    and r': "dec b = Some r'" "mr_role r' = role" "mr_text r' = text" "mr_event r' = event_type_of o'"
    by (auto simp: codec_ok_def new_record_def split: option.splits)
  have "context_msgs (List.map_filter (read_line dec e) [b]) = new_texts role text o'"
    using b r' by (simp add: read_line_def context_msgs_def new_texts_def normalize_message_record_def norm_event_def)
  then show "context_texts dec e (c @ b @ [NL]) = context_texts dec e c @ new_texts role text o'"
    using assms(1) b(1) by (simp add: context_texts_def read_records_app context_msgs_app)
  show "whole_lines (c @ b @ [NL])" by (simp add: whole_lines_def)
qed

lemma write_record_result:
  assumes "write_record enc now m e r s = (None, f)"
  obtains b where "enc r = Inr b"
    "\<And>q. file_text f q = (if q = transcript_path m e then Some (transcript m s e @ b @ [NL])
            else file_text s q)"
    "fs_fault f = fs_fault s"
proof -
  let ?p = "transcript_path m e"
  from assms obtain s1 s2 b where 1: "mkdir_all (mg_dir m) s = Inr s1"
      and 2: "append_file now ?p [] s1 = Inr s2" and b: "enc r = Inr b"
      and 3: "append_file now ?p (b @ [NL]) s2 = Inr f"
    by (auto simp: write_record_def split: sum.splits)
  note t = file_text_mkdir [OF 1] file_text_append [OF 2] file_text_append [OF 3]
  have "file_text f q = (if q = ?p then Some (transcript m s e @ b @ [NL]) else file_text s q)" for q
    by (simp add: t transcript_def split: option.splits)
  with that b append_fault [OF 2] append_fault [OF 3] mkdir_all_fault [OF 1] show thesis by simp
qed

lemma synced_cong:
  assumes "en_id e' = en_id e" "en_version e' = en_version e" "en_sig e' = en_sig e"
    "en_recent e' = en_recent e" "en_summarized e' = en_summarized e" "en_summary e' = en_summary e"
    "file_text f' (transcript_path m e) = file_text f (transcript_path m e)"
  shows "synced dec m f' e' \<longleftrightarrow> synced dec m f e"
proof -
  have "transcript_path m e' = transcript_path m e" using assms by (simp add: transcript_path_def)
  then have "transcript m f' e' = transcript m f e" using assms by (simp add: transcript_def)
  then show ?thesis using assms context_texts_entry [of dec e' _ e]
    by (simp add: synced_def context_fresh_def window_of_def)
qed

lemma apply_frame:
  "en_id (apply_context_message b role text e) = en_id e"
  "en_key (apply_context_message b role text e) = en_key e"
  "en_agent (apply_context_message b role text e) = en_agent e"
  "context_fresh m (apply_context_message b role text e) = context_fresh m e"
  by (simp_all add: apply_context_message_def context_fresh_def Let_def)

lemma apply_record_frame:
  "en_id (apply_record b r e) = en_id e" "en_key (apply_record b r e) = en_key e"
  by (simp_all add: apply_record_def apply_frame)

lemma rebuild_frame:
  "rebuild_context dec m s e = Inr e' \<Longrightarrow> en_id e' = en_id e \<and> en_key e' = en_key e"
proof -
  have "en_id (fold (apply_record b) rs x) = en_id x \<and> en_key (fold (apply_record b) rs x) = en_key x"
    for b rs x
    by (induction rs arbitrary: x) (auto simp: apply_record_frame)
  then show "rebuild_context dec m s e = Inr e' \<Longrightarrow> en_id e' = en_id e \<and> en_key e' = en_key e"
    by (auto simp: rebuild_context_def fresh_context_def split: sum.splits io_error.splits)
qed

context session_store
begin

lemma ensure_fresh: "context_fresh m e \<Longrightarrow> ensure_context ops dec now m e s = (Inr e, s)"
  by (simp add: ensure_context_def)

lemma append_synced:
  assumes e0: "st_get ops (ss_store s) (en_key e) = Some e0" "en_id e0 = en_id e" "en_key e0 = en_key e"
    and sync: "synced dec m (ss_fs s) e0" and b: "budget_ok (mg_budget m)"
    and free: "transcript_path m e \<notin> owned (ss_store s)"
    and json: "codec_ok enc dec (new_record now e role text o')"
    and app: "append_with_options ops enc dec now now' m e role text o' s = (None, s')"
    and notblank: "\<not> (trim_space text = [] \<and> ao_tool o' = None \<and> ao_usage o' = None \<and> ao_meta o' = [])"
  shows "\<exists>e1. st_get ops (ss_store s') (en_key e) = Some e1 \<and> synced dec m (ss_fs s') e1
    \<and> en_id e1 = en_id e \<and> context_texts dec e1 (transcript m (ss_fs s') e1)
        = context_texts dec e0 (transcript m (ss_fs s) e0) @ new_texts role text o'"
proof -
  let ?c = "transcript m (ss_fs s) e0"
  have p: "transcript_path m e0 = transcript_path m e" using e0 by (simp add: transcript_path_def)
  then have c: "?c = transcript m (ss_fs s) e" by (simp add: transcript_def)
  from app notblank obtain f where
      f: "write_record enc now m e (new_record now e role text o') (ss_fs s) = (None, f)"
    and s': "(if is_context_message role text (event_type_of o')
          then update_context ops dec now' m e role text (s\<lparr>ss_fs := f\<rparr>)
          else (None, s\<lparr>ss_fs := f\<rparr>)) = (None, s')"
    by (auto simp: append_with_options_def split: prod.splits option.splits if_splits)
  from f obtain l where enc: "enc (new_record now e role text o') = Inr l"
    and ft: "\<And>q. file_text f q = (if q = transcript_path m e then Some (?c @ l @ [NL])
                                 else file_text (ss_fs s) q)"
    by (rule write_record_result) (auto simp: c)
  have wl: "whole_lines ?c" and w: "window_of (mg_budget m) (context_texts dec e0 ?c) e0"
    and fresh: "context_fresh m e0" using sync by (auto simp: synced_def)
  note texts = context_texts_append [OF wl enc json]
  have new: "context_texts dec x (transcript m g y) = context_texts dec e0 ?c @ new_texts role text o'"
      "whole_lines (transcript m g y)"
    if "transcript_path m y = transcript_path m e"
      "file_text g (transcript_path m e) = file_text f (transcript_path m e)" for g x y
    using texts that ft context_texts_entry [of dec x _ e0] by (simp_all add: transcript_def)
  show ?thesis
  proof (cases "is_context_message role text (event_type_of o')")
    case False
    with s' have "s' = s\<lparr>ss_fs := f\<rparr>" by simp
    with False new [of e0 f] e0 p w fresh show ?thesis by (auto simp: new_texts_def synced_def)
  next
    case True
    let ?e1 = "(apply_context_message (mg_budget m) role text e0)\<lparr>en_updated := now'\<rparr>"
    from True s' e0(1) have put: "st_put ops now' ?e1 (s\<lparr>ss_fs := f\<rparr>) = (None, s')"
      by (simp add: update_context_def ensure_fresh [OF fresh])
    have get: "st_get ops (ss_store s') (en_key e) = Some ?e1"
      using get_put [OF put, of "en_key e"] e0 by (simp add: apply_frame)
    have p1: "transcript_path m ?e1 = transcript_path m e"
      using p by (simp add: transcript_path_def apply_frame)
    have "file_text (ss_fs s') (transcript_path m e) = file_text f (transcript_path m e)"
      using put_files [OF put, of "transcript_path m e"] free by simp
    note n = new [OF p1 this]
    have "window_of (mg_budget m) (context_texts dec e0 ?c @ [context_msg role text]) ?e1"
      using window_apply [OF w b is_context_text [OF True], of role] by (simp add: window_of_def)
    with True n(1) [of ?e1] n(2) apply_frame(4) [of m _ role "text" e0] fresh
    have "synced dec m (ss_fs s') ?e1"
      by (simp add: synced_def new_texts_def context_fresh_def)
    with get n(1) [of ?e1] e0 show ?thesis by (auto simp: apply_frame)
  qed
qed

lemma append_stale:
  assumes e0: "st_get ops (ss_store s) (en_key e) = Some e0" "en_id e0 = en_id e" "en_key e0 = en_key e"
    and stale: "\<not> context_fresh m e0" and wl: "whole_lines (transcript m (ss_fs s) e)"
    and b: "budget_ok (mg_budget m)"
    and nofault: "fs_fault (ss_fs s) OpRead (transcript_path m e) = None"
    and json: "codec_ok enc dec (new_record now e role text o')"
    and app: "append_with_options ops enc dec now now' m e role text o' s = (None, s')"
    and ctx: "is_context_message role text (event_type_of o')"
  shows "\<exists>e1. st_get ops (ss_store s') (en_key e) = Some e1
    \<and> window_of (mg_budget m) (context_texts dec e (transcript m (ss_fs s) e)
          @ [context_msg role text, context_msg role text]) e1"
proof -
  let ?c = "transcript m (ss_fs s) e"
  have p: "transcript_path m e0 = transcript_path m e" using e0 by (simp add: transcript_path_def)
  from app is_context_text [OF ctx] ctx obtain f where
      f: "write_record enc now m e (new_record now e role text o') (ss_fs s) = (None, f)"
    and s': "update_context ops dec now' m e role text (s\<lparr>ss_fs := f\<rparr>) = (None, s')"
    by (auto simp: append_with_options_def split: prod.splits option.splits if_splits)
  from f obtain l where enc: "enc (new_record now e role text o') = Inr l"
    and ft: "file_text f (transcript_path m e) = Some (?c @ l @ [NL])"
    and ff: "fs_fault f = fs_fault (ss_fs s)"
    by (rule write_record_result) auto
  have rd: "read_file f (transcript_path m e0) = Inr (?c @ l @ [NL])"
    using read_file_text(1) ft ff nofault p by simp
  from s' e0 stale obtain e' s1 where
      rb: "rebuild_context dec m f e0 = Inr e'"
    and put1: "st_put ops now' e' (s\<lparr>ss_fs := f\<rparr>) = (None, s1)"
    and put2: "st_put ops now' ((apply_context_message (mg_budget m) role text e')\<lparr>en_updated := now'\<rparr>) s1
          = (None, s')"
    by (auto simp: update_context_def ensure_context_def split: prod.splits sum.splits option.splits)
  have w: "window_of (mg_budget m) (context_texts dec e ?c @ [context_msg role text]) e'"
    using rebuild_window [OF b rd rb] context_texts_append(1) [OF wl enc json, of e0] ctx
      context_texts_entry [of dec e0 _ e]
    by (simp add: context_texts_def new_texts_def)
  show ?thesis
    using window_apply [OF w b is_context_text [OF ctx], of role] get_put [OF put2, of "en_key e"]
      rebuild_frame [OF rb] e0
    by (simp add: apply_frame window_of_def)
qed

lemma touch_keeps_identity:
  assumes "st_get ops (ss_store s) key = Some e0" "en_key e0 = key"
    and "touch ops now now' m key agent s = (Inr e, s')"
  shows "en_id e = en_id e0 \<and> en_agent e = en_agent e0 \<and> st_get ops (ss_store s') key = Some e
    \<and> e = e0\<lparr>en_updated := now\<rparr>"
proof -
  from assms(1,3) have e: "e = e0\<lparr>en_updated := now\<rparr>" and put: "st_put ops now' e s = (None, s')"
    by (auto simp: touch_def Let_def split: prod.splits option.splits)
  from get_put_same [OF put] assms(2) e show ?thesis by simp
qed

lemma touch_creates:
  assumes "st_get ops (ss_store s) key = None"
    and "touch ops now now' m key agent s = (Inr e, s')"
  shows "en_key e = key \<and> en_agent e = agent \<and> context_fresh m e
    \<and> st_get ops (ss_store s') key = Some e"
proof -
  from assms have "st_put ops now' e s = (None, s')"
    and e: "en_key e = key" "en_agent e = agent" "context_fresh m e"
    by (auto simp: touch_def Let_def context_fresh_def split: prod.splits option.splits)
  from get_put_same [OF this(1)] e show ?thesis by simp
qed

end

section \<open>The manager on the daemon's store\<close>

text \<open>A small state on which the properties are evaluated: one session, one codec line.\<close>

definition demo_entry :: entry where
  "demo_entry = \<lparr>en_key = ''k'', en_id = ''a'', en_agent = ''main'', en_updated = GTime 0,
     en_version = 1, en_sig = ''v1:h2:s90:l9'', en_summarized = 0, en_summary = [],
     en_recent = []\<rparr>"

definition demo_manager :: manager where
  "demo_manager = \<lparr>mg_dir = ''t'',
     mg_budget = \<lparr>bu_history = 2, bu_summary = 90, bu_line = 9\<rparr>\<rparr>"

definition demo_state :: "entry \<Rightarrow> file_store sess" where
  "demo_state e = \<lparr>ss_store = \<lparr>fl_path = ''s/db'', fl_data = [(''k'', e)]\<rparr>, ss_fs = plain_fs []\<rparr>"

definition demo_record :: msg_rec where
  "demo_record = new_record (GTime 1) demo_entry ''user'' ''hi'' no_opts"

definition demo_enc :: "msg_rec \<Rightarrow> go_error + string" where
  "demo_enc r = (if r = demo_record then Inr ''r'' else Inl ''unsupported'')"

definition demo_dec :: "string \<Rightarrow> msg_rec option" where
  "demo_dec b = (if b = ''r'' then Some demo_record else None)"

definition demo_ops :: "file_store store_ops" where
  "demo_ops = file_ops (\<lambda>_. Inr ''d'')"

abbreviation demo_append where
  "demo_append e \<equiv> append_with_options demo_ops demo_enc demo_dec (GTime 1) (GTime 2) demo_manager
     demo_entry ''user'' ''hi'' no_opts (demo_state e)"

text \<open>
  C10: the context never drifts from the transcript. If the context stored for a session is
  the one its transcript gives, it still is after any append that succeeds, messages and
  events alike: the stored window holds the last messages of the transcript with the new one
  at its end, and the summary what came before. The line that was written is read back by
  the next rebuild, so a restart and an incremental update give the model the same context.
\<close>

theorem append_keeps_context:
  assumes "st_get (file_ops encs) (ss_store s) (en_key e) = Some e0"
    and "en_id e0 = en_id e" "en_key e0 = en_key e"
    and "synced dec m (ss_fs s) e0" and "budget_ok (mg_budget m)"
    and "transcript_path m e \<notin> store_files (ss_store s)"
    and "codec_ok enc dec (new_record now e role text o')"
    and "append_with_options (file_ops encs) enc dec now now' m e role text o' s = (None, s')"
    and "\<not> (trim_space text = [] \<and> ao_tool o' = None \<and> ao_usage o' = None \<and> ao_meta o' = [])"
  shows "\<exists>e1. st_get (file_ops encs) (ss_store s') (en_key e) = Some e1 \<and> synced dec m (ss_fs s') e1
    \<and> en_id e1 = en_id e \<and> context_texts dec e1 (transcript m (ss_fs s') e1)
        = context_texts dec e0 (transcript m (ss_fs s) e0) @ new_texts role text o'"
  using assms by (rule fst.append_synced)

theorem append_keeps_context_witness:
  "\<exists>e1. st_get demo_ops (ss_store (snd (demo_append demo_entry))) ''k'' = Some e1
    \<and> synced demo_dec demo_manager (ss_fs (snd (demo_append demo_entry))) e1
    \<and> context_texts demo_dec e1 (transcript demo_manager (ss_fs (snd (demo_append demo_entry))) e1)
        = [\<lparr>cx_role = ''user'', cx_text = ''hi''\<rparr>]"
proof -
  have r: "demo_append demo_entry = (None, snd (demo_append demo_entry))"
  proof -
    have "fst (demo_append demo_entry) = None" by code_simp
    then show ?thesis by (simp add: prod_eq_iff)
  qed
  have g: "st_get demo_ops (ss_store (demo_state demo_entry)) (en_key demo_entry) = Some demo_entry"
    by code_simp
  have h: "synced demo_dec demo_manager (ss_fs (demo_state demo_entry)) demo_entry"
    "budget_ok (mg_budget demo_manager)"
    "transcript_path demo_manager demo_entry \<notin> store_files (ss_store (demo_state demo_entry))"
    "codec_ok demo_enc demo_dec (new_record (GTime 1) demo_entry ''user'' ''hi'' no_opts)"
    "\<not> (trim_space ''hi'' = [] \<and> ao_tool no_opts = None \<and> ao_usage no_opts = None \<and> ao_meta no_opts = [])"
    by code_simp+
  have t: "context_texts demo_dec demo_entry (transcript demo_manager (ss_fs (demo_state demo_entry))
      demo_entry) = []" "new_texts ''user'' ''hi'' no_opts = [\<lparr>cx_role = ''user'', cx_text = ''hi''\<rparr>]"
    "en_key demo_entry = ''k''"
    by code_simp+
  from append_keeps_context [OF g [unfolded demo_ops_def] refl refl h(1-4) r [unfolded demo_ops_def] h(5)]
  show ?thesis unfolding demo_ops_def t by auto
qed

text \<open>
  After the budget has changed, an append that comes before anything else has rebuilt the
  context counts the new message twice: the transcript is written first, the rebuild reads
  the new line, and the message is then applied once more.
\<close>

theorem stale_append_counts_twice:
  assumes "st_get (file_ops encs) (ss_store s) (en_key e) = Some e0"
    and "en_id e0 = en_id e" "en_key e0 = en_key e"
    and "\<not> context_fresh m e0" and "whole_lines (transcript m (ss_fs s) e)"
    and "budget_ok (mg_budget m)" and "fs_fault (ss_fs s) OpRead (transcript_path m e) = None"
    and "codec_ok enc dec (new_record now e role text o')"
    and "append_with_options (file_ops encs) enc dec now now' m e role text o' s = (None, s')"
    and "is_context_message role text (event_type_of o')"
  shows "\<exists>e1. st_get (file_ops encs) (ss_store s') (en_key e) = Some e1
    \<and> window_of (mg_budget m) (context_texts dec e (transcript m (ss_fs s) e)
          @ [context_msg role text, context_msg role text]) e1"
  using assms by (rule fst.append_stale)

definition stale_entry :: entry where "stale_entry = demo_entry\<lparr>en_sig := ''v1:h24:s90:l9''\<rparr>"

theorem stale_append_counts_twice_witness:
  "\<exists>e1. st_get demo_ops (ss_store (snd (demo_append stale_entry))) ''k'' = Some e1
    \<and> en_recent e1 = [\<lparr>cx_role = ''user'', cx_text = ''hi''\<rparr>, \<lparr>cx_role = ''user'', cx_text = ''hi''\<rparr>]"
proof -
  have r: "demo_append stale_entry = (None, snd (demo_append stale_entry))"
  proof -
    have "fst (demo_append stale_entry) = None" by code_simp
    then show ?thesis by (simp add: prod_eq_iff)
  qed
  have g: "st_get demo_ops (ss_store (demo_state stale_entry)) (en_key demo_entry) = Some stale_entry"
    "en_id stale_entry = en_id demo_entry" "en_key stale_entry = en_key demo_entry"
    by code_simp+
  have h: "\<not> context_fresh demo_manager stale_entry"
    "whole_lines (transcript demo_manager (ss_fs (demo_state stale_entry)) demo_entry)"
    "budget_ok (mg_budget demo_manager)"
    "codec_ok demo_enc demo_dec (new_record (GTime 1) demo_entry ''user'' ''hi'' no_opts)"
    "is_context_message ''user'' ''hi'' (event_type_of no_opts)"
    by code_simp+
  have f: "fs_fault (ss_fs (demo_state stale_entry)) OpRead (transcript_path demo_manager demo_entry) = None"
    by (simp add: demo_state_def plain_fs_def)
  have t: "context_texts demo_dec demo_entry (transcript demo_manager (ss_fs (demo_state stale_entry))
      demo_entry) = []" "context_msg ''user'' ''hi'' = \<lparr>cx_role = ''user'', cx_text = ''hi''\<rparr>"
    "en_key demo_entry = ''k''" "nat (bu_history (mg_budget demo_manager)) = Suc (Suc 0)"
    by code_simp+
  from stale_append_counts_twice [OF g(1) [unfolded demo_ops_def] g(2,3) h(1-3) f h(4)
      r [unfolded demo_ops_def] h(5)]
  show ?thesis unfolding demo_ops_def t by (auto simp: window_of_def t)
qed

text \<open>
  A session keeps its identity. Touching a session that exists changes the time of its
  entry and nothing else, whatever agent is named, and what is returned is what is stored.
\<close>

theorem touch_keeps_session:
  assumes "st_get (file_ops encs) (ss_store s) key = Some e0" "en_key e0 = key"
    and "touch (file_ops encs) now now' m key agent s = (Inr e, s')"
  shows "e = e0\<lparr>en_updated := now\<rparr> \<and> st_get (file_ops encs) (ss_store s') key = Some e"
  using fst.touch_keeps_identity [OF assms] by blast

theorem touch_keeps_session_witness:
  "st_get demo_ops (ss_store (snd (touch demo_ops (GTime 7) (GTime 7) demo_manager ''k'' ''other''
      (demo_state demo_entry)))) ''k'' = Some (demo_entry\<lparr>en_updated := GTime 7\<rparr>)"
proof -
  let ?t = "touch demo_ops (GTime 7) (GTime 7) demo_manager ''k'' ''other'' (demo_state demo_entry)"
  have "fst ?t = Inr (demo_entry\<lparr>en_updated := GTime 7\<rparr>)" by code_simp
  then have t: "?t = (Inr (demo_entry\<lparr>en_updated := GTime 7\<rparr>), snd ?t)" by (simp add: prod_eq_iff)
  have g: "st_get demo_ops (ss_store (demo_state demo_entry)) ''k'' = Some demo_entry"
    "en_key demo_entry = ''k''"
    by code_simp+
  from touch_keeps_session [OF g(1) [unfolded demo_ops_def] g(2) t [unfolded demo_ops_def]]
  show ?thesis by (simp add: demo_ops_def)
qed

theorem rebuild_context_window_witness:
  "\<exists>e'. rebuild_context demo_dec demo_manager
      (plain_fs [(''t/a.jsonl'', ''r'' @ [NL] @ ''?'' @ [NL] @ ''r'' @ [NL] @ ''r'')]) demo_entry = Inr e'
    \<and> en_summarized e' = 1 \<and> length (en_recent e') = 2"
proof -
  let ?fs = "plain_fs [(''t/a.jsonl'', ''r'' @ [NL] @ ''?'' @ [NL] @ ''r'' @ [NL] @ ''r'')]"
  have r: "read_file ?fs (transcript_path demo_manager demo_entry)
      = Inr (''r'' @ [NL] @ ''?'' @ [NL] @ ''r'' @ [NL] @ ''r'')" by code_simp
  then obtain e' where e': "rebuild_context demo_dec demo_manager ?fs demo_entry = Inr e'"
    by (simp add: rebuild_context_def)
  have "budget_ok (mg_budget demo_manager)" by code_simp
  moreover have "length (context_msgs (read_records demo_dec demo_entry
      (''r'' @ [NL] @ ''?'' @ [NL] @ ''r'' @ [NL] @ ''r''))) = Suc (Suc (Suc 0))" by code_simp
  moreover have "nat (bu_history (mg_budget demo_manager)) = Suc (Suc 0)" by code_simp
  ultimately show ?thesis
    using rebuild_context_window [OF _ r e'] e' by (simp add: window_of_def)
qed

end
