(* ===== verification/Gateway.thy ===== *)
theory Gateway
  imports Runtime Router Hub Sessions
begin

text \<open>
  \<open>internal/gateway/server.go\<close>: what happens to an inbound message, from the token to the replies.
  The daemon gives the gateway and the runtime the same services, so the state of the gateway is
  the runtime, the sessions and the rest of the world. All effects of a run come before its
  first event, so a run is one step and its events are then handled in order; the clock is a
  function of the number of times it was read.
\<close>

section \<open>State\<close>

record ('c, 's, 'x) gateway =
  gw_runtime :: "('c, 'x) runtime"
  gw_sess :: "'s sess"
  gw_rest :: 'x

record 's session_env =
  se_ops :: "'s store_ops"
  se_enc :: "msg_rec \<Rightarrow> go_error + string"
  se_dec :: "string \<Rightarrow> msg_rec option"

text \<open>
  The server: its token, the configuration the router reads, the hub as the function that sends
  a message, the session manager (which may be missing) and the workspace.
\<close>

record 'x server =
  sr_token :: string
  sr_config :: config
  sr_send :: "outbound \<Rightarrow> 'x \<Rightarrow> go_error option \<times> 'x"
  sr_manager :: "manager option"
  sr_workspace :: string

section \<open>Records\<close>

definition map_event_type :: "string \<Rightarrow> string" where
  "map_event_type kind =
     (if trim_space kind = ''tool'' then ''tool_call''
      else if trim_space kind = ''block'' then ''message_chunk''
      else if trim_space kind = ''final'' then ''message''
      else ''event'')"

definition first_non_empty :: "string list \<Rightarrow> string" where
  "first_non_empty vs = (case find (\<lambda>v. trim_space v \<noteq> []) vs of Some v \<Rightarrow> v | None \<Rightarrow> [])"

definition input_opts :: "inbound \<Rightarrow> append_opts" where
  "input_opts msg =
     \<lparr>ao_event = ''message'', ao_run = trim_space (im_run msg), ao_kind = ''input'', ao_provider = ''runtime'',
      ao_aborted = False, ao_tool = None, ao_usage = None,
      ao_meta = [(''channel'', im_channel msg), (''accountId'', im_account msg), (''peerId'', im_peer msg),
        (''peerType'', im_peer_type msg), (''userId'', im_user msg), (''threadId'', im_thread msg)]\<rparr>"

definition event_opts :: "inbound \<Rightarrow> agent_event \<Rightarrow> append_opts" where
  "event_opts msg evt =
     \<lparr>ao_event = map_event_type (ev_kind evt),
      ao_run = first_non_empty [trim_space (ev_run evt), trim_space (im_run msg)],
      ao_kind = ev_kind evt, ao_provider = ev_provider evt, ao_aborted = ev_aborted evt,
      ao_tool = ev_tool evt, ao_usage = ev_usage evt, ao_meta = []\<rparr>"

definition reply_to :: "inbound \<Rightarrow> string \<Rightarrow> string \<Rightarrow> outbound" where
  "reply_to msg session t =
     \<lparr>om_channel = im_channel msg, om_account = im_account msg, om_target = im_peer msg,
      om_thread = im_thread msg, om_session = session, om_text = t\<rparr>"

section \<open>The session of a message\<close>

text \<open>The session part of \<open>handleInbound\<close>: the entry, the history and the summary for the run.\<close>

definition open_session ::
    "'s session_env \<Rightarrow> (nat \<Rightarrow> gtime) \<Rightarrow> manager option \<Rightarrow> route \<Rightarrow> inbound \<Rightarrow> 's sess
      \<Rightarrow> (go_error + entry option \<times> conv_msg list \<times> string) \<times> 's sess" where
  "open_session se clock mo route msg s =
     (case mo of
        None \<Rightarrow> (Inr (None, [], []), s)
      | Some m \<Rightarrow>
          (case touch (se_ops se) (clock 1) (clock 2) m (rt_session route) (rt_agent route) s of
             (Inl e, s1) \<Rightarrow> (Inl e, s1)
           | (Inr e, s1) \<Rightarrow>
               (case model_context (se_ops se) (se_dec se) (clock 3) m (rt_session route) s1 of
                  (Inl err, s2) \<Rightarrow> (Inl err, s2)
                | (Inr (hist, summary), s2) \<Rightarrow>
                    (case append_with_options (se_ops se) (se_enc se) (se_dec se) (clock 4) (clock 5) m e
                            ''user'' (im_text msg) (input_opts msg) s2 of
                       (Some err, s3) \<Rightarrow> (Inl err, s3)
                     | (None, s3) \<Rightarrow> (Inr (Some e, hist, summary), s3)))))"

section \<open>The events of a run\<close>

definition record_event ::
    "'s session_env \<Rightarrow> gtime \<Rightarrow> gtime \<Rightarrow> manager option \<Rightarrow> entry option \<Rightarrow> inbound \<Rightarrow> agent_event \<Rightarrow> 's sess
      \<Rightarrow> go_error option \<times> 's sess" where
  "record_event se now now' mo eo msg evt s =
     (case (mo, eo) of
        (Some m, Some e) \<Rightarrow>
          append_with_options (se_ops se) (se_enc se) (se_dec se) now now' m e ''assistant'' (ev_text evt)
            (event_opts msg evt) s
      | _ \<Rightarrow> (None, s))"

text \<open>
  The loop over the events: the error it returns, the events the observer was given and the
  messages that were handed to the hub, with the sessions and the world after them.
\<close>

fun deliver_events ::
    "'x server \<Rightarrow> 's session_env \<Rightarrow> (nat \<Rightarrow> gtime) \<Rightarrow> nat \<Rightarrow> entry option \<Rightarrow> inbound \<Rightarrow> string \<Rightarrow> agent_event list
      \<Rightarrow> 's sess \<Rightarrow> 'x \<Rightarrow> go_error option \<times> agent_event list \<times> outbound list \<times> 's sess \<times> 'x" where
  "deliver_events sv se clock i eo msg key [] s x = (None, [], [], s, x)"
| "deliver_events sv se clock i eo msg key (evt # evts) s x =
     (case ev_err evt of
        Some e \<Rightarrow> (Some e, [evt], [], s, x)
      | None \<Rightarrow>
          if ev_text evt = []
          then (case deliver_events sv se clock i eo msg key evts s x of
                  (r, seen, sent, w) \<Rightarrow> (r, evt # seen, sent, w))
          else (case sr_send sv (reply_to msg key (ev_text evt)) x of
                  (Some e, x') \<Rightarrow> (Some e, [evt], [reply_to msg key (ev_text evt)], s, x')
                | (None, x') \<Rightarrow>
                    (case record_event se (clock i) (clock (i + 1)) (sr_manager sv) eo msg evt s of
                       (Some e, s') \<Rightarrow> (Some e, [evt], [reply_to msg key (ev_text evt)], s', x')
                     | (None, s') \<Rightarrow>
                         (case deliver_events sv se clock (i + 2) eo msg key evts s' x' of
                            (r, seen, sent, w) \<Rightarrow>
                              (r, evt # seen, reply_to msg key (ev_text evt) # sent, w)))))"

section \<open>An inbound message\<close>

definition missing_peer :: go_error where
  "missing_peer = ''gateway: channel and peerID are required''"

definition stamp :: "gtime \<Rightarrow> inbound \<Rightarrow> inbound" where
  "stamp now msg = (if is_zero_time (im_at msg) then msg\<lparr>im_at := now\<rparr> else msg)"

definition request_for :: "route \<Rightarrow> inbound \<Rightarrow> conv_msg list \<Rightarrow> string \<Rightarrow> run_request" where
  "request_for route msg hist summary =
     \<lparr>rq_agent = rt_agent route, rq_session = rt_session route, rq_run = im_run msg, rq_message = msg,
      rq_history = hist, rq_summary = summary\<rparr>"

definition handle_inbound ::
    "'x server \<Rightarrow> run_env \<Rightarrow> 's session_env \<Rightarrow> (nat \<Rightarrow> gtime) \<Rightarrow> string \<Rightarrow> inbound \<Rightarrow> ('c, 's, 'x) gateway
      \<Rightarrow> (go_error option \<times> agent_event list \<times> outbound list) \<times> ('c, 's, 'x) gateway" where
  "handle_inbound sv en se clock token msg0 g =
     (case authenticate (sr_token sv) token of
        Inl e \<Rightarrow> ((Some e, [], []), g)
      | Inr _ \<Rightarrow>
          if im_channel msg0 = [] \<or> im_peer msg0 = [] then ((Some missing_peer, [], []), g)
          else
            (let msg = stamp (clock 0) msg0; route = resolve (sr_config sv) msg
             in case open_session se clock (sr_manager sv) route msg (gw_sess g) of
                  (Inl e, s1) \<Rightarrow> ((Some e, [], []), g\<lparr>gw_sess := s1\<rparr>)
                | (Inr (eo, hist, summary), s1) \<Rightarrow>
                    (case agent_run en (request_for route msg hist summary) (gw_runtime g)
                            (ss_fs s1, gw_rest g) of
                       (evts, rt', (f', x')) \<Rightarrow>
                         (case deliver_events sv se clock 6 eo msg (rt_session route) evts
                                 (s1\<lparr>ss_fs := f'\<rparr>) x' of
                            (r, seen, sent, s2, x2) \<Rightarrow>
                              ((r, seen, sent),
                               g\<lparr>gw_runtime := rt', gw_sess := s2, gw_rest := x2\<rparr>)))))"

section \<open>Queries\<close>

definition sessions_list :: "'s session_env \<Rightarrow> manager option \<Rightarrow> ('c, 's, 'x) gateway \<Rightarrow> entry list" where
  "sessions_list se mo g =
     (case mo of None \<Rightarrow> [] | Some _ \<Rightarrow> st_list (se_ops se) (ss_store (gw_sess g)))"

definition chat_history ::
    "'s session_env \<Rightarrow> manager option \<Rightarrow> history_filter \<Rightarrow> string \<Rightarrow> ('c, 's, 'x) gateway
      \<Rightarrow> (go_error + msg_rec page) option" where
  "chat_history se mo f key g =
     (case mo of
        None \<Rightarrow> Some (Inl ''gateway: sessions are not configured'')
      | Some m \<Rightarrow> history_page_filtered (se_ops se) (se_dec se) m key
                    (f\<lparr>hf_role := normal_key (hf_role f)\<rparr>) (gw_sess g))"

record skill_status =
  kt_name :: string
  kt_desc :: string
  kt_path :: string
  kt_enabled :: bool
  kt_reason :: string

definition skill_status_of :: "skill \<Rightarrow> skill_status" where
  "skill_status_of k = \<lparr>kt_name = sk_name k, kt_desc = sk_desc k, kt_path = sk_path k,
     kt_enabled = sk_enabled k, kt_reason = sk_reason k\<rparr>"

definition skills_list ::
    "string \<Rightarrow> bool \<Rightarrow> ('c, 's, 'x) gateway \<Rightarrow> (go_error + skill_status list) \<times> ('c, 's, 'x) gateway" where
  "skills_list root only g =
     (case ru_skills (gw_runtime g) of
        None \<Rightarrow> (Inr [], g)
      | Some sv \<Rightarrow>
          (case load_all root (ss_fs (gw_sess g)) sv of
             (res, sv') \<Rightarrow>
               (map_sum id (\<lambda>ks. map skill_status_of (filter (\<lambda>k. only \<longrightarrow> sk_enabled k) ks)) res,
                g\<lparr>gw_runtime := (gw_runtime g)\<lparr>ru_skills := Some sv'\<rparr>\<rparr>)))"

definition tools_catalog :: "('c, 's, 'x) gateway \<Rightarrow> metadata list" where
  "tools_catalog g = reg_catalog (ru_tools (gw_runtime g))"

definition gateway_mcp_status :: "('c, 's, 'x) gateway \<Rightarrow> status_snapshot" where
  "gateway_mcp_status g = (case ru_mcp (gw_runtime g) of
       None \<Rightarrow> mcp_status (None :: 'c mcp_manager option) | Some m \<Rightarrow> mcp_status m)"

definition gateway_mcp_tools :: "('c, 's, 'x) gateway \<Rightarrow> tool_mapping list" where
  "gateway_mcp_tools g = (case ru_mcp (gw_runtime g) of None \<Rightarrow> [] | Some m \<Rightarrow> mcp_tools m)"

definition profile_missing :: go_error where
  "profile_missing = ''gateway: profile service is not configured''"

definition gateway_profile_get :: "string \<Rightarrow> ('c, 's, 'x) gateway \<Rightarrow> go_error + get_result" where
  "gateway_profile_get file g =
     (case ru_profile (gw_runtime g) of
        None \<Rightarrow> Inl profile_missing
      | Some p \<Rightarrow> profile_get p (ss_fs (gw_sess g)) file)"

definition gateway_profile_update ::
    "gtime \<Rightarrow> update_request \<Rightarrow> ('c, 's, 'x) gateway \<Rightarrow> (go_error + update_result) \<times> ('c, 's, 'x) gateway" where
  "gateway_profile_update now req g =
     (case ru_profile (gw_runtime g) of
        None \<Rightarrow> (Inl profile_missing, g)
      | Some p \<Rightarrow>
          (case profile_update now p req (ss_fs (gw_sess g)) of
             (r, f') \<Rightarrow> (r, g\<lparr>gw_sess := (gw_sess g)\<lparr>ss_fs := f'\<rparr>\<rparr>)))"

definition bootstrap_root :: "string \<Rightarrow> ('c, 's, 'x) gateway \<Rightarrow> string" where
  "bootstrap_root root g = (case ru_bootstrap (gw_runtime g) of Some r \<Rightarrow> r | None \<Rightarrow> root)"

definition bootstrap_status ::
    "run_env \<Rightarrow> string \<Rightarrow> ('c, 's, 'x) gateway \<Rightarrow> go_error + workspace_status" where
  "bootstrap_status en root g = get_status (en_dec_state en) (bootstrap_root root g) (ss_fs (gw_sess g))"

definition bootstrap_complete ::
    "run_env \<Rightarrow> string \<Rightarrow> bool \<Rightarrow> ('c, 's, 'x) gateway
      \<Rightarrow> (go_error + workspace_status) \<times> ('c, 's, 'x) gateway" where
  "bootstrap_complete en root remove g =
     (case complete_onboarding (en_enc_state en) (en_dec_state en) (en_now en) (en_rfc en)
             (bootstrap_root root g) remove (ss_fs (gw_sess g)) of
        (r, f') \<Rightarrow> (r, g\<lparr>gw_sess := (gw_sess g)\<lparr>ss_fs := f'\<rparr>\<rparr>))"

section \<open>Replies go back where the message came from\<close>

lemma resolve_stamp [simp]: "resolve c (stamp now msg) = resolve c msg"
  by (simp add: resolve_def stamp_def)

definition replies :: "inbound \<Rightarrow> string \<Rightarrow> agent_event list \<Rightarrow> outbound list" where
  "replies msg key evts = map (reply_to msg key) (filter (\<lambda>t. t \<noteq> []) (map ev_text evts))"

lemma replies_Cons:
  "replies msg key (e # es) =
     (if ev_text e = [] then replies msg key es else reply_to msg key (ev_text e) # replies msg key es)"
  by (simp add: replies_def)

text \<open>The texts of a run that are not empty.\<close>

definition texts_of :: "agent_event list \<Rightarrow> string list" where
  "texts_of evts = filter (\<lambda>t. t \<noteq> []) (map ev_text evts)"

lemma texts_replies: "map om_text (replies msg key evts) = texts_of evts"
  by (simp add: replies_def texts_of_def reply_to_def o_def)

lemma replies_origin:
  "out \<in> set (replies msg key evts) \<Longrightarrow> om_channel out = im_channel msg \<and> om_account out = im_account msg
     \<and> om_target out = im_peer msg \<and> om_thread out = im_thread msg \<and> om_session out = key"
  by (auto simp: replies_def reply_to_def)

lemma deliver_prefix:
  "deliver_events sv se clock i eo msg key evts s x = (r, seen, sent, s', x') \<Longrightarrow>
     prefix sent (replies msg key evts) \<and> prefix seen evts
     \<and> (r = None \<longrightarrow> seen = evts \<and> sent = replies msg key evts)"
proof (induction evts arbitrary: i s x seen sent)
  case Nil
  then show ?case by (simp add: replies_def)
next
  case (Cons e evts)
  consider t where "ev_err e = Some t" | "ev_err e = None" "ev_text e = []"
    | "ev_err e = None" "ev_text e \<noteq> []" by (cases "ev_err e") auto
  then show ?case
  proof cases
    case 1
    with Cons.prems show ?thesis by auto
  next
    case 2
    then obtain seen' where d: "deliver_events sv se clock i eo msg key evts s x = (r, seen', sent, s', x')"
        "seen = e # seen'"
      using Cons.prems by (auto split: prod.splits)
    from Cons.IH [OF d(1)] d(2) 2 show ?thesis by (simp add: replies_Cons)
  next
    case 3
    obtain o1 x1 where o1: "sr_send sv (reply_to msg key (ev_text e)) x = (o1, x1)" by fastforce
    obtain o2 s1 where o2: "record_event se (clock i) (clock (i + 1)) (sr_manager sv) eo msg e s = (o2, s1)"
      by fastforce
    show ?thesis
    proof (cases "o1 = None \<and> o2 = None")
      case True
      obtain r' seen' sent' w where d: "deliver_events sv se clock (i + 2) eo msg key evts s1 x1 = (r', seen', sent', w)"
        by (metis prod_cases4)
      with True 3 o1 o2 Cons.prems have eq: "r' = r" "seen = e # seen'"
        "sent = reply_to msg key (ev_text e) # sent'" "w = (s', x')" by auto
      from Cons.IH [of "i + 2" s1 x1 seen' sent'] d eq 3 show ?thesis by (simp add: replies_Cons)
    next
      case False
      then have "r \<noteq> None \<and> seen = [e] \<and> sent = [reply_to msg key (ev_text e)]"
        using Cons.prems 3 o1 o2 by (auto split: option.splits)
      with 3 show ?thesis by (auto simp: replies_Cons)
    qed
  qed
qed

lemma handled_inbound:
  assumes "handle_inbound sv en se clock token msg g = ((r, seen, sent), g')"
  shows "(\<not> token_admitted (sr_token sv) token \<or> im_channel msg = [] \<or> im_peer msg = [] \<longrightarrow>
            r \<noteq> None \<and> seen = [] \<and> sent = [] \<and> g' = g)
    \<and> (\<forall>out \<in> set sent. om_channel out = im_channel msg \<and> om_account out = im_account msg
         \<and> om_target out = im_peer msg \<and> om_thread out = im_thread msg
         \<and> om_session out = rt_session (resolve (sr_config sv) msg))
    \<and> (\<exists>evts. prefix seen evts \<and> prefix (map om_text sent) (texts_of evts)
        \<and> (r = None \<longrightarrow> seen = evts \<and> map om_text sent = texts_of evts
             \<and> run_events (run_id en (request_for (resolve (sr_config sv) msg) msg [] []))
                  (rt_session (resolve (sr_config sv) msg)) evts))"
proof (cases "token_admitted (sr_token sv) token \<and> im_channel msg \<noteq> [] \<and> im_peer msg \<noteq> []")
  case False
  have "r \<noteq> None \<and> seen = [] \<and> sent = [] \<and> g' = g"
  proof (cases "token_admitted (sr_token sv) token")
    case True
    then obtain p where "authenticate (sr_token sv) token = Inr p" using tok.accepted by blast
    with True False assms show ?thesis by (auto simp: handle_inbound_def)
  next
    case no: False
    then obtain e where "authenticate (sr_token sv) token = Inl e" using tok.rejected by blast
    with assms show ?thesis by (auto simp: handle_inbound_def)
  qed
  then show ?thesis by auto
next
  case True
  let ?m = "stamp (clock 0) msg" and ?r = "resolve (sr_config sv) msg"
  obtain p where p: "authenticate (sr_token sv) token = Inr p" using True tok.accepted by blast
  obtain res s1 where o: "open_session se clock (sr_manager sv) ?r ?m (gw_sess g) = (res, s1)" by fastforce
  show ?thesis
  proof (cases res)
    case (Inl e)
    with True p o assms show ?thesis by (auto simp: handle_inbound_def Let_def)
  next
    case (Inr v)
    obtain eo hist summary where v: "v = (eo, hist, summary)" by (cases v) auto
    obtain evts rt' f' x' where run: "agent_run en (request_for ?r ?m hist summary) (gw_runtime g)
        (ss_fs s1, gw_rest g) = (evts, rt', (f', x'))" by (metis prod_cases4)
    obtain s2 x2 where d: "deliver_events sv se clock 6 eo ?m (rt_session ?r) evts (s1\<lparr>ss_fs := f'\<rparr>) x'
        = (r, seen, sent, s2, x2)"
      using True p o Inr v run assms by (auto simp: handle_inbound_def Let_def split: prod.splits)
    have ev: "run_events (run_id en (request_for ?r ?m hist summary)) (rt_session ?r) evts"
      using agent_run_events [of en "request_for ?r ?m hist summary" "gw_runtime g" "(ss_fs s1, gw_rest g)"] run
      by (simp add: request_for_def)
    have "run_id en (request_for ?r ?m hist summary) = run_id en (request_for ?r ?m [] [])"
      by (simp add: run_id_def request_for_def)
    moreover have "run_id en (request_for ?r ?m [] []) = run_id en (request_for ?r msg [] [])"
      by (simp add: run_id_def request_for_def stamp_def)
    moreover note deliver_prefix [OF d]
    moreover have "set sent \<subseteq> set (replies ?m (rt_session ?r) evts)"
      using deliver_prefix [OF d] set_mono_prefix by blast
    moreover from this have "\<forall>out \<in> set sent. om_channel out = im_channel msg \<and> om_account out = im_account msg
         \<and> om_target out = im_peer msg \<and> om_thread out = im_thread msg \<and> om_session out = rt_session ?r"
      using replies_origin [of _ ?m "rt_session ?r" evts] by (auto simp: stamp_def split: if_splits)
    moreover have "prefix (map om_text sent) (texts_of evts)" "r = None \<longrightarrow> map om_text sent = texts_of evts"
      using deliver_prefix [OF d] map_mono_prefix [of sent "replies ?m (rt_session ?r) evts" om_text]
      by (auto simp: texts_replies)
    ultimately show ?thesis using ev True by auto
  qed
qed


definition demo_env :: run_env where
  "demo_env = \<lparr>en_now = GTime 7, en_rfc = ''now'', en_cancel = (\<lambda>_. False), en_letters = (\<lambda>_. False),
     en_show = (\<lambda>_. ''map[]''), en_marshal = (\<lambda>_. Inr ''{}''), en_args = (\<lambda>_. Inr []),
     en_enc_state = (\<lambda>_. Inl ''none''), en_dec_state = (\<lambda>_. Inl ''none'')\<rparr>"

definition demo_runtime :: "(unit, unit) runtime" where
  "demo_runtime = \<lparr>ru_tools = [], ru_policy = \<lparr>po_allow = [], po_deny = []\<rparr>, ru_mcp = None, ru_memory = None,
     ru_identity = \<lparr>id_name = ''Nix'', id_avatar = [], id_emoji = []\<rparr>, ru_soul = [], ru_workspace = [],
     ru_bootstrap = None, ru_profile = None, ru_skills = None, ru_model = None, ru_scope = [], ru_mode = [],
     ru_auto = False\<rparr>"

definition demo_gate_server :: "unit server" where
  "demo_gate_server = \<lparr>sr_token = ''secret'', sr_config = sample_config, sr_send = (\<lambda>_ x. (None, x)),
     sr_manager = None, sr_workspace = ''w''\<rparr>"

definition demo_session_env :: "mem_store session_env" where
  "demo_session_env = \<lparr>se_ops = mem_ops, se_enc = (\<lambda>_. Inl ''none''), se_dec = (\<lambda>_. None)\<rparr>"

definition demo_gateway :: "(unit, mem_store, unit) gateway" where
  "demo_gateway = \<lparr>gw_runtime = demo_runtime, gw_sess = \<lparr>ss_store = [], ss_fs = plain_fs []\<rparr>, gw_rest = ()\<rparr>"

definition demo_inbound :: inbound where
  "demo_inbound = \<lparr>im_channel = ''Telegram'', im_account = [], im_peer = ''42'', im_peer_type = ''direct'',
     im_user = ''u'', im_text = ''hello'', im_thread = ''t'', im_run = ''r1'', im_at = GTime 3\<rparr>"

definition demo_handled where
  "demo_handled = handle_inbound demo_gate_server demo_env demo_session_env (\<lambda>_. GTime 5) ''secret'' demo_inbound demo_gateway"

definition demo_reply :: agent_event where
  "demo_reply = final_event ''r1'' ''agent:support:telegram:default:dm:42'' ''Nix: hello''"

lemma demo_run:
  "fst (agent_run demo_env (request_for (resolve sample_config demo_inbound) demo_inbound [] []) demo_runtime
     (plain_fs [], ())) = [demo_reply]"
  by code_simp

lemma demo_handled_eq:
  "fst demo_handled = (None, [demo_reply],
     [reply_to demo_inbound (rt_session (resolve sample_config demo_inbound)) ''Nix: hello''])"
proof -
  obtain rt' f' x' where run: "agent_run demo_env (request_for (resolve sample_config demo_inbound) demo_inbound [] [])
      demo_runtime (plain_fs [], ()) = ([demo_reply], rt', (f', x'))"
    using demo_run by (metis fst_conv prod.exhaust)
  have "authenticate ''secret'' ''secret'' = Inr \<lparr>pr_id = ''operator'', pr_role = ''operator'',
      pr_scopes = [''operator.admin'']\<rparr>" by (simp add: authenticate_def)
  moreover have "stamp (GTime 5) demo_inbound = demo_inbound" by code_simp
  ultimately show ?thesis using run
    by (simp add: demo_handled_def handle_inbound_def demo_gate_server_def demo_gateway_def open_session_def
        record_event_def demo_reply_def Let_def)
      (simp add: demo_inbound_def)
qed


end
