(* ===== verification/Conversation.thy ===== *)
theory Conversation
  imports Gateway
begin

text \<open>
  The gateway and the session manager together: what a handled message leaves in the conversation
  of its session. The steps are proved for any store that keeps the contract of \<open>SessionStore\<close> and
  used on the daemon's file store.
\<close>

section \<open>A session in step with its transcript\<close>

definition in_step ::
    "'s store_ops \<Rightarrow> ('s \<Rightarrow> string set) \<Rightarrow> (string \<Rightarrow> msg_rec option) \<Rightarrow> manager \<Rightarrow> entry \<Rightarrow> ctx_msg list
      \<Rightarrow> 's sess \<Rightarrow> bool" where
  "in_step ops owned dec m e texts s \<longleftrightarrow>
     transcript_path m e \<notin> owned (ss_store s)
     \<and> (\<exists>e0. st_get ops (ss_store s) (en_key e) = Some e0 \<and> en_id e0 = en_id e \<and> en_key e0 = en_key e
          \<and> en_agent e0 = en_agent e \<and> synced dec m (ss_fs s) e0 \<and> context_texts dec e0 (transcript m (ss_fs s) e0) = texts)"

text \<open>The messages the events of a run add, and the records they are written as.\<close>

definition said :: "inbound \<Rightarrow> agent_event list \<Rightarrow> ctx_msg list" where
  "said msg evts = concat (map (\<lambda>v. if ev_text v = [] then [] else new_texts ''assistant'' (ev_text v)
     (event_opts msg v)) evts)"

definition encodable ::
    "(msg_rec \<Rightarrow> go_error + string) \<Rightarrow> (string \<Rightarrow> msg_rec option) \<Rightarrow> (nat \<Rightarrow> gtime) \<Rightarrow> entry \<Rightarrow> inbound
      \<Rightarrow> agent_event list \<Rightarrow> bool" where
  "encodable enc dec clock e msg evts \<longleftrightarrow>
     (\<forall>i. codec_ok enc dec (new_record (clock i) e ''user'' (im_text msg) (input_opts msg)))
     \<and> (\<forall>i. \<forall>v \<in> set evts. ev_text v \<noteq> [] \<longrightarrow>
          codec_ok enc dec (new_record (clock i) e ''assistant'' (ev_text v) (event_opts msg v)))"

lemma transcript_cong:
  "en_id e' = en_id e \<Longrightarrow> transcript_path m e' = transcript_path m e"
  "transcript_path m e' = transcript_path m e \<Longrightarrow>
     file_text f' (transcript_path m e) = file_text f (transcript_path m e) \<Longrightarrow> transcript m f' e' = transcript m f e"
  by (simp_all add: transcript_path_def transcript_def)

lemma in_step_files:
  assumes "in_step ops owned dec m e texts s" "ss_store s' = ss_store s"
    and "file_text (ss_fs s') (transcript_path m e) = file_text (ss_fs s) (transcript_path m e)"
  shows "in_step ops owned dec m e texts s'"
proof -
  from assms(1) obtain e0 where e0: "st_get ops (ss_store s) (en_key e) = Some e0" "en_id e0 = en_id e"
      "en_key e0 = en_key e" "en_agent e0 = en_agent e" "synced dec m (ss_fs s) e0"
      "context_texts dec e0 (transcript m (ss_fs s) e0) = texts"
    by (auto simp: in_step_def)
  have p: "transcript_path m e0 = transcript_path m e" using e0(2) by (rule transcript_cong)
  then have "synced dec m (ss_fs s') e0" "transcript m (ss_fs s') e0 = transcript m (ss_fs s) e0"
    using e0(5) assms(3) synced_cong [of e0 e0 "ss_fs s'" m "ss_fs s" dec] by (auto simp: transcript_def)
  with assms(1,2) e0 show ?thesis by (auto simp: in_step_def)
qed

context session_store
begin

lemma append_frame:
  assumes "in_step ops owned dec m e texts s" "append_with_options ops enc dec now now' m e role text o' s = (None, s')"
  shows "owned (ss_store s') = owned (ss_store s)"
    and "st_get ops (ss_store s') (en_key e) = Some e1 \<Longrightarrow> en_key e1 = en_key e \<and> en_agent e1 = en_agent e"
proof -
  from assms(1) obtain e0 where e0: "st_get ops (ss_store s) (en_key e) = Some e0" "context_fresh m e0" "en_key e0 = en_key e"
      "en_agent e0 = en_agent e"
    by (auto simp: in_step_def synced_def)
  have u: "update_context ops dec now' m e role text x
      = st_put ops now' ((apply_context_message (mg_budget m) role text e0)\<lparr>en_updated := now'\<rparr>) x"
    if "ss_store x = ss_store s" for x
    using e0 that by (simp add: update_context_def ensure_fresh)
  from assms(2) consider "ss_store s' = ss_store s"
    | f where "st_put ops now' ((apply_context_message (mg_budget m) role text e0)\<lparr>en_updated := now'\<rparr>) (s\<lparr>ss_fs := f\<rparr>)
        = (None, s')"
    by (auto simp: append_with_options_def u split: prod.splits option.splits if_splits)
  then have "owned (ss_store s') = owned (ss_store s)
      \<and> (st_get ops (ss_store s') (en_key e) = Some e1 \<longrightarrow> en_key e1 = en_key e \<and> en_agent e1 = en_agent e)"
  proof cases
    case 1
    with e0 show ?thesis by auto
  next
    case 2
    from put_owned [OF 2] get_put [OF 2, of "en_key e"] e0(3,4) show ?thesis by (auto simp: apply_frame)
  qed
  then show "owned (ss_store s') = owned (ss_store s)"
    and "st_get ops (ss_store s') (en_key e) = Some e1 \<Longrightarrow> en_key e1 = en_key e \<and> en_agent e1 = en_agent e" by blast+
qed

lemma append_in_step:
  assumes "in_step ops owned dec m e texts s" "budget_ok (mg_budget m)"
    and "codec_ok enc dec (new_record now e role text o')"
    and "append_with_options ops enc dec now now' m e role text o' s = (None, s')"
  shows "in_step ops owned dec m e (texts @ new_texts role text o') s'"
proof (cases "trim_space text = [] \<and> ao_tool o' = None \<and> ao_usage o' = None \<and> ao_meta o' = []")
  case True
  then have "new_texts role text o' = []" by (simp add: new_texts_def is_context_message_def)
  with True assms(1,4) show ?thesis by (simp add: append_with_options_def)
next
  case False
  from assms(1) obtain e0 where e0: "st_get ops (ss_store s) (en_key e) = Some e0" "en_id e0 = en_id e"
      "en_key e0 = en_key e" "synced dec m (ss_fs s) e0" "transcript_path m e \<notin> owned (ss_store s)"
    and t: "context_texts dec e0 (transcript m (ss_fs s) e0) = texts"
    by (auto simp: in_step_def)
  obtain e1 where e1: "st_get ops (ss_store s') (en_key e) = Some e1" "synced dec m (ss_fs s') e1" "en_id e1 = en_id e"
      "context_texts dec e1 (transcript m (ss_fs s') e1) = texts @ new_texts role text o'"
    using append_synced [OF e0(1-4) assms(2) e0(5) assms(3,4) False] t by blast
  have "en_key e1 = en_key e \<and> en_agent e1 = en_agent e" by (rule append_frame(2) [OF assms(1,4) e1(1)])
  with e1 e0(5) append_frame(1) [OF assms(1,4)] show ?thesis by (auto simp: in_step_def)
qed

lemma said_Cons:
  "said msg (v # evts) = (if ev_text v = [] then [] else new_texts ''assistant'' (ev_text v) (event_opts msg v)) @ said msg evts"
  by (simp add: said_def)

text \<open>Every text of the run is recorded before the next event is looked at.\<close>

lemma deliver_in_step:
  assumes "se_ops se = ops" "sr_manager sv = Some m" "budget_ok (mg_budget m)"
  shows "deliver_events sv se clock i (Some e) msg key evts s x = (None, seen, sent, s', x') \<Longrightarrow>
    in_step ops owned (se_dec se) m e texts s \<Longrightarrow> encodable (se_enc se) (se_dec se) clock e msg evts \<Longrightarrow>
    in_step ops owned (se_dec se) m e (texts @ said msg evts) s'"
proof (induction evts arbitrary: i s x seen sent texts)
  case Nil
  then show ?case by (simp add: said_def)
next
  case (Cons v evts)
  have enc: "encodable (se_enc se) (se_dec se) clock e msg evts"
    using Cons.prems(3) by (auto simp: encodable_def)
  have ok: "ev_err v = None" using Cons.prems(1) by (auto split: option.splits)
  show ?case
  proof (cases "ev_text v = []")
    case True
    then obtain seen' where "deliver_events sv se clock i (Some e) msg key evts s x = (None, seen', sent, s', x')"
      using Cons.prems(1) ok by (auto split: prod.splits)
    from Cons.IH [OF this Cons.prems(2) enc] True show ?thesis by (simp add: said_Cons)
  next
    case False
    obtain x1 where 1: "sr_send sv (reply_to msg key (ev_text v)) x = (None, x1)"
      using Cons.prems(1) ok False by (auto split: prod.splits option.splits)
    obtain s1 where 2: "record_event se (clock i) (clock (i + 1)) (sr_manager sv) (Some e) msg v s = (None, s1)"
      using Cons.prems(1) ok False 1 by (auto split: prod.splits option.splits)
    obtain seen' sent' where 3: "deliver_events sv se clock (i + 2) (Some e) msg key evts s1 x1 = (None, seen', sent', s', x')"
      using Cons.prems(1) ok False 1 2 by (auto split: prod.splits)
    have "append_with_options ops (se_enc se) (se_dec se) (clock i) (clock (i + 1)) m e ''assistant'' (ev_text v)
        (event_opts msg v) s = (None, s1)"
      using 2 assms(1,2) by (simp add: record_event_def)
    moreover have "codec_ok (se_enc se) (se_dec se) (new_record (clock i) e ''assistant'' (ev_text v) (event_opts msg v))"
      using Cons.prems(3) False by (auto simp: encodable_def)
    ultimately have "in_step ops owned (se_dec se) m e
        (texts @ new_texts ''assistant'' (ev_text v) (event_opts msg v)) s1"
      using append_in_step [OF Cons.prems(2) assms(3)] by blast
    from Cons.IH [OF 3 this enc] False show ?thesis by (simp add: said_Cons)
  qed
qed

text \<open>The steps before the run: \<open>Touch\<close> and \<open>ModelContext\<close> leave the conversation as it is.\<close>

lemma in_step_same:
  "en_id e' = en_id e \<Longrightarrow> en_key e' = en_key e \<Longrightarrow> en_agent e' = en_agent e \<Longrightarrow>
     in_step ops owned dec m e' texts s = in_step ops owned dec m e texts s"
  by (simp add: in_step_def transcript_path_def)

lemma touch_in_step:
  assumes "in_step ops owned dec m e0 texts s" "touch ops now now' m (en_key e0) agent s = (Inr e, s')"
  shows "en_id e = en_id e0 \<and> en_key e = en_key e0 \<and> en_agent e = en_agent e0
    \<and> in_step ops owned dec m e0 texts s'"
proof -
  from assms(1) obtain e1 where e1: "st_get ops (ss_store s) (en_key e0) = Some e1" "en_id e1 = en_id e0"
      "en_key e1 = en_key e0" "en_agent e1 = en_agent e0" "synced dec m (ss_fs s) e1"
      "context_texts dec e1 (transcript m (ss_fs s) e1) = texts"
    and free: "transcript_path m e0 \<notin> owned (ss_store s)" by (auto simp: in_step_def)
  from assms(2) e1(1) have e: "e = e1\<lparr>en_updated := now\<rparr>" and put: "st_put ops now' e s = (None, s')"
    by (auto simp: touch_def Let_def split: prod.splits option.splits)
  have path: "transcript_path m e = transcript_path m e1" "transcript_path m e1 = transcript_path m e0"
    using e1(2) e by (simp_all add: transcript_path_def)
  have files: "file_text (ss_fs s') (transcript_path m e1) = file_text (ss_fs s) (transcript_path m e1)"
    using put_files [OF put] free path(2) by simp
  have "synced dec m (ss_fs s') e"
    using e1(5) synced_cong [of e e1 "ss_fs s'" m "ss_fs s" dec] files e by simp
  moreover have "context_texts dec e (transcript m (ss_fs s') e) = texts"
    using e1(6) transcript_cong(2) [OF path(1) files] context_texts_entry [of dec e _ e1] by simp
  ultimately show ?thesis
    using get_put_same [OF put] put_owned [OF put] e1(2-4) e free by (auto simp: in_step_def)
qed

lemma context_in_step:
  assumes "in_step ops owned dec m e0 texts s" "model_context ops dec now m (en_key e0) s = (Inr v, s')"
  shows "s' = s"
proof -
  from assms(1) obtain e1 where "st_get ops (ss_store s) (en_key e0) = Some e1" "context_fresh m e1"
    by (auto simp: in_step_def synced_def)
  with assms(2) show ?thesis by (simp add: model_context_def ensure_fresh)
qed

text \<open>Opening a session that is in step leaves it in step, with the message of the user added.\<close>

lemma open_in_step:
  assumes "se_ops se = ops" "budget_ok (mg_budget m)"
    and "in_step ops owned (se_dec se) m e0 texts s" "en_key e0 = rt_session route"
    and "encodable (se_enc se) (se_dec se) clock e0 msg []"
    and "open_session se clock (Some m) route msg s = (Inr v, s')"
  shows "\<exists>e hist summary. v = (Some e, hist, summary) \<and> en_id e = en_id e0 \<and> en_key e = en_key e0 \<and> en_agent e = en_agent e0
    \<and> in_step ops owned (se_dec se) m e (texts @ new_texts ''user'' (im_text msg) (input_opts msg)) s'"
proof -
  from assms(6,1) obtain e s1 hist summary s2 where
    t: "touch ops (clock 1) (clock 2) m (en_key e0) (rt_agent route) s = (Inr e, s1)"
    and c: "model_context ops (se_dec se) (clock 3) m (en_key e0) s1 = (Inr (hist, summary), s2)"
    and a: "append_with_options ops (se_enc se) (se_dec se) (clock 4) (clock 5) m e ''user'' (im_text msg)
        (input_opts msg) s2 = (None, s')"
    and v: "v = (Some e, hist, summary)"
    by (auto simp: open_session_def assms(4) split: prod.splits sum.splits option.splits)
  from touch_in_step [OF assms(3) t] have e: "en_id e = en_id e0" "en_key e = en_key e0" "en_agent e = en_agent e0"
    and st: "in_step ops owned (se_dec se) m e0 texts s1" by blast+
  have "in_step ops owned (se_dec se) m e texts s2"
    using context_in_step [OF st c] st in_step_same [OF e] by simp
  moreover have "codec_ok (se_enc se) (se_dec se) (new_record (clock 4) e ''user'' (im_text msg) (input_opts msg))"
    using assms(5) e by (simp add: encodable_def new_record_def)
  ultimately have "in_step ops owned (se_dec se) m e (texts @ new_texts ''user'' (im_text msg) (input_opts msg)) s'"
    using append_in_step assms(2) a by blast
  with v e show ?thesis by blast
qed

end

section \<open>What a handled message leaves behind\<close>

lemma in_step_entry:
  assumes "in_step ops owned dec m e texts s" "en_key e = key"
  obtains e1 where "st_get ops (ss_store s) key = Some e1" "synced dec m (ss_fs s) e1" "en_id e1 = en_id e"
    "context_texts dec e1 (transcript m (ss_fs s) e1) = texts"
  using assms by (auto simp: in_step_def)

text \<open>The steps of a message that is handled without an error.\<close>

lemma handled_steps:
  assumes "handle_inbound sv en se clock token msg g = ((None, seen, sent), g')" "sr_manager sv = Some m"
  obtains e hist summary s1 rt' f' x' x2 where
    "open_session se clock (Some m) (resolve (sr_config sv) msg) (stamp (clock 0) msg) (gw_sess g)
       = (Inr (Some e, hist, summary), s1)"
    "agent_run en (request_for (resolve (sr_config sv) msg) (stamp (clock 0) msg) hist summary) (gw_runtime g)
       (ss_fs s1, gw_rest g) = (seen, rt', (f', x'))"
    "deliver_events sv se clock 6 (Some e) (stamp (clock 0) msg) (rt_session (resolve (sr_config sv) msg)) seen
       (s1\<lparr>ss_fs := f'\<rparr>) x' = (None, seen, sent, gw_sess g', x2)"
proof -
  let ?m = "stamp (clock 0) msg" and ?r = "resolve (sr_config sv) msg"
  have "resolve (sr_config sv) ?m = ?r" by simp
  then obtain v s1 where o: "open_session se clock (Some m) ?r ?m (gw_sess g) = (Inr v, s1)"
    using assms by (auto simp: handle_inbound_def Let_def split: sum.splits prod.splits if_splits)
  then obtain e hist summary where v: "v = (Some e, hist, summary)"
    by (auto simp: open_session_def split: prod.splits sum.splits option.splits)
  obtain evts rt' f' x' where run: "agent_run en (request_for ?r ?m hist summary) (gw_runtime g)
      (ss_fs s1, gw_rest g) = (evts, rt', (f', x'))" by (metis prod_cases4)
  obtain s2 x2 where d: "deliver_events sv se clock 6 (Some e) ?m (rt_session ?r) evts (s1\<lparr>ss_fs := f'\<rparr>) x'
      = (None, seen, sent, s2, x2)" and g': "gw_sess g' = s2"
    using assms o v run by (auto simp: handle_inbound_def Let_def split: if_splits prod.splits sum.splits)
  have "seen = evts" using deliver_prefix [OF d] by blast
  with that o v run d g' show thesis by blast
qed

lemma conversation_kept:
  assumes "handle_inbound sv en se clock token msg g = ((None, seen, sent), g')"
    and "se_ops se = file_ops encs" "sr_manager sv = Some m" "budget_ok (mg_budget m)"
    and "st_get (file_ops encs) (ss_store (gw_sess g)) (rt_session (resolve (sr_config sv) msg)) = Some e0"
    and "en_key e0 = rt_session (resolve (sr_config sv) msg)" "synced (se_dec se) m (ss_fs (gw_sess g)) e0"
    and "transcript_path m e0 \<notin> store_files (ss_store (gw_sess g))"
    and "\<forall>rq f x. file_text (fst (snd (snd (agent_run en rq (gw_runtime g) (f, x))))) (transcript_path m e0)
           = file_text f (transcript_path m e0)"
    and "encodable (se_enc se) (se_dec se) clock e0 (stamp (clock 0) msg) seen"
  shows "\<exists>e1. st_get (file_ops encs) (ss_store (gw_sess g')) (rt_session (resolve (sr_config sv) msg)) = Some e1
    \<and> synced (se_dec se) m (ss_fs (gw_sess g')) e1 \<and> en_id e1 = en_id e0
    \<and> context_texts (se_dec se) e1 (transcript m (ss_fs (gw_sess g')) e1)
        = context_texts (se_dec se) e0 (transcript m (ss_fs (gw_sess g)) e0)
          @ new_texts ''user'' (im_text msg) (input_opts (stamp (clock 0) msg)) @ said (stamp (clock 0) msg) seen"
proof -
  let ?m = "stamp (clock 0) msg" and ?r = "resolve (sr_config sv) msg"
  let ?t = "context_texts (se_dec se) e0 (transcript m (ss_fs (gw_sess g)) e0)"
  let ?u = "new_texts ''user'' (im_text msg) (input_opts ?m)"
  have tx: "im_text ?m = im_text msg" by (simp add: stamp_def)
  obtain e hist summary s1 rt' f' x' x2 where
    o: "open_session se clock (Some m) ?r ?m (gw_sess g) = (Inr (Some e, hist, summary), s1)"
    and run: "agent_run en (request_for ?r ?m hist summary) (gw_runtime g) (ss_fs s1, gw_rest g) = (seen, rt', (f', x'))"
    and d: "deliver_events sv se clock 6 (Some e) ?m (rt_session ?r) seen (s1\<lparr>ss_fs := f'\<rparr>) x'
      = (None, seen, sent, gw_sess g', x2)"
    by (rule handled_steps [OF assms(1,3)])
  have "in_step (file_ops encs) store_files (se_dec se) m e0 ?t (gw_sess g)"
    using assms(5-8) by (simp add: in_step_def)
  from fst.open_in_step [OF assms(2,4) this assms(6) _ o] assms(10) tx
  have e: "en_id e = en_id e0" "en_key e = en_key e0" "en_agent e = en_agent e0"
    and st: "in_step (file_ops encs) store_files (se_dec se) m e (?t @ ?u) s1"
    by (auto simp: encodable_def)
  have enc: "encodable (se_enc se) (se_dec se) clock e ?m seen"
    using assms(10) e by (simp add: encodable_def new_record_def)
  have "transcript_path m e = transcript_path m e0" using e(1) by (rule transcript_cong)
  then have "file_text f' (transcript_path m e) = file_text (ss_fs s1) (transcript_path m e)"
    using assms(9) run by (metis fst_conv snd_conv)
  then have "in_step (file_ops encs) store_files (se_dec se) m e (?t @ ?u) (s1\<lparr>ss_fs := f'\<rparr>)"
    by (intro in_step_files [OF st]) simp_all
  from fst.deliver_in_step [OF assms(2,3,4) d this enc]
  have fin: "in_step (file_ops encs) store_files (se_dec se) m e ((?t @ ?u) @ said ?m seen) (gw_sess g')" .
  have "en_key e = rt_session ?r" using e(2) assms(6) by simp
  from in_step_entry [OF fin this] e(1) show ?thesis by (metis append_assoc)
qed

text \<open>
  C1: a handled message and its replies are remembered, in order. If the session of a message is in
  step with its transcript, the run does not touch that transcript, and the gateway returns no
  error, then afterwards the session is in step again and its conversation is the one before,
  then the message of the user, then every reply the observer saw, as the next model
  call and the next start of the daemon will read it.
\<close>

theorem conversation_recorded:
  assumes "handle_inbound sv en se clock token msg g = ((None, seen, sent), g')"
    and "se_ops se = file_ops encs" "sr_manager sv = Some m" "budget_ok (mg_budget m)"
    and "st_get (file_ops encs) (ss_store (gw_sess g)) (rt_session (resolve (sr_config sv) msg)) = Some e0"
    and "en_key e0 = rt_session (resolve (sr_config sv) msg)" "synced (se_dec se) m (ss_fs (gw_sess g)) e0"
    and "transcript_path m e0 \<notin> store_files (ss_store (gw_sess g))"
    and "\<forall>rq f x. file_text (fst (snd (snd (agent_run en rq (gw_runtime g) (f, x))))) (transcript_path m e0)
           = file_text f (transcript_path m e0)"
    and "encodable (se_enc se) (se_dec se) clock e0 (stamp (clock 0) msg) seen"
  shows "\<exists>e1. st_get (file_ops encs) (ss_store (gw_sess g')) (rt_session (resolve (sr_config sv) msg)) = Some e1
    \<and> synced (se_dec se) m (ss_fs (gw_sess g')) e1 \<and> en_id e1 = en_id e0
    \<and> context_texts (se_dec se) e1 (transcript m (ss_fs (gw_sess g')) e1)
        = context_texts (se_dec se) e0 (transcript m (ss_fs (gw_sess g)) e0)
          @ new_texts ''user'' (im_text msg) (input_opts (stamp (clock 0) msg)) @ said (stamp (clock 0) msg) seen"
  using assms by (rule conversation_kept)

section \<open>A conversation\<close>

lemma quiet_run:
  assumes "ru_profile rt = None" "ru_bootstrap rt = None" "ru_tools rt = []" "ru_model rt = None" "ru_skills rt = None"
  shows "snd (snd (agent_run en rq rt w)) = w"
  using assms
  by (auto simp: agent_run_def handle_command_def run_command_def on_profile_def on_bootstrap_def list_skills_def
      proposal_stage_def skill_stage_def direct_call_def reg_execute_def reg_get_def answer_stage_def Let_def
      split: prod.splits option.splits command.splits if_splits)

lemma quiet_events:
  assumes "ru_profile rt = None" "ru_bootstrap rt = None" "ru_tools rt = []" "ru_model rt = None" "ru_skills rt = None"
    "ru_memory rt = None"
  shows "fst (agent_run en rq rt (f, x)) = fst (agent_run en rq rt (f', x'))"
proof -
  have c: "map_option fst (handle_command en s t rt f) = map_option fst (handle_command en s t rt f')" for s t
    using assms by (auto simp: handle_command_def run_command_def on_profile_def on_bootstrap_def list_skills_def
      Let_def option.map_comp o_def split: command.splits intro!: option.map_cong0)
  have d: "gather_context rt f p t k = gather_context rt f' p t k" for p t k
    using assms by (simp add: gather_context_def)
  show ?thesis
    using c [of "rq_session rq" "trim_space (im_text (rq_message rq))"] assms d
    by (auto simp: agent_run_def proposal_stage_def skill_stage_def direct_call_def reg_execute_def reg_get_def
        answer_stage_def Let_def split: option.splits prod.splits)
qed
definition talk_key :: string where "talk_key = ''agent:support:telegram:default:dm:42''"

definition talk_entry :: entry where "talk_entry = demo_entry\<lparr>en_key := talk_key\<rparr>"

definition talk_asked :: msg_rec where
  "talk_asked = new_record (GTime 5) talk_entry ''user'' ''hello'' (input_opts demo_inbound)"

definition talk_answered :: msg_rec where
  "talk_answered = new_record (GTime 5) talk_entry ''assistant'' ''Nix: hello'' (event_opts demo_inbound demo_reply)"

definition talk_env :: "file_store session_env" where
  "talk_env = \<lparr>se_ops = demo_ops,
     se_enc = (\<lambda>r. if r = talk_asked then Inr ''q'' else if r = talk_answered then Inr ''a'' else Inl ''unsupported''),
     se_dec = (\<lambda>b. if b = ''q'' then Some talk_asked else if b = ''a'' then Some talk_answered else None)\<rparr>"

definition talk_server :: "unit server" where
  "talk_server = demo_gate_server\<lparr>sr_manager := Some demo_manager\<rparr>"

definition talk_gateway :: "(unit, file_store, unit) gateway" where
  "talk_gateway = \<lparr>gw_runtime = demo_runtime, gw_sess = \<lparr>ss_store = \<lparr>fl_path = ''s/db'', fl_data = [(talk_key, talk_entry)]\<rparr>,
     ss_fs = plain_fs []\<rparr>, gw_rest = ()\<rparr>"

definition talk_open where
  "talk_open = open_session talk_env (\<lambda>_. GTime 5) (Some demo_manager) (resolve sample_config demo_inbound) demo_inbound
     (gw_sess talk_gateway)"

abbreviation talk_touched :: entry where "talk_touched \<equiv> talk_entry\<lparr>en_updated := GTime 5\<rparr>"

lemma talk_open_ok: "fst talk_open = Inr (Some talk_touched, [], [])"
  by code_simp

definition talk_delivered where
  "talk_delivered = deliver_events talk_server talk_env (\<lambda>_. GTime 5) 6 (Some talk_touched) demo_inbound talk_key
     [demo_reply] (snd talk_open) ()"

lemma talk_delivered_ok: "fst talk_delivered = None"
  by code_simp

lemma talk_codec: "encodable (se_enc talk_env) (se_dec talk_env) (\<lambda>_. GTime 5) talk_entry demo_inbound [demo_reply]"
proof -
  have "talk_asked \<noteq> talk_answered" by (simp add: talk_asked_def talk_answered_def new_record_def)
  moreover have "trim_space ''q'' = ''q''" "trim_space ''a'' = ''a''" by code_simp+
  moreover have "im_text demo_inbound = ''hello''" "ev_text demo_reply = ''Nix: hello''"
    by (simp_all add: demo_inbound_def demo_reply_def)
  ultimately show ?thesis
    by (simp add: encodable_def codec_ok_def talk_env_def flip: talk_asked_def talk_answered_def)
qed

lemma talk_synced: "synced (se_dec talk_env) demo_manager (plain_fs []) talk_entry"
  by code_simp
lemma talk_key_eq: "rt_session (resolve sample_config demo_inbound) = talk_key"
  by code_simp

lemma talk_steps:
  assumes o: "open_session se (\<lambda>_. GTime 5) (Some demo_manager) (resolve sample_config demo_inbound) demo_inbound
      (gw_sess talk_gateway) = (Inr (Some e, [], []), s1)"
    and d: "deliver_events talk_server se (\<lambda>_. GTime 5) 6 (Some e) demo_inbound talk_key [demo_reply] s1 ()
      = (None, seen, sent, s2, x2)"
  shows "\<exists>g'. handle_inbound talk_server demo_env se (\<lambda>_. GTime 5) ''secret'' demo_inbound talk_gateway
    = ((None, [demo_reply], sent), g') \<and> gw_sess g' = s2"
proof -
  let ?rq = "request_for (resolve sample_config demo_inbound) demo_inbound [] []"
  have "fst (agent_run demo_env ?rq demo_runtime (ss_fs s1, ())) = [demo_reply]"
    using demo_run quiet_events [of demo_runtime demo_env ?rq "ss_fs s1" "()" "plain_fs []" "()"]
    by (simp add: demo_runtime_def)
  moreover have "snd (snd (agent_run demo_env ?rq demo_runtime (ss_fs s1, ()))) = (ss_fs s1, ())"
    by (rule quiet_run) (simp_all add: demo_runtime_def)
  ultimately obtain rt' where run: "agent_run demo_env ?rq demo_runtime (ss_fs s1, ()) = ([demo_reply], rt', (ss_fs s1, ()))"
    by (metis prod.collapse)
  have same: "s1\<lparr>ss_fs := ss_fs s1\<rparr> = s1" by simp
  have "seen = [demo_reply]" using deliver_prefix [OF d] by blast
  moreover have "authenticate (sr_token talk_server) ''secret'' = Inr \<lparr>pr_id = ''operator'', pr_role = ''operator'',
      pr_scopes = [''operator.admin'']\<rparr>"
    by (simp add: authenticate_def talk_server_def demo_gate_server_def)
  moreover have "stamp (GTime 5) demo_inbound = demo_inbound" "im_channel demo_inbound \<noteq> []" "im_peer demo_inbound \<noteq> []"
    by code_simp+
  moreover have "sr_config talk_server = sample_config" "sr_manager talk_server = Some demo_manager"
    "gw_runtime talk_gateway = demo_runtime" "gw_rest talk_gateway = ()"
    by (simp_all add: talk_server_def demo_gate_server_def talk_gateway_def)
  ultimately show ?thesis
    using o run d same by (simp add: handle_inbound_def talk_key_eq del: deliver_events.simps)
qed

lemma talk_handled:
  obtains sent g' where "handle_inbound talk_server demo_env talk_env (\<lambda>_. GTime 5) ''secret'' demo_inbound talk_gateway
    = ((None, [demo_reply], sent), g')"
proof -
  obtain s1 where o: "open_session talk_env (\<lambda>_. GTime 5) (Some demo_manager) (resolve sample_config demo_inbound)
      demo_inbound (gw_sess talk_gateway) = (Inr (Some talk_touched, [], []), s1)" and s1: "snd talk_open = s1"
    using talk_open_ok by (metis prod.collapse talk_open_def)
  obtain r seen sent s2 x2 where d: "deliver_events talk_server talk_env (\<lambda>_. GTime 5) 6 (Some talk_touched)
      demo_inbound talk_key [demo_reply] s1 () = (r, seen, sent, s2, x2)"
    using prod_cases5 by blast
  have "r = None" using talk_delivered_ok d by (simp add: talk_delivered_def s1)
  with talk_steps [OF o] d that show thesis by blast
qed

theorem conversation_recorded_witness:
  "\<exists>sent g' e1. handle_inbound talk_server demo_env talk_env (\<lambda>_. GTime 5) ''secret'' demo_inbound talk_gateway
       = ((None, [demo_reply], sent), g')
     \<and> map cx_text (context_texts (se_dec talk_env) e1 (transcript demo_manager (ss_fs (gw_sess g')) e1))
       = [''hello'', ''Nix: hello'']"
proof -
  obtain sent g' where h: "handle_inbound talk_server demo_env talk_env (\<lambda>_. GTime 5) ''secret'' demo_inbound talk_gateway
      = ((None, [demo_reply], sent), g')"
    by (rule talk_handled)
  have c: "sr_config talk_server = sample_config" by (simp add: talk_server_def demo_gate_server_def)
  have st: "stamp (GTime 5) demo_inbound = demo_inbound" by code_simp
  have ops: "se_ops talk_env = file_ops (\<lambda>_. Inr ''d'')" by (simp add: talk_env_def demo_ops_def)
  have m: "sr_manager talk_server = Some demo_manager" by (simp add: talk_server_def)
  have b: "budget_ok (mg_budget demo_manager)" by code_simp
  have e: "st_get (file_ops (\<lambda>_. Inr ''d'')) (ss_store (gw_sess talk_gateway))
      (rt_session (resolve (sr_config talk_server) demo_inbound)) = Some talk_entry"
    by (simp add: c talk_key_eq talk_gateway_def file_ops_def)
  have k: "en_key talk_entry = rt_session (resolve (sr_config talk_server) demo_inbound)"
    by (simp add: c talk_key_eq talk_entry_def)
  have sy: "synced (se_dec talk_env) demo_manager (ss_fs (gw_sess talk_gateway)) talk_entry"
    using talk_synced by (simp add: talk_gateway_def)
  have free: "transcript_path demo_manager talk_entry \<notin> store_files (ss_store (gw_sess talk_gateway))"
    by code_simp
  have quiet: "\<forall>rq f x. file_text (fst (snd (snd (agent_run demo_env rq (gw_runtime talk_gateway) (f, x)))))
      (transcript_path demo_manager talk_entry) = file_text f (transcript_path demo_manager talk_entry)"
    by (simp add: quiet_run talk_gateway_def demo_runtime_def)
  have enc: "encodable (se_enc talk_env) (se_dec talk_env) (\<lambda>_. GTime 5) talk_entry (stamp (GTime 5) demo_inbound) [demo_reply]"
    using talk_codec st by simp
  have before: "context_texts (se_dec talk_env) talk_entry (transcript demo_manager (ss_fs (gw_sess talk_gateway)) talk_entry) = []"
    by code_simp
  have new: "map cx_text (new_texts ''user'' (im_text demo_inbound) (input_opts demo_inbound) @ said demo_inbound [demo_reply])
      = [''hello'', ''Nix: hello'']" by code_simp
  from conversation_recorded [OF h ops m b e k sy free quiet enc] h before new show ?thesis
    unfolding st by (metis append_Nil)
qed

end
