(* ===== verification/Concurrent.thy ===== *)
theory Concurrent
  imports Conversation
begin

text \<open>
  Several messages of one session handled at the same time: a polling goroutine, HTTP requests and
  WebSocket runs all call \<open>handleInbound\<close>, and only the operations of the session manager are
  protected by its lock. Here every goroutine that handles a message has a phase, its program
  counter in \<open>handleInbound\<close>, and the operations of all of them interleave in any order: each call of
  the manager, each send and each run is one step. Between the steps anything may happen to the
  rest of the daemon, as long as it leaves this session and its transcript alone.
\<close>

section \<open>A goroutine in \<open>handleInbound\<close>\<close>

datatype phase =
    Arrived
  | Opened entry
  | Loaded entry "conv_msg list" string
  | Asked entry "conv_msg list" string
  | Replying entry "agent_event list" "agent_event list"
  | Sent entry "agent_event list" agent_event "agent_event list"
  | Handled entry "agent_event list"
  | Failed go_error entry "agent_event list"
  | Broken go_error

text \<open>
  \<open>Replying e d vs\<close> has recorded the events \<open>d\<close> and has \<open>vs\<close> to go, \<open>Sent e d v vs\<close> has handed \<open>v\<close> to the hub
  and not recorded it yet. \<open>Failed\<close> is an error of the run or of the hub, \<open>Broken\<close> one of the session
  manager. What all goroutines share beside the gateway:
\<close>

record ('s, 'x) hall =
  hl_server :: "'x server"
  hl_env :: "'s session_env"
  hl_manager :: manager
  hl_times :: "gtime \<Rightarrow> bool"
  hl_runs :: "run_env \<Rightarrow> bool"

definition route_of :: "('s, 'x) hall \<Rightarrow> inbound \<Rightarrow> route" where
  "route_of c msg = resolve (sr_config (hl_server c)) msg"

text \<open>The next step of a goroutine, which reads the clock at most twice.\<close>

fun advance ::
    "('s, 'x) hall \<Rightarrow> gtime \<Rightarrow> gtime \<Rightarrow> run_env \<Rightarrow> inbound \<Rightarrow> ('c, 's, 'x) gateway \<Rightarrow> phase
      \<Rightarrow> ('c, 's, 'x) gateway \<times> phase" where
  "advance c now now' en msg g Arrived =
     (case touch (se_ops (hl_env c)) now now' (hl_manager c) (rt_session (route_of c msg))
             (rt_agent (route_of c msg)) (gw_sess g) of
        (Inl t, s) \<Rightarrow> (g\<lparr>gw_sess := s\<rparr>, Broken t)
      | (Inr e, s) \<Rightarrow> (g\<lparr>gw_sess := s\<rparr>, Opened e))"
| "advance c now now' en msg g (Opened e) =
     (case model_context (se_ops (hl_env c)) (se_dec (hl_env c)) now (hl_manager c)
             (rt_session (route_of c msg)) (gw_sess g) of
        (Inl t, s) \<Rightarrow> (g\<lparr>gw_sess := s\<rparr>, Broken t)
      | (Inr (hist, summary), s) \<Rightarrow> (g\<lparr>gw_sess := s\<rparr>, Loaded e hist summary))"
| "advance c now now' en msg g (Loaded e hist summary) =
     (case append_with_options (se_ops (hl_env c)) (se_enc (hl_env c)) (se_dec (hl_env c)) now now'
             (hl_manager c) e ''user'' (im_text msg) (input_opts msg) (gw_sess g) of
        (Some t, s) \<Rightarrow> (g\<lparr>gw_sess := s\<rparr>, Broken t)
      | (None, s) \<Rightarrow> (g\<lparr>gw_sess := s\<rparr>, Asked e hist summary))"
| "advance c now now' en msg g (Asked e hist summary) =
     (case agent_run en (request_for (route_of c msg) msg hist summary) (gw_runtime g)
             (ss_fs (gw_sess g), gw_rest g) of
        (evts, rt, (f, x)) \<Rightarrow>
          (g\<lparr>gw_runtime := rt, gw_sess := (gw_sess g)\<lparr>ss_fs := f\<rparr>, gw_rest := x\<rparr>, Replying e [] evts))"
| "advance c now now' en msg g (Replying e d []) = (g, Handled e d)"
| "advance c now now' en msg g (Replying e d (v # vs)) =
     (case ev_err v of
        Some t \<Rightarrow> (g, Failed t e d)
      | None \<Rightarrow>
          if ev_text v = [] then (g, Replying e (d @ [v]) vs)
          else (case sr_send (hl_server c) (reply_to msg (rt_session (route_of c msg)) (ev_text v)) (gw_rest g) of
                  (Some t, x) \<Rightarrow> (g\<lparr>gw_rest := x\<rparr>, Failed t e d)
                | (None, x) \<Rightarrow> (g\<lparr>gw_rest := x\<rparr>, Sent e d v vs)))"
| "advance c now now' en msg g (Sent e d v vs) =
     (case record_event (hl_env c) now now' (Some (hl_manager c)) (Some e) msg v (gw_sess g) of
        (Some t, s) \<Rightarrow> (g\<lparr>gw_sess := s\<rparr>, Broken t)
      | (None, s) \<Rightarrow> (g\<lparr>gw_sess := s\<rparr>, Replying e (d @ [v]) vs))"
| "advance c now now' en msg g p = (g, p)"

section \<open>All of them together\<close>

text \<open>What the rest of the daemon may do meanwhile: runs of other sessions, and changes elsewhere.\<close>

definition undisturbed ::
    "('s \<Rightarrow> string set) \<Rightarrow> ('s, 'x) hall \<Rightarrow> entry \<Rightarrow> ('c, 's, 'x) gateway \<Rightarrow> ('c, 's, 'x) gateway \<Rightarrow> bool" where
  "undisturbed owned c e g g' \<longleftrightarrow>
     st_get (se_ops (hl_env c)) (ss_store (gw_sess g')) (en_key e)
       = st_get (se_ops (hl_env c)) (ss_store (gw_sess g)) (en_key e)
     \<and> owned (ss_store (gw_sess g')) = owned (ss_store (gw_sess g))
     \<and> file_text (ss_fs (gw_sess g')) (transcript_path (hl_manager c) e)
       = file_text (ss_fs (gw_sess g)) (transcript_path (hl_manager c) e)
     \<and> (gw_runtime g' = gw_runtime g
        \<or> (\<exists>en rq w. hl_runs c en \<and> gw_runtime g' = fst (snd (agent_run en rq (gw_runtime g) w))))"

inductive serving ::
    "('s \<Rightarrow> string set) \<Rightarrow> ('s, 'x) hall \<Rightarrow> entry \<Rightarrow> inbound list \<Rightarrow> ('c, 's, 'x) gateway
      \<Rightarrow> ('c, 's, 'x) gateway \<Rightarrow> phase list \<Rightarrow> bool"
  for owned c e0 msgs g0 where
  arrive: "serving owned c e0 msgs g0 g0 (replicate (length msgs) Arrived)"
| turn: "serving owned c e0 msgs g0 g ps \<Longrightarrow> i < length msgs \<Longrightarrow> hl_times c now \<Longrightarrow> hl_times c now' \<Longrightarrow>
    hl_runs c en \<Longrightarrow> advance c now now' en (msgs ! i) g (ps ! i) = (g', p) \<Longrightarrow>
    serving owned c e0 msgs g0 g' (ps[i := p])"
| elsewhere: "serving owned c e0 msgs g0 g ps \<Longrightarrow> undisturbed owned c e0 g g' \<Longrightarrow>
    serving owned c e0 msgs g0 g' ps"

section \<open>What has been recorded\<close>

text \<open>The events a goroutine has recorded, whether it has recorded the message, and its entry.\<close>

fun done_of :: "phase \<Rightarrow> agent_event list option" where
  "done_of (Asked e hist summary) = Some []"
| "done_of (Replying e d vs) = Some d"
| "done_of (Sent e d v vs) = Some d"
| "done_of (Handled e d) = Some d"
| "done_of (Failed t e d) = Some d"
| "done_of p = None"

fun entry_of :: "phase \<Rightarrow> entry option" where
  "entry_of (Opened e) = Some e"
| "entry_of (Loaded e hist summary) = Some e"
| "entry_of (Asked e hist summary) = Some e"
| "entry_of (Replying e d vs) = Some e"
| "entry_of (Sent e d v vs) = Some e"
| "entry_of (Handled e d) = Some e"
| "entry_of (Failed t e d) = Some e"
| "entry_of p = None"

fun is_broken :: "phase \<Rightarrow> bool" where
  "is_broken (Broken t) = True"
| "is_broken p = False"

definition asked :: "inbound \<Rightarrow> ctx_msg list" where
  "asked msg = new_texts ''user'' (im_text msg) (input_opts msg)"

definition recorded :: "inbound \<Rightarrow> phase \<Rightarrow> ctx_msg list" where
  "recorded msg p = (case done_of p of None \<Rightarrow> [] | Some d \<Rightarrow> asked msg @ said msg d)"

text \<open>The records of a goroutine can be written at any of the times of the clock.\<close>

definition writable :: "('s, 'x) hall \<Rightarrow> entry \<Rightarrow> inbound \<Rightarrow> phase \<Rightarrow> bool" where
  "writable c e msg p \<longleftrightarrow>
     (\<forall>d. done_of p = Some d \<longrightarrow>
       (\<forall>now. hl_times c now \<longrightarrow> codec_ok (se_enc (hl_env c)) (se_dec (hl_env c))
            (new_record now e ''user'' (im_text msg) (input_opts msg))
          \<and> (\<forall>v \<in> set d. ev_text v \<noteq> [] \<longrightarrow> codec_ok (se_enc (hl_env c)) (se_dec (hl_env c))
               (new_record now e ''assistant'' (ev_text v) (event_opts msg v)))))"

definition fits :: "entry \<Rightarrow> phase \<Rightarrow> bool" where
  "fits e0 p \<longleftrightarrow>
     (\<forall>e. entry_of p = Some e \<longrightarrow> en_id e = en_id e0 \<and> en_key e = en_key e0 \<and> en_agent e = en_agent e0)
     \<and> (\<forall>e d v vs. p = Sent e d v vs \<longrightarrow> ev_text v \<noteq> [])"

lemma new_record_same:
  "en_id e = en_id e0 \<Longrightarrow> en_key e = en_key e0 \<Longrightarrow> en_agent e = en_agent e0 \<Longrightarrow>
     new_record now e role text o' = new_record now e0 role text o'"
  by (simp add: new_record_def)

text \<open>A step of a goroutine never forgets what was recorded.\<close>

lemma advance_broken: "advance c now now' en msg g p = (g', p') \<Longrightarrow> is_broken p \<Longrightarrow> is_broken p'"
  by (cases p) auto

lemma advance_writable:
  "advance c now now' en msg g p = (g', p') \<Longrightarrow> \<not> is_broken p' \<Longrightarrow> writable c e msg p' \<Longrightarrow> writable c e msg p"
  by (induction c now now' en msg g p rule: advance.induct)
    (auto simp: writable_def split: prod.splits sum.splits option.splits if_splits)

lemma advance_runtime:
  "advance c now now' en msg g p = (g', p') \<Longrightarrow>
     gw_runtime g' = gw_runtime g \<or> (\<exists>rq w. gw_runtime g' = fst (snd (agent_run en rq (gw_runtime g) w)))"
proof (induction c now now' en msg g p rule: advance.induct)
  case (4 c now now' en msg g e hist summary)
  then show ?case by (auto split: prod.splits) (metis fst_conv snd_conv)
qed (auto split: prod.splits sum.splits option.splits if_splits)

lemma said_snoc:
  "said msg (d @ [v]) = said msg d @ (if ev_text v = [] then [] else new_texts ''assistant'' (ev_text v) (event_opts msg v))"
  by (simp add: said_def)

context session_store
begin

text \<open>One step keeps the session in step and adds what the goroutine has recorded with it.\<close>

lemma advance_in_step:
  assumes "se_ops (hl_env c) = ops" "budget_ok (mg_budget (hl_manager c))"
    and "in_step ops owned (se_dec (hl_env c)) (hl_manager c) e0 texts (gw_sess g)"
    and "rt_session (route_of c msg) = en_key e0" "fits e0 p" "hl_times c now"
    and "advance c now now' en msg g p = (g', p')" "\<not> is_broken p'" "writable c e0 msg p'"
    and "\<And>rq f x. file_text (fst (snd (snd (agent_run en rq (gw_runtime g) (f, x))))) (transcript_path (hl_manager c) e0)
           = file_text f (transcript_path (hl_manager c) e0)"
  shows "fits e0 p' \<and> (\<exists>new. recorded msg p' = recorded msg p @ new
    \<and> in_step ops owned (se_dec (hl_env c)) (hl_manager c) e0 (texts @ new) (gw_sess g'))"
proof -
  let ?step = "in_step ops owned (se_dec (hl_env c)) (hl_manager c) e0"
  have append: "?step (texts @ new_texts role t o') s'"
    if "append_with_options ops (se_enc (hl_env c)) (se_dec (hl_env c)) now now' (hl_manager c) e role t o' (gw_sess g)
        = (None, s')"
      "codec_ok (se_enc (hl_env c)) (se_dec (hl_env c)) (new_record now e0 role t o')"
      "en_id e = en_id e0" "en_key e = en_key e0" "en_agent e = en_agent e0" for e role t o' s'
    using append_in_step [OF _ assms(2) _ that(1)] assms(3) that(2) in_step_same [OF that(3-5)]
      new_record_same [OF that(3-5)] by metis
  show ?thesis
  proof (cases p)
    case Arrived
    with assms(7,8) obtain e s where t: "touch ops now now' (hl_manager c) (en_key e0) (rt_agent (route_of c msg)) (gw_sess g)
        = (Inr e, s)" and g': "gw_sess g' = s" "p' = Opened e"
      by (auto simp: assms(1,4) split: prod.splits sum.splits)
    from touch_in_step [OF assms(3) t] g' Arrived show ?thesis
      by (auto simp: fits_def recorded_def)
  next
    case (Opened e)
    with assms(7,8) obtain v s where t: "model_context ops (se_dec (hl_env c)) now (hl_manager c) (en_key e0) (gw_sess g)
        = (Inr v, s)" and g': "gw_sess g' = s" "p' = Loaded e (fst v) (snd v)"
      by (auto simp: assms(1,4) split: prod.splits sum.splits)
    from context_in_step [OF assms(3) t] g' Opened assms(3,5) show ?thesis
      by (auto simp: fits_def recorded_def)
  next
    case (Loaded e hist summary)
    with assms(7,8) obtain s where a: "append_with_options ops (se_enc (hl_env c)) (se_dec (hl_env c)) now now'
        (hl_manager c) e ''user'' (im_text msg) (input_opts msg) (gw_sess g) = (None, s)"
      and g': "gw_sess g' = s" "p' = Asked e hist summary"
      by (auto simp: assms(1) split: prod.splits option.splits)
    have "codec_ok (se_enc (hl_env c)) (se_dec (hl_env c)) (new_record now e0 ''user'' (im_text msg) (input_opts msg))"
      using assms(6,9) g' by (simp add: writable_def)
    from append [OF a this] Loaded assms(5) g' show ?thesis
      by (simp add: fits_def recorded_def asked_def said_def)
  next
    case (Asked e hist summary)
    obtain evts rt f x where r: "agent_run en (request_for (route_of c msg) msg hist summary) (gw_runtime g)
        (ss_fs (gw_sess g), gw_rest g) = (evts, rt, (f, x))" by (metis prod_cases4)
    with Asked assms(7) have g': "gw_sess g' = (gw_sess g)\<lparr>ss_fs := f\<rparr>" "p' = Replying e [] evts" by auto
    have "?step texts (gw_sess g')"
      using assms(10) [of "request_for (route_of c msg) msg hist summary" "ss_fs (gw_sess g)" "gw_rest g"] r g'(1)
      by (intro in_step_files [OF assms(3)]) simp_all
    with Asked assms(5) g'(2) show ?thesis by (auto simp: fits_def recorded_def said_def)
  next
    case (Replying e d vs)
    with assms(7) assms(3,5) show ?thesis
      by (cases vs) (auto simp: fits_def recorded_def said_snoc split: option.splits if_splits prod.splits)
  next
    case (Sent e d v vs)
    with assms(7,8) obtain s where a: "append_with_options ops (se_enc (hl_env c)) (se_dec (hl_env c)) now now'
        (hl_manager c) e ''assistant'' (ev_text v) (event_opts msg v) (gw_sess g) = (None, s)"
      and g': "gw_sess g' = s" "p' = Replying e (d @ [v]) vs"
      by (auto simp: assms(1) record_event_def split: prod.splits option.splits)
    have t: "ev_text v \<noteq> []" using Sent assms(5) by (simp add: fits_def)
    then have "codec_ok (se_enc (hl_env c)) (se_dec (hl_env c)) (new_record now e0 ''assistant'' (ev_text v) (event_opts msg v))"
      using assms(6,9) g' by (simp add: writable_def)
    from append [OF a this] Sent assms(5) g' t show ?thesis
      by (simp add: fits_def recorded_def said_snoc)
  qed (use assms(3,5,7,8) in auto)
qed

lemma undisturbed_in_step:
  assumes "undisturbed owned c e0 g g'" "se_ops (hl_env c) = ops"
    and "in_step ops owned dec (hl_manager c) e0 texts (gw_sess g)"
  shows "in_step ops owned dec (hl_manager c) e0 texts (gw_sess g')"
proof -
  let ?m = "hl_manager c"
  have g': "st_get ops (ss_store (gw_sess g')) (en_key e0) = st_get ops (ss_store (gw_sess g)) (en_key e0)"
      "owned (ss_store (gw_sess g')) = owned (ss_store (gw_sess g))"
    and f: "file_text (ss_fs (gw_sess g')) (transcript_path ?m e0) = file_text (ss_fs (gw_sess g)) (transcript_path ?m e0)"
    using assms(1,2) by (auto simp: undisturbed_def)
  from assms(3) obtain e1 where e1: "st_get ops (ss_store (gw_sess g)) (en_key e0) = Some e1" "en_id e1 = en_id e0"
      "en_key e1 = en_key e0" "en_agent e1 = en_agent e0" "synced dec ?m (ss_fs (gw_sess g)) e1"
      "context_texts dec e1 (transcript ?m (ss_fs (gw_sess g)) e1) = texts"
      "transcript_path ?m e0 \<notin> owned (ss_store (gw_sess g))"
    by (auto simp: in_step_def)
  have p: "transcript_path ?m e1 = transcript_path ?m e0" using e1(2) by (simp add: transcript_path_def)
  then have "synced dec ?m (ss_fs (gw_sess g')) e1"
    using e1(5) f synced_cong [of e1 e1 "ss_fs (gw_sess g')" ?m "ss_fs (gw_sess g)" dec] by simp
  moreover have "transcript ?m (ss_fs (gw_sess g')) e1 = transcript ?m (ss_fs (gw_sess g)) e1"
    using f p by (simp add: transcript_def)
  ultimately show ?thesis using e1 g' by (auto simp: in_step_def)
qed

end

section \<open>Every conversation is an interleaving\<close>

text \<open>
  A log says which goroutine recorded which message. It fits the phases if each goroutine finds in
  it what it has recorded, in its own order, and nobody else wrote to it.
\<close>

definition logged :: "inbound list \<Rightarrow> phase list \<Rightarrow> (nat \<times> ctx_msg) list \<Rightarrow> bool" where
  "logged msgs ps log \<longleftrightarrow>
     (\<forall>i < length msgs. map snd (filter (\<lambda>l. fst l = i) log) = recorded (msgs ! i) (ps ! i))
     \<and> (\<forall>l \<in> set log. fst l < length msgs)"

lemma logged_step:
  assumes "logged msgs ps log" "i < length msgs" "length ps = length msgs" "recorded (msgs ! i) p = recorded (msgs ! i) (ps ! i) @ new"
  shows "logged msgs (ps[i := p]) (log @ map (Pair i) new)"
proof -
  have own: "map snd (filter (\<lambda>l. fst l = j) (map (Pair i) new)) = (if j = i then new else [])" for j
    by (induction new) auto
  then show ?thesis using assms by (auto simp: logged_def nth_list_update)
qed

text \<open>No run writes into the transcript: a property \<open>Q\<close> of the runtime that its runs keep.\<close>

definition leaves_transcript ::
    "(('c, 'x) runtime \<Rightarrow> bool) \<Rightarrow> ('s, 'x) hall \<Rightarrow> entry \<Rightarrow> bool" where
  "leaves_transcript Q c e \<longleftrightarrow>
     (\<forall>rt en rq f x. Q rt \<longrightarrow> hl_runs c en \<longrightarrow>
        Q (fst (snd (agent_run en rq rt (f, x))))
        \<and> file_text (fst (snd (snd (agent_run en rq rt (f, x))))) (transcript_path (hl_manager c) e)
          = file_text f (transcript_path (hl_manager c) e))"

definition all_unbroken :: "('s, 'x) hall \<Rightarrow> entry \<Rightarrow> inbound list \<Rightarrow> phase list \<Rightarrow> bool" where
  "all_unbroken c e msgs ps \<longleftrightarrow>
     (\<forall>i < length msgs. \<not> is_broken (ps ! i) \<and> writable c e (msgs ! i) (ps ! i))"

definition serving_inv where
  "serving_inv owned c e0 Q texts msgs g ps \<longleftrightarrow>
     length ps = length msgs \<and> Q (gw_runtime g)
     \<and> (all_unbroken c e0 msgs ps \<longrightarrow>
          (\<forall>i < length msgs. fits e0 (ps ! i))
          \<and> (\<exists>log. logged msgs ps log
               \<and> in_step (se_ops (hl_env c)) owned (se_dec (hl_env c)) (hl_manager c) e0 (texts @ map snd log) (gw_sess g)))"

context session_store
begin

lemma serving_keeps:
  assumes "serving owned c e0 msgs g0 g ps" "se_ops (hl_env c) = ops" "budget_ok (mg_budget (hl_manager c))"
    and "\<forall>msg \<in> set msgs. rt_session (route_of c msg) = en_key e0"
    and "Q (gw_runtime g0)" "leaves_transcript Q c e0"
    and "in_step ops owned (se_dec (hl_env c)) (hl_manager c) e0 texts (gw_sess g0)"
  shows "serving_inv owned c e0 Q texts msgs g ps"
  using assms(1)
proof (induction rule: serving.induct)
  case arrive
  have "logged msgs (replicate (length msgs) Arrived) []" by (simp add: logged_def recorded_def)
  with assms(2,5,7) show ?case
    by (auto simp: serving_inv_def fits_def intro!: exI [of _ "[]"])
next
  case (turn g ps i now now' en g' p)
  have len: "length ps = length msgs" and q: "Q (gw_runtime g)" using turn.IH by (auto simp: serving_inv_def)
  have rt: "gw_runtime g' = gw_runtime g \<or> (\<exists>rq w. gw_runtime g' = fst (snd (agent_run en rq (gw_runtime g) w)))"
    by (rule advance_runtime [OF turn(6)])
  have "Q (gw_runtime g')"
    using rt q assms(6) turn(5) unfolding leaves_transcript_def by (metis prod.collapse)
  moreover have "(\<forall>j < length msgs. fits e0 (ps[i := p] ! j))
      \<and> (\<exists>log. logged msgs (ps[i := p]) log
           \<and> in_step ops owned (se_dec (hl_env c)) (hl_manager c) e0 (texts @ map snd log) (gw_sess g'))"
    if all: "all_unbroken c e0 msgs (ps[i := p])"
  proof -
    have p: "\<not> is_broken p" "writable c e0 (msgs ! i) p"
      using all turn(2) len by (auto simp: all_unbroken_def)
    have "\<not> is_broken (ps ! j) \<and> writable c e0 (msgs ! j) (ps ! j)" if "j < length msgs" for j
    proof (cases "j = i")
      case True
      then show ?thesis using advance_broken [OF turn(6)] advance_writable [OF turn(6)] p by auto
    next
      case False
      from all that have "\<not> is_broken (ps[i := p] ! j) \<and> writable c e0 (msgs ! j) (ps[i := p] ! j)"
        unfolding all_unbroken_def by blast
      with False show ?thesis by simp
    qed
    then have "all_unbroken c e0 msgs ps" by (simp add: all_unbroken_def)
    with turn.IH obtain log where fit: "\<forall>j < length msgs. fits e0 (ps ! j)" and log: "logged msgs ps log"
      and st: "in_step ops owned (se_dec (hl_env c)) (hl_manager c) e0 (texts @ map snd log) (gw_sess g)"
      by (auto simp: serving_inv_def assms(2))
    have "rt_session (route_of c (msgs ! i)) = en_key e0" using assms(4) turn(2) by simp
    from advance_in_step [OF assms(2,3) st this _ turn(3) turn(6) p] fit turn(2,5) q assms(6)
    obtain new where new: "fits e0 p" "recorded (msgs ! i) p = recorded (msgs ! i) (ps ! i) @ new"
      "in_step ops owned (se_dec (hl_env c)) (hl_manager c) e0 ((texts @ map snd log) @ new) (gw_sess g')"
      unfolding leaves_transcript_def by blast
    have "map snd (map (Pair i) new) = new" by (simp add: o_def)
    with logged_step [OF log turn(2) len new(2)] new(1,3) fit len turn(2) show ?thesis
      by (auto simp: nth_list_update intro!: exI [of _ "log @ map (Pair i) new"])
  qed
  ultimately show ?case using len by (simp add: serving_inv_def assms(2))
next
  case (elsewhere g ps g')
  have "Q (gw_runtime g')"
    using elsewhere assms(6) unfolding serving_inv_def undisturbed_def leaves_transcript_def by (metis prod.collapse)
  with elsewhere undisturbed_in_step [OF elsewhere(2) assms(2)] show ?case
    by (auto simp: serving_inv_def assms(2))
qed

end

text \<open>
  C2: messages of one session that are handled at the same time are all remembered. However the steps
  of their goroutines interleave, with each other and with the rest of the daemon, as long as no
  operation of the session manager has failed and no run writes into the transcript, the session
  is in step with its transcript and its conversation is the one before followed by an
  interleaving of what the goroutines recorded: every message with the replies recorded for it,
  each in its own order, and nothing else.
\<close>

theorem concurrent_conversation:
  assumes "serving store_files c e0 msgs g0 g ps" "se_ops (hl_env c) = file_ops encs"
    and "budget_ok (mg_budget (hl_manager c))" "\<forall>msg \<in> set msgs. rt_session (route_of c msg) = en_key e0"
    and "Q (gw_runtime g0)" "leaves_transcript Q c e0" "all_unbroken c e0 msgs ps"
    and "st_get (file_ops encs) (ss_store (gw_sess g0)) (en_key e0) = Some e0"
    and "synced (se_dec (hl_env c)) (hl_manager c) (ss_fs (gw_sess g0)) e0"
    and "transcript_path (hl_manager c) e0 \<notin> store_files (ss_store (gw_sess g0))"
  shows "\<exists>e1 log. st_get (file_ops encs) (ss_store (gw_sess g)) (en_key e0) = Some e1 \<and> en_id e1 = en_id e0
    \<and> synced (se_dec (hl_env c)) (hl_manager c) (ss_fs (gw_sess g)) e1
    \<and> context_texts (se_dec (hl_env c)) e1 (transcript (hl_manager c) (ss_fs (gw_sess g)) e1)
        = context_texts (se_dec (hl_env c)) e0 (transcript (hl_manager c) (ss_fs (gw_sess g0)) e0) @ map snd log
    \<and> logged msgs ps log"
proof -
  let ?t = "context_texts (se_dec (hl_env c)) e0 (transcript (hl_manager c) (ss_fs (gw_sess g0)) e0)"
  have "in_step (file_ops encs) store_files (se_dec (hl_env c)) (hl_manager c) e0 ?t (gw_sess g0)"
    using assms(8-10) by (simp add: in_step_def)
  from fst.serving_keeps [OF assms(1-6) this] assms(7) obtain log where log: "logged msgs ps log"
    and "in_step (file_ops encs) store_files (se_dec (hl_env c)) (hl_manager c) e0 (?t @ map snd log) (gw_sess g)"
    by (auto simp: serving_inv_def assms(2))
  from in_step_entry [OF this(2) refl] log show ?thesis by metis
qed

section \<open>One message alone\<close>

definition hall_of :: "'x server \<Rightarrow> 's session_env \<Rightarrow> manager \<Rightarrow> (nat \<Rightarrow> gtime) \<Rightarrow> run_env \<Rightarrow> ('s, 'x) hall" where
  "hall_of sv se m clock en = \<lparr>hl_server = sv, hl_env = se, hl_manager = m, hl_times = (\<lambda>t. \<exists>i. t = clock i),
     hl_runs = (\<lambda>x. x = en)\<rparr>"

lemma hall_of_simps [simp]:
  "hl_server (hall_of sv se m clock en) = sv" "hl_env (hall_of sv se m clock en) = se"
  "hl_manager (hall_of sv se m clock en) = m" "hl_times (hall_of sv se m clock en) t = (\<exists>i. t = clock i)"
  "hl_runs (hall_of sv se m clock en) x = (x = en)"
  by (simp_all add: hall_of_def)

lemma single_turn:
  assumes "serving owned (hall_of sv se m clock en) e0 [msg] g0 g [p]"
    and "advance (hall_of sv se m clock en) (clock i) (clock j) en msg g p = (g', p')"
  shows "serving owned (hall_of sv se m clock en) e0 [msg] g0 g' [p']"
  using serving.turn [OF assms(1), of 0 "clock i" "clock j" en g' p'] assms(2) by auto

lemma deliver_turns:
  assumes "sr_manager sv = Some m"
  shows "deliver_events sv se clock i (Some e) msg key evts (gw_sess g) (gw_rest g) = (None, seen, sent, s', x') \<Longrightarrow>
    key = rt_session (route_of (hall_of sv se m clock en) msg) \<Longrightarrow>
    serving owned (hall_of sv se m clock en) e0 [msg] g0 g [Replying e d evts] \<Longrightarrow>
    serving owned (hall_of sv se m clock en) e0 [msg] g0 (g\<lparr>gw_sess := s', gw_rest := x'\<rparr>) [Handled e (d @ evts)]"
proof (induction evts arbitrary: i d g seen sent)
  case Nil
  have "g\<lparr>gw_sess := gw_sess g, gw_rest := gw_rest g\<rparr> = g" by simp
  with single_turn [OF Nil.prems(3), of 0 0] Nil.prems(1) show ?case by auto
next
  case (Cons v evts)
  let ?c = "hall_of sv se m clock en"
  have ok: "ev_err v = None" using Cons.prems(1) by (auto split: option.splits)
  show ?case
  proof (cases "ev_text v = []")
    case True
    then obtain seen' where d: "deliver_events sv se clock i (Some e) msg key evts (gw_sess g) (gw_rest g)
        = (None, seen', sent, s', x')"
      using Cons.prems(1) ok by (auto split: prod.splits)
    have "serving owned ?c e0 [msg] g0 g [Replying e (d @ [v]) evts]"
      using single_turn [OF Cons.prems(3), of 0 0] ok True by simp
    from Cons.IH [OF d Cons.prems(2) this] show ?thesis by simp
  next
    case False
    obtain x1 where 1: "sr_send sv (reply_to msg key (ev_text v)) (gw_rest g) = (None, x1)"
      using Cons.prems(1) ok False by (auto split: prod.splits option.splits)
    obtain s1 where 2: "record_event se (clock i) (clock (i + 1)) (sr_manager sv) (Some e) msg v (gw_sess g) = (None, s1)"
      using Cons.prems(1) ok False 1 by (auto split: prod.splits option.splits)
    obtain seen' sent' where 3: "deliver_events sv se clock (i + 2) (Some e) msg key evts s1 x1 = (None, seen', sent', s', x')"
      using Cons.prems(1) ok False 1 2 by (auto split: prod.splits)
    have "serving owned ?c e0 [msg] g0 (g\<lparr>gw_rest := x1\<rparr>) [Sent e d v evts]"
      using single_turn [OF Cons.prems(3), of 0 0] ok False 1 Cons.prems(2) by simp
    from single_turn [OF this, of i "i + 1"] 2 assms
    have "serving owned ?c e0 [msg] g0 (g\<lparr>gw_rest := x1, gw_sess := s1\<rparr>) [Replying e (d @ [v]) evts]" by simp
    from Cons.IH [OF _ Cons.prems(2) this] 3 show ?thesis by simp
  qed
qed

text \<open>
  C14: the gateway's own account of a message is one of the interleavings. When \<open>handleInbound\<close> returns
  no error, its goroutine taken alone, phase by phase, starts from the same gateway and ends in
  the same one, with every event the observer saw recorded.
\<close>

theorem handling_alone:
  assumes "handle_inbound sv en se clock token msg g = ((None, seen, sent), g')" and "sr_manager sv = Some m"
  shows "\<exists>e. serving owned (hall_of sv se m clock en) e0 [stamp (clock 0) msg] g g' [Handled e seen]"
proof -
  let ?m = "stamp (clock 0) msg" and ?c = "hall_of sv se m clock en"
  let ?r = "route_of ?c ?m"
  have r: "resolve (sr_config sv) ?m = ?r" by (simp add: route_of_def del: resolve_stamp)
  obtain v s3 where o: "open_session se clock (Some m) ?r ?m (gw_sess g) = (Inr v, s3)"
    using assms r by (auto simp: handle_inbound_def Let_def simp del: resolve_stamp split: sum.splits prod.splits if_splits)
  then obtain e s1 hist summary s2 where
    t: "touch (se_ops se) (clock 1) (clock 2) m (rt_session ?r) (rt_agent ?r) (gw_sess g) = (Inr e, s1)"
    and k: "model_context (se_ops se) (se_dec se) (clock 3) m (rt_session ?r) s1 = (Inr (hist, summary), s2)"
    and a: "append_with_options (se_ops se) (se_enc se) (se_dec se) (clock 4) (clock 5) m e ''user'' (im_text ?m)
        (input_opts ?m) s2 = (None, s3)"
    and v: "v = (Some e, hist, summary)"
    by (auto simp: open_session_def split: prod.splits sum.splits option.splits)
  obtain evts rt f x where run: "agent_run en (request_for ?r ?m hist summary) (gw_runtime g)
      (ss_fs s3, gw_rest g) = (evts, rt, (f, x))" by (metis prod_cases4)
  obtain s4 x4 where d: "deliver_events sv se clock 6 (Some e) ?m (rt_session ?r) evts (s3\<lparr>ss_fs := f\<rparr>) x
      = (None, seen, sent, s4, x4)" and g': "g' = g\<lparr>gw_runtime := rt, gw_sess := s4, gw_rest := x4\<rparr>"
    using assms o v run r
    by (auto simp: handle_inbound_def Let_def simp del: resolve_stamp split: if_splits prod.splits sum.splits)
  have "serving owned ?c e0 [?m] g g [Arrived]" using serving.arrive [of owned ?c e0 "[?m]" g] by simp
  from single_turn [OF this, of 1 2] t have "serving owned ?c e0 [?m] g (g\<lparr>gw_sess := s1\<rparr>) [Opened e]" by simp
  from single_turn [OF this, of 3 3] k have "serving owned ?c e0 [?m] g (g\<lparr>gw_sess := s2\<rparr>) [Loaded e hist summary]" by simp
  from single_turn [OF this, of 4 5] a have "serving owned ?c e0 [?m] g (g\<lparr>gw_sess := s3\<rparr>) [Asked e hist summary]" by simp
  from single_turn [OF this, of 0 0] run
  have "serving owned ?c e0 [?m] g (g\<lparr>gw_runtime := rt, gw_sess := s3\<lparr>ss_fs := f\<rparr>, gw_rest := x\<rparr>) [Replying e [] evts]" by simp
  from deliver_turns [OF assms(2) _ _ this] d
  have "serving owned ?c e0 [?m] g (g\<lparr>gw_runtime := rt, gw_sess := s4, gw_rest := x4\<rparr>) [Handled e evts]" by simp
  moreover have "seen = evts" using deliver_prefix [OF d] by blast
  ultimately show ?thesis using g' by auto
qed

section \<open>Two messages at once\<close>

text \<open>A schedule, as the list of the goroutines that move, at a fixed time.\<close>

fun play ::
    "('s, 'x) hall \<Rightarrow> gtime \<Rightarrow> run_env \<Rightarrow> inbound list \<Rightarrow> nat list \<Rightarrow> ('c, 's, 'x) gateway \<times> phase list
      \<Rightarrow> ('c, 's, 'x) gateway \<times> phase list" where
  "play c now en msgs [] st = st"
| "play c now en msgs (i # is) (g, ps) =
     (case advance c now now en (msgs ! i) g (ps ! i) of (g', p) \<Rightarrow> play c now en msgs is (g', ps[i := p]))"

lemma play_serving:
  assumes "hl_times c now" "hl_runs c en"
  shows "serving owned c e0 msgs g0 g ps \<Longrightarrow> \<forall>i \<in> set is. i < length msgs \<Longrightarrow>
    play c now en msgs is (g, ps) = (g', ps') \<Longrightarrow> serving owned c e0 msgs g0 g' ps'"
proof (induction "is" arbitrary: g ps)
  case (Cons i "is")
  obtain g1 p where a: "advance c now now en (msgs ! i) g (ps ! i) = (g1, p)" by fastforce
  from serving.turn [OF Cons.prems(1) _ assms(1,1,2) a] Cons.prems(2)
  have "serving owned c e0 msgs g0 g1 (ps[i := p])" by simp
  from Cons.IH [OF this] Cons.prems(2,3) a show ?case by simp
qed simp

definition duo_hall :: "(file_store, unit) hall" where
  "duo_hall = \<lparr>hl_server = talk_server, hl_env = talk_env, hl_manager = demo_manager,
     hl_times = (\<lambda>t. t = GTime 5), hl_runs = (\<lambda>_. True)\<rparr>"

definition duo_asked where
  "duo_asked = play duo_hall (GTime 5) demo_env [demo_inbound, demo_inbound] [0, 1, 0, 1, 0, 1]
     (talk_gateway, [Arrived, Arrived])"

lemma duo_asked_phases: "snd duo_asked = [Asked talk_touched [] [], Asked talk_touched [] []]"
  by code_simp

lemma duo_recorded:
  "fst (record_event talk_env (GTime 5) (GTime 5) (Some demo_manager) (Some talk_touched) demo_inbound demo_reply
     (gw_sess (fst duo_asked))) = None"
  by code_simp

text \<open>A runtime with no services: its runs change neither it nor the world.\<close>

definition bare :: "('c, 'x) runtime \<Rightarrow> bool" where
  "bare rt \<longleftrightarrow> Option.is_none (ru_profile rt) \<and> Option.is_none (ru_bootstrap rt) \<and> ru_tools rt = []
     \<and> Option.is_none (ru_model rt) \<and> Option.is_none (ru_skills rt) \<and> Option.is_none (ru_memory rt)"

lemma bareD:
  assumes "bare rt"
  shows "ru_profile rt = None" "ru_bootstrap rt = None" "ru_tools rt = []" "ru_model rt = None" "ru_skills rt = None"
    "ru_memory rt = None"
  using assms by (simp_all add: bare_def Option.is_none_def)

lemma bare_command:
  assumes "bare rt" "handle_command en k t rt f = Some (out, rt', f')" shows "rt' = rt"
proof -
  have "fst (snd (run_command en k cmd rt f)) = rt" for cmd
    using bareD [OF assms(1)] by (cases cmd) (simp_all add: run_command_def on_profile_def on_bootstrap_def)
  moreover have "snd (list_skills rt f) = rt" using bareD [OF assms(1)] by (simp add: list_skills_def)
  ultimately show ?thesis
    using assms(2) by (auto simp: handle_command_def Let_def split: if_splits prod.splits) (metis fst_conv snd_conv)
qed

lemma bare_run:
  assumes "bare rt" shows "fst (snd (agent_run en rq rt w)) = rt"
proof (cases "handle_command en (rq_session rq) (trim_space (im_text (rq_message rq))) rt (fst w)")
  case (Some a)
  obtain out rt' f where "a = (out, rt', f)" by (cases a) auto
  with Some bare_command [OF assms] show ?thesis by (simp add: agent_run_def Let_def)
next
  case None
  note b = bareD [OF assms]
  have "proposal_stage en rt k t = (None, rt)" "skill_stage rt f t = (Inr [], rt)" for k t f
    using b by (simp_all add: proposal_stage_def skill_stage_def)
  then show ?thesis using None
    by (simp add: agent_run_def Let_def split: prod.splits option.splits)
qed

lemma bare_leaves_transcript: "leaves_transcript bare c e"
  unfolding leaves_transcript_def
proof (intro allI impI)
  fix rt en rq f x assume "bare rt"
  then show "bare (fst (snd (agent_run en rq rt (f, x))))
      \<and> file_text (fst (snd (snd (agent_run en rq rt (f, x))))) (transcript_path (hl_manager c) e)
        = file_text f (transcript_path (hl_manager c) e)"
    using bare_run [of rt en rq "(f, x)"] quiet_run [of rt en rq "(f, x)"] bareD [of rt] by simp
qed

lemma demo_runtime_bare: "bare demo_runtime"
  by (simp add: bare_def demo_runtime_def)

lemma serving_runtime:
  assumes "serving owned c e0 msgs g0 g ps" "bare (gw_runtime g0)"
  shows "gw_runtime g = gw_runtime g0"
  using assms(1)
proof (induction rule: serving.induct)
  case (turn g ps i now now' en g' p)
  from advance_runtime [OF turn(6)] turn.IH bare_run [OF assms(2)] show ?case by metis
next
  case (elsewhere g ps g')
  then show ?case using bare_run [OF assms(2)] by (metis undisturbed_def)
qed simp

lemma duo_served:
  obtains g where "serving store_files duo_hall talk_entry [demo_inbound, demo_inbound] talk_gateway g
    [Handled talk_touched [demo_reply], Asked talk_touched [] []]"
proof -
  let ?msgs = "[demo_inbound, demo_inbound]" and ?c = duo_hall and ?g = "fst duo_asked"
  have c: "hl_times ?c (GTime 5)" "hl_runs ?c demo_env" "hl_server ?c = talk_server" "hl_env ?c = talk_env"
    "hl_manager ?c = demo_manager" by (simp_all add: duo_hall_def)
  have turn: "serving store_files ?c talk_entry ?msgs talk_gateway g' (p' # ps)"
    if "serving store_files ?c talk_entry ?msgs talk_gateway g (p # ps)"
      "advance ?c (GTime 5) (GTime 5) demo_env demo_inbound g p = (g', p')" for g p ps g' p'
    using serving.turn [OF that(1) _ c(1,1,2), of 0 g' p'] that(2) by simp
  have a: "duo_asked = (?g, [Asked talk_touched [] [], Asked talk_touched [] []])"
    using duo_asked_phases by (metis prod.collapse)
  have "serving store_files ?c talk_entry ?msgs talk_gateway talk_gateway [Arrived, Arrived]"
    using serving.arrive [of store_files ?c talk_entry ?msgs talk_gateway] by (simp add: numeral_2_eq_2)
  from play_serving [OF c(1,2) this, of "[0, 1, 0, 1, 0, 1]" ?g] a
  have s0: "serving store_files ?c talk_entry ?msgs talk_gateway ?g [Asked talk_touched [] [], Asked talk_touched [] []]"
    by (simp add: duo_asked_def del: play.simps)
  let ?rq = "request_for (route_of duo_hall demo_inbound) demo_inbound [] []"
  let ?w = "(ss_fs (gw_sess ?g), gw_rest ?g)"
  have rt: "gw_runtime ?g = demo_runtime"
    using serving_runtime [OF s0] demo_runtime_bare by (simp add: talk_gateway_def)
  note b = bareD [OF demo_runtime_bare]
  have "route_of duo_hall demo_inbound = resolve sample_config demo_inbound"
    by (simp add: route_of_def c talk_server_def demo_gate_server_def)
  then have "fst (agent_run demo_env ?rq demo_runtime ?w) = [demo_reply]"
    using demo_run quiet_events [OF b, of demo_env ?rq "ss_fs (gw_sess ?g)" "gw_rest ?g" "plain_fs []" "()"] by simp
  moreover have "snd (agent_run demo_env ?rq (gw_runtime ?g) ?w) = (gw_runtime ?g, ?w)"
    unfolding rt using bare_run [OF demo_runtime_bare] quiet_run [OF b(1-5)] by (metis prod.collapse)
  ultimately have "agent_run demo_env ?rq (gw_runtime ?g) ?w = ([demo_reply], gw_runtime ?g, ?w)"
    unfolding rt by (metis prod.collapse)
  then have "advance ?c (GTime 5) (GTime 5) demo_env demo_inbound ?g (Asked talk_touched [] [])
      = (?g, Replying talk_touched [] [demo_reply])" by simp
  from turn [OF s0 this] have s1: "serving store_files ?c talk_entry ?msgs talk_gateway ?g
      [Replying talk_touched [] [demo_reply], Asked talk_touched [] []]" .
  have t: "ev_err demo_reply = None" "ev_text demo_reply \<noteq> []" "sr_send talk_server = (\<lambda>_ x. (None, x))"
    by (simp_all add: demo_reply_def final_event_def talk_server_def demo_gate_server_def)
  have "advance ?c (GTime 5) (GTime 5) demo_env demo_inbound ?g (Replying talk_touched [] [demo_reply])
      = (?g, Sent talk_touched [] demo_reply [])" using t by (simp add: c)
  from turn [OF s1 this] have s2: "serving store_files ?c talk_entry ?msgs talk_gateway ?g
      [Sent talk_touched [] demo_reply [], Asked talk_touched [] []]" .
  obtain s where "record_event talk_env (GTime 5) (GTime 5) (Some demo_manager) (Some talk_touched) demo_inbound demo_reply
      (gw_sess ?g) = (None, s)" using duo_recorded by (metis prod.collapse)
  then have "advance ?c (GTime 5) (GTime 5) demo_env demo_inbound ?g (Sent talk_touched [] demo_reply [])
      = (?g\<lparr>gw_sess := s\<rparr>, Replying talk_touched [demo_reply] [])" by (simp add: c)
  from turn [OF turn [OF s2 this]] that show thesis by simp
qed

theorem concurrent_conversation_witness:
  "\<exists>g e1 log. map snd (filter (\<lambda>l. fst l = (0::nat)) log) = [context_msg ''user'' ''hello'', context_msg ''assistant'' ''Nix: hello'']
     \<and> map snd (filter (\<lambda>l. fst l = 1) log) = [context_msg ''user'' ''hello'']
     \<and> context_texts (se_dec talk_env) e1 (transcript demo_manager (ss_fs (gw_sess (g :: (unit, file_store, unit) gateway))) e1)
         = map snd log"
proof -
  let ?msgs = "[demo_inbound, demo_inbound]" and ?c = duo_hall
  let ?ps = "[Handled talk_touched [demo_reply], Asked talk_touched [] []]"
  obtain g where s: "serving store_files ?c talk_entry ?msgs talk_gateway g ?ps" by (rule duo_served)
  have c: "hl_server ?c = talk_server" "hl_env ?c = talk_env" "hl_manager ?c = demo_manager"
    "hl_times ?c = (\<lambda>t. t = GTime 5)" by (simp_all add: duo_hall_def)
  have ops: "se_ops (hl_env ?c) = file_ops (\<lambda>_. Inr ''d'')" by (simp add: c talk_env_def demo_ops_def)
  have b: "budget_ok (mg_budget (hl_manager ?c))" by code_simp
  have key: "\<forall>msg \<in> set ?msgs. rt_session (route_of ?c msg) = en_key talk_entry"
    using talk_key_eq by (simp add: route_of_def c talk_server_def demo_gate_server_def talk_entry_def)
  have q: "bare (gw_runtime talk_gateway)" by code_simp
  have ok: "all_unbroken ?c talk_entry ?msgs ?ps"
    using talk_codec by (auto simp: all_unbroken_def writable_def encodable_def c less_Suc_eq)
  have e: "st_get (file_ops (\<lambda>_. Inr ''d'')) (ss_store (gw_sess talk_gateway)) (en_key talk_entry) = Some talk_entry"
    by (simp add: talk_gateway_def file_ops_def talk_entry_def)
  have sy: "synced (se_dec (hl_env ?c)) (hl_manager ?c) (ss_fs (gw_sess talk_gateway)) talk_entry"
    using talk_synced by (simp add: c talk_gateway_def)
  have free: "transcript_path (hl_manager ?c) talk_entry \<notin> store_files (ss_store (gw_sess talk_gateway))"
    unfolding c by code_simp
  have before: "context_texts (se_dec talk_env) talk_entry (transcript demo_manager (ss_fs (gw_sess talk_gateway)) talk_entry) = []"
    by code_simp
  have new: "recorded demo_inbound (Handled talk_touched [demo_reply])
      = [context_msg ''user'' ''hello'', context_msg ''assistant'' ''Nix: hello'']"
    "recorded demo_inbound (Asked talk_touched [] []) = [context_msg ''user'' ''hello'']"
    by code_simp+
  from concurrent_conversation [OF s ops b key q bare_leaves_transcript ok e sy free]
  obtain e1 log where "context_texts (se_dec talk_env) e1 (transcript demo_manager (ss_fs (gw_sess g)) e1) = map snd log"
    "logged ?msgs ?ps log"
    unfolding c before by auto
  moreover from this(2) have "map snd (filter (\<lambda>l. fst l = 0) log) = recorded demo_inbound (Handled talk_touched [demo_reply])"
    "map snd (filter (\<lambda>l. fst l = 1) log) = recorded demo_inbound (Asked talk_touched [] [])"
    by (auto simp: logged_def less_Suc_eq)
  ultimately show ?thesis unfolding new
    by (intro exI [of _ g] exI [of _ e1] exI [of _ log] conjI)
qed

theorem handling_alone_witness:
  "\<exists>sent g' e. handle_inbound talk_server demo_env talk_env (\<lambda>_. GTime 5) ''secret'' demo_inbound talk_gateway
       = ((None, [demo_reply], sent), g')
     \<and> serving store_files (hall_of talk_server talk_env demo_manager (\<lambda>_. GTime 5) demo_env) talk_entry
         [stamp (GTime 5) demo_inbound] talk_gateway g' [Handled e [demo_reply]]"
proof -
  obtain sent g' where h: "handle_inbound talk_server demo_env talk_env (\<lambda>_. GTime 5) ''secret'' demo_inbound talk_gateway
      = ((None, [demo_reply], sent), g')" by (rule talk_handled)
  have "sr_manager talk_server = Some demo_manager" by (simp add: talk_server_def)
  from handling_alone [OF h this, of store_files talk_entry] h show ?thesis by blast
qed

end
