(* ===== verification/Ws.thy ===== *)
theory Ws
  imports Gateway "HOL-Library.Word" "HOL-Library.Multiset"
begin

text \<open>
  \<open>internal/gateway/ws.go\<close> and the frames of \<open>internal/protocol/frames.go\<close>: one WebSocket
  connection. The first part is the answer to one request, method by method; the second is the
  connection as a state machine whose steps are a request, a run that starts, an event that draws
  its number, and a frame that is written. Whether a write succeeds is an argument of each step.
  Decoding \<open>params\<close> into a struct is an argument: the error of the decoder and the struct as it
  leaves it, because some methods ignore the error; \<open>WsJson\<close> gives the decoders of the code.
\<close>

section \<open>Parameters of the methods\<close>

record connect_params =
  cp_min :: int
  cp_max :: int
  cp_client :: "string \<times> string \<times> string"
  cp_token :: string

record send_params =
  sp_channel :: string
  sp_account :: string
  sp_peer :: string
  sp_peer_type :: string
  sp_user :: string
  sp_thread :: string
  sp_text :: string

record history_params =
  hp_session :: string
  hp_limit :: int
  hp_role :: string
  hp_from :: int
  hp_to :: int
  hp_before :: int
  hp_after :: int
  hp_cursor :: string

record abort_params =
  ab_run :: string
  ab_session :: string

record update_params =
  uq_file :: string
  uq_content :: string
  uq_mode :: string
  uq_reason :: string

type_synonym 'p decoder = "goany \<Rightarrow> go_error option \<times> 'p"

record ws_decoders =
  dc_connect :: "connect_params decoder"
  dc_skills :: "bool decoder"
  dc_get :: "string decoder"
  dc_update :: "update_params decoder"
  dc_complete :: "bool decoder"
  dc_send :: "send_params decoder"
  dc_abort :: "abort_params decoder"
  dc_history :: "history_params decoder"

section \<open>Frames\<close>

datatype payload =
    PHello "string list" "string list"
  | PHealth int
  | PSessions "entry list"
  | PSkills "skill_status list"
  | PCatalog "metadata list"
  | PMcpStatus status_snapshot
  | PMcpTools "tool_mapping list"
  | PProfile get_result
  | PUpdated update_result
  | PBootstrap workspace_status
  | PAccepted string string
  | PAborted string string
  | PHistory "msg_rec page"

record response =
  wr_id :: string
  wr_ok :: bool
  wr_payload :: "payload option"
  wr_error :: "(string \<times> string) option"

record agent_payload =
  ap_kind :: string
  ap_run :: string
  ap_session :: string
  ap_text :: string
  ap_provider :: string
  ap_tool :: "tool_call option"
  ap_usage :: "usage option"
  ap_done :: bool
  ap_aborted :: bool

datatype event_body = Tick int | Agent agent_payload

datatype frame = Reply response | Event event_body "64 word"

definition send_res :: "string \<Rightarrow> payload \<Rightarrow> response" where
  "send_res i p = \<lparr>wr_id = i, wr_ok = True, wr_payload = Some p, wr_error = None\<rparr>"

definition send_err :: "string \<Rightarrow> string \<Rightarrow> string \<Rightarrow> response" where
  "send_err i code msg = \<lparr>wr_id = i, wr_ok = False, wr_payload = None, wr_error = Some (code, msg)\<rparr>"

section \<open>The connection\<close>

text \<open>
  \<open>wc_started\<close> are the runs whose goroutine was started and has not called the gateway yet, and
  \<open>wc_cancelled\<close> the runs whose context was cancelled.
\<close>

record ws_conn =
  wc_connected :: bool
  wc_token :: string
  wc_tick :: bool
  wc_counter :: "64 word"
  wc_runs :: "(string \<times> string) list"
  wc_started :: "(string \<times> string \<times> inbound) list"
  wc_cancelled :: "string list"

definition new_conn :: ws_conn where
  "new_conn = \<lparr>wc_connected = False, wc_token = [], wc_tick = False, wc_counter = 0, wc_runs = [],
     wc_started = [], wc_cancelled = []\<rparr>"

text \<open>What a connection works with; \<open>we_order\<close> is the order in which Go visits the map of runs.\<close>

record ('s, 'x) ws_env =
  we_server :: "'x server"
  we_sess :: "'s session_env"
  we_dec :: ws_decoders
  we_order :: "(string \<times> string) list \<Rightarrow> (string \<times> string) list"

text \<open>
  What a request leads to: the reply (None is a panic, which ends the connection), whether the
  loop goes on, the connection and the gateway.
\<close>

type_synonym ('c, 's, 'x) ws_out = "response option \<times> bool \<times> ws_conn \<times> ('c, 's, 'x) gateway"

definition refuse :: "string \<Rightarrow> string \<Rightarrow> string \<Rightarrow> ws_conn \<Rightarrow> ('c, 's, 'x) gateway \<Rightarrow> ('c, 's, 'x) ws_out" where
  "refuse i code msg c g = (Some (send_err i code msg), True, c, g)"

definition grant :: "bool \<Rightarrow> string \<Rightarrow> payload \<Rightarrow> ws_conn \<Rightarrow> ('c, 's, 'x) gateway \<Rightarrow> ('c, 's, 'x) ws_out" where
  "grant wrote i p c g = (Some (send_res i p), wrote, c, g)"

definition map_profile_error :: "go_error \<Rightarrow> string \<times> string" where
  "map_profile_error e =
     (if trim_space e = ''FORBIDDEN_FILE'' then (''FORBIDDEN_FILE'', ''file is not in profile.allowedFiles'')
      else if trim_space e = ''FILE_TOO_LARGE'' then (''FILE_TOO_LARGE'', ''content exceeds profile.maxFileBytes'')
      else if trim_space e = ''PROPOSAL_INVALID'' then (''PROPOSAL_INVALID'', ''proposal is invalid or expired'')
      else (''INTERNAL'', e))"

definition to_milli :: "gtime \<Rightarrow> int" where
  "to_milli t = nanos t div 1000000"
section \<open>The methods\<close>

definition hello :: payload where
  "hello = PHello [''health'', ''chat.send'', ''chat.abort'', ''chat.history'', ''sessions.list'', ''skills.list'',
     ''tools.catalog'', ''mcp.status'', ''mcp.tools'', ''profile.get'', ''profile.update'', ''bootstrap.status'',
     ''bootstrap.complete''] [''tick'', ''agent'']"

text \<open>The ticker is only started when the greeting was written.\<close>

definition ws_connect ::
    "('s, 'x) ws_env \<Rightarrow> bool \<Rightarrow> request_frame \<Rightarrow> ws_conn \<Rightarrow> ('c, 's, 'x) gateway \<Rightarrow> ('c, 's, 'x) ws_out" where
  "ws_connect w wrote f c g =
     (case dc_connect (we_dec w) (rf_params f) of
        (Some _, _) \<Rightarrow> refuse (rf_id f) ''INVALID_REQUEST'' ''invalid connect params'' c g
      | (None, p) \<Rightarrow>
          if cp_min p > current_protocol \<or> cp_max p < current_protocol
          then refuse (rf_id f) ''PROTOCOL_MISMATCH'' ''unsupported protocol range'' c g
          else (case authenticate (sr_token (we_server w)) (cp_token p) of
                  Inl e \<Rightarrow> refuse (rf_id f) ''UNAUTHENTICATED'' e c g
                | Inr _ \<Rightarrow>
                    (let c1 = c\<lparr>wc_token := cp_token p, wc_connected := True\<rparr>
                     in grant wrote (rf_id f) hello (if wrote then c1\<lparr>wc_tick := True\<rparr> else c1) g)))"

definition ws_skills where
  "ws_skills w wrote f c g =
     (case skills_list (sr_workspace (we_server w)) (snd (dc_skills (we_dec w) (rf_params f))) g of
        (Inl e, g') \<Rightarrow> refuse (rf_id f) ''INTERNAL'' e c g'
      | (Inr ks, g') \<Rightarrow> grant wrote (rf_id f) (PSkills ks) c g')"

definition refuse_profile where
  "refuse_profile i e c g = refuse i (fst (map_profile_error e)) (snd (map_profile_error e)) c g"

definition ws_profile_get where
  "ws_profile_get w wrote f c g =
     (case dc_get (we_dec w) (rf_params f) of
        (Some _, _) \<Rightarrow> refuse (rf_id f) ''INVALID_REQUEST'' ''invalid profile.get params'' c g
      | (None, name) \<Rightarrow>
          (case gateway_profile_get name g of
             Inl e \<Rightarrow> refuse_profile (rf_id f) e c g
           | Inr r \<Rightarrow> grant wrote (rf_id f) (PProfile r) c g))"

definition ws_profile_update where
  "ws_profile_update w now wrote f c g =
     (case dc_update (we_dec w) (rf_params f) of
        (Some _, _) \<Rightarrow> refuse (rf_id f) ''INVALID_REQUEST'' ''invalid profile.update params'' c g
      | (None, p) \<Rightarrow>
          (case gateway_profile_update now
                  \<lparr>ur_file = uq_file p, ur_content = uq_content p, ur_mode = to_lower (trim_space (uq_mode p)),
                   ur_reason = uq_reason p\<rparr> g of
             (Inl e, g') \<Rightarrow> refuse_profile (rf_id f) e c g'
           | (Inr r, g') \<Rightarrow> grant wrote (rf_id f) (PUpdated r) c g'))"

definition ws_bootstrap_status where
  "ws_bootstrap_status w en wrote f c g =
     (case bootstrap_status en (sr_workspace (we_server w)) g of
        Inl e \<Rightarrow> refuse (rf_id f) ''INTERNAL'' e c g
      | Inr st \<Rightarrow> grant wrote (rf_id f) (PBootstrap st) c g)"

definition ws_bootstrap_complete where
  "ws_bootstrap_complete w en wrote f c g =
     (case bootstrap_complete en (sr_workspace (we_server w)) (snd (dc_complete (we_dec w) (rf_params f))) g of
        (Inl e, g') \<Rightarrow> refuse (rf_id f) ''INTERNAL'' e c g'
      | (Inr st, g') \<Rightarrow> grant wrote (rf_id f) (PBootstrap st) c g')"

text \<open>
  \<open>chat.send\<close>: a new run is registered, the acceptance is written, and only then its goroutine
  starts; when the write fails the run is cancelled and removed.
\<close>

definition next_run_id :: "gtime \<Rightarrow> 64 word \<Rightarrow> string" where
  "next_run_id now n = ''run-'' @ itoa (nanos now) @ ''-'' @ itoa (uint n)"

definition chat_message :: "gtime \<Rightarrow> string \<Rightarrow> send_params \<Rightarrow> inbound" where
  "chat_message now run p =
     \<lparr>im_channel = trim_space (sp_channel p), im_account = trim_space (sp_account p),
      im_peer = trim_space (sp_peer p), im_peer_type = parse_peer_type (sp_peer_type p),
      im_user = trim_space (sp_user p), im_text = trim_space (sp_text p),
      im_thread = trim_space (sp_thread p), im_run = run, im_at = now\<rparr>"

definition unregister_run :: "string \<Rightarrow> ws_conn \<Rightarrow> ws_conn" where
  "unregister_run r c = c\<lparr>wc_runs := del r (wc_runs c)\<rparr>"

definition ws_chat_send where
  "ws_chat_send w now wrote f c g =
     (case dc_send (we_dec w) (rf_params f) of
        (Some _, _) \<Rightarrow> refuse (rf_id f) ''INVALID_REQUEST'' ''invalid chat.send params'' c g
      | (None, p) \<Rightarrow>
          (let n = wc_counter c + 1;
               run = next_run_id now n;
               msg = chat_message now run p;
               key = rt_session (resolve (sr_config (we_server w)) msg);
               c1 = c\<lparr>wc_counter := n, wc_runs := put run key (wc_runs c)\<rparr>
           in grant wrote (rf_id f) (PAccepted run key)
                (if wrote then c1\<lparr>wc_started := wc_started c1 @ [(run, key, msg)]\<rparr>
                 else (unregister_run run c1)\<lparr>wc_cancelled := run # wc_cancelled c1\<rparr>) g))"

definition find_run :: "((string \<times> string) list \<Rightarrow> (string \<times> string) list) \<Rightarrow> abort_params \<Rightarrow> ws_conn
    \<Rightarrow> (string \<times> string) option" where
  "find_run order p c =
     (let rid = trim_space (ab_run p); key = trim_space (ab_session p)
      in if rid \<noteq> [] then map_option (Pair rid) (map_of (wc_runs c) rid)
         else if key = [] then None
         else find (\<lambda>(r, k). k = key) (order (wc_runs c)))"

definition ws_chat_abort where
  "ws_chat_abort w wrote f c g =
     (case dc_abort (we_dec w) (rf_params f) of
        (Some _, _) \<Rightarrow> refuse (rf_id f) ''INVALID_REQUEST'' ''invalid chat.abort params'' c g
      | (None, p) \<Rightarrow>
          (case find_run (we_order w) p c of
             None \<Rightarrow> refuse (rf_id f) ''NOT_FOUND'' ''run not found'' c g
           | Some (run, key) \<Rightarrow>
               grant wrote (rf_id f) (PAborted run key) (c\<lparr>wc_cancelled := run # wc_cancelled c\<rparr>) g))"

definition milli_bound :: "int \<Rightarrow> gtime" where
  "milli_bound ms = (if ms > 0 then unix_milli ms else zero_time)"

definition history_limit :: "int \<Rightarrow> int" where
  "history_limit l = (let l1 = if l \<le> 0 then 50 else l in if l1 > 500 then 500 else l1)"

definition history_filter_of :: "history_params \<Rightarrow> history_filter" where
  "history_filter_of p =
     \<lparr>hf_limit = history_limit (hp_limit p), hf_role = hp_role p, hf_from = milli_bound (hp_from p),
      hf_to = milli_bound (hp_to p), hf_before = milli_bound (hp_before p), hf_after = milli_bound (hp_after p),
      hf_cursor = hp_cursor p\<rparr>"

definition ws_chat_history where
  "ws_chat_history w wrote f c g =
     (case dc_history (we_dec w) (rf_params f) of
        (Some _, _) \<Rightarrow> refuse (rf_id f) ''INVALID_REQUEST'' ''invalid chat.history params'' c g
      | (None, p) \<Rightarrow>
          if trim_space (hp_session p) = []
          then refuse (rf_id f) ''INVALID_REQUEST'' ''sessionKey is required'' c g
          else (case chat_history (we_sess w) (sr_manager (we_server w)) (history_filter_of p)
                       (trim_space (hp_session p)) g of
                  None \<Rightarrow> (None, False, c, g)
                | Some (Inl e) \<Rightarrow> refuse (rf_id f) ''NOT_FOUND'' e c g
                | Some (Inr pg) \<Rightarrow> grant wrote (rf_id f) (PHistory pg) c g))"

section \<open>One request\<close>

definition ws_method where
  "ws_method w en now wrote f c g =
     (let m = rf_method f
      in if m = ''connect'' then ws_connect w wrote f c g
         else if m = ''health'' then grant wrote (rf_id f) (PHealth (to_milli now)) c g
         else if m = ''sessions.list'' then
           grant wrote (rf_id f) (PSessions (sessions_list (we_sess w) (sr_manager (we_server w)) g)) c g
         else if m = ''skills.list'' then ws_skills w wrote f c g
         else if m = ''tools.catalog'' then grant wrote (rf_id f) (PCatalog (tools_catalog g)) c g
         else if m = ''mcp.status'' then grant wrote (rf_id f) (PMcpStatus (gateway_mcp_status g)) c g
         else if m = ''mcp.tools'' then grant wrote (rf_id f) (PMcpTools (gateway_mcp_tools g)) c g
         else if m = ''profile.get'' then ws_profile_get w wrote f c g
         else if m = ''profile.update'' then ws_profile_update w now wrote f c g
         else if m = ''bootstrap.status'' then ws_bootstrap_status w en wrote f c g
         else if m = ''bootstrap.complete'' then ws_bootstrap_complete w en wrote f c g
         else if m = ''chat.send'' then ws_chat_send w now wrote f c g
         else if m = ''chat.abort'' then ws_chat_abort w wrote f c g
         else if m = ''chat.history'' then ws_chat_history w wrote f c g
         else refuse (rf_id f) ''METHOD_NOT_FOUND'' ''unknown method'' c g)"

definition ws_request ::
    "('s, 'x) ws_env \<Rightarrow> run_env \<Rightarrow> gtime \<Rightarrow> bool \<Rightarrow> request_frame \<Rightarrow> ws_conn \<Rightarrow> ('c, 's, 'x) gateway
      \<Rightarrow> ('c, 's, 'x) ws_out" where
  "ws_request w en now wrote f c g =
     (case validate_request f of
        Some e \<Rightarrow> refuse (rf_id f) ''INVALID_REQUEST'' e c g
      | None \<Rightarrow>
          if \<not> wc_connected c \<and> rf_method f \<noteq> ''connect''
          then (Some (send_err (rf_id f) ''UNAUTHENTICATED'' ''first method must be connect''), False, c, g)
          else ws_method w en now wrote f c g)"
section \<open>A run over the connection\<close>

text \<open>The events a run sends: one for each the observer saw, and a last one when it failed.\<close>

definition observed :: "string \<Rightarrow> agent_event \<Rightarrow> agent_payload" where
  "observed run e =
     \<lparr>ap_kind = ev_kind e, ap_run = (if trim_space (ev_run e) = [] then run else trim_space (ev_run e)),
      ap_session = ev_session e, ap_text = ev_text e, ap_provider = ev_provider e, ap_tool = ev_tool e,
      ap_usage = ev_usage e, ap_done = ev_done e, ap_aborted = ev_aborted e\<rparr>"

definition failed_run :: "string \<Rightarrow> string \<Rightarrow> bool \<Rightarrow> go_error \<Rightarrow> agent_payload" where
  "failed_run run key aborted e =
     \<lparr>ap_kind = ''final'', ap_run = run, ap_session = key,
      ap_text = (if aborted then ''run aborted'' else ''run error: '' @ e), ap_provider = [], ap_tool = None,
      ap_usage = None, ap_done = True, ap_aborted = aborted\<rparr>"

definition run_payloads ::
    "(go_error \<Rightarrow> bool) \<Rightarrow> string \<Rightarrow> string \<Rightarrow> bool \<Rightarrow> go_error option \<Rightarrow> agent_event list \<Rightarrow> agent_payload list" where
  "run_payloads is_canceled run key cancelled r seen =
     map (observed run) seen
     @ (case r of None \<Rightarrow> [] | Some e \<Rightarrow> [failed_run run key (is_canceled e \<or> cancelled) e])"

section \<open>The connection as a state machine\<close>

text \<open>
  \<open>wt_numbered\<close> are the events that drew a number and wait for the write lock, \<open>wt_running\<close>
  the runs with the payloads they still have to send. \<open>wt_read\<close>, the requests that were read, and
  \<open>wt_drawn\<close>, how many numbers were drawn, are kept for the statements only.
\<close>

record ('c, 's, 'x) ws_state =
  wt_conn :: ws_conn
  wt_gateway :: "('c, 's, 'x) gateway"
  wt_open :: bool
  wt_seq :: "64 word"
  wt_numbered :: "(event_body \<times> 64 word) list"
  wt_running :: "(string \<times> agent_payload list) list"
  wt_sent :: "frame list"
  wt_read :: "request_frame list"
  wt_drawn :: nat

definition ws_start :: "('c, 's, 'x) gateway \<Rightarrow> ('c, 's, 'x) ws_state" where
  "ws_start g = \<lparr>wt_conn = new_conn, wt_gateway = g, wt_open = True, wt_seq = 0, wt_numbered = [],
     wt_running = [], wt_sent = [], wt_read = [], wt_drawn = 0\<rparr>"

definition sent_reply :: "bool \<Rightarrow> response option \<Rightarrow> frame list" where
  "sent_reply wrote ro = (case ro of Some r \<Rightarrow> if wrote then [Reply r] else [] | None \<Rightarrow> [])"

definition draw :: "event_body \<Rightarrow> ('c, 's, 'x) ws_state \<Rightarrow> ('c, 's, 'x) ws_state" where
  "draw e s = s\<lparr>wt_seq := wt_seq s + 1, wt_numbered := wt_numbered s @ [(e, wt_seq s + 1)],
     wt_drawn := Suc (wt_drawn s)\<rparr>"

inductive ws_step :: "('s, 'x) ws_env \<Rightarrow> ('c, 's, 'x) ws_state \<Rightarrow> ('c, 's, 'x) ws_state \<Rightarrow> bool" for w where
  request:
    "wt_open s \<Longrightarrow> ws_request w en now wrote f (wt_conn s) (wt_gateway s) = (ro, stay, c', g') \<Longrightarrow>
     ws_step w s (s\<lparr>wt_conn := c', wt_gateway := g', wt_open := stay, wt_sent := wt_sent s @ sent_reply wrote ro,
       wt_read := wt_read s @ [f]\<rparr>)"
| hang_up:
    "ws_step w s (s\<lparr>wt_open := False\<rparr>)"
| tick:
    "wc_tick (wt_conn s) \<Longrightarrow> ws_step w s (draw (Tick (to_milli now)) s)"
| run_start:
    "wc_started (wt_conn s) = pre @ (run, key, msg) # post \<Longrightarrow>
     handle_inbound (we_server w) en (we_sess w) clock (wc_token (wt_conn s)) msg (wt_gateway s)
       = ((r, seen, sent), g') \<Longrightarrow>
     ws_step w s (s\<lparr>wt_conn := (wt_conn s)\<lparr>wc_started := pre @ post\<rparr>, wt_gateway := g',
       wt_running := wt_running s
         @ [(run, run_payloads is_canceled run key (run \<in> set (wc_cancelled (wt_conn s))) r seen)]\<rparr>)"
| run_event:
    "wt_running s = pre @ (run, p # ps) # post \<Longrightarrow>
     ws_step w s (draw (Agent p) (s\<lparr>wt_running := pre @ (run, ps) # post\<rparr>))"
| run_end:
    "wt_running s = pre @ (run, []) # post \<Longrightarrow>
     ws_step w s (s\<lparr>wt_running := pre @ post, wt_conn := unregister_run run (wt_conn s)\<rparr>)"
| written:
    "wt_numbered s = pre @ (e, n) # post \<Longrightarrow> wrote \<longrightarrow> wt_open s \<Longrightarrow>
     ws_step w s (s\<lparr>wt_numbered := pre @ post,
       wt_sent := wt_sent s @ (if wrote then [Event e n] else [])\<rparr>)"

inductive ws_reach :: "('s, 'x) ws_env \<Rightarrow> ('c, 's, 'x) gateway \<Rightarrow> ('c, 's, 'x) ws_state \<Rightarrow> bool" for w g where
  opened: "ws_reach w g (ws_start g)"
| more: "ws_reach w g s \<Longrightarrow> ws_step w s s' \<Longrightarrow> ws_reach w g s'"

section \<open>What a request can change\<close>

lemma refuse_simps [simp]: "refuse i code msg c g = (Some (send_err i code msg), True, c, g)"
  by (simp add: refuse_def)

lemma grant_simps [simp]: "grant wrote i p c g = (Some (send_res i p), wrote, c, g)"
  by (simp add: grant_def)

lemma response_fields [simp]:
  "wr_id (send_res i p) = i" "wr_ok (send_res i p)" "wr_id (send_err i code msg) = i"
  "\<not> wr_ok (send_err i code msg)"
  by (simp_all add: send_res_def send_err_def)

lemma method_cases:
  assumes "ws_method w en now wrote f c g = (ro, stay, c', g')"
  shows "(rf_method f = ''connect'' \<and> ws_connect w wrote f c g = (ro, stay, c', g'))
    \<or> (rf_method f = ''chat.send'' \<and> ws_chat_send w now wrote f c g = (ro, stay, c', g'))
    \<or> (rf_method f = ''chat.abort'' \<and> ws_chat_abort w wrote f c g = (ro, stay, c', g'))
    \<or> (rf_method f = ''chat.history'' \<and> ws_chat_history w wrote f c g = (ro, stay, c', g'))
    \<or> (rf_method f \<notin> {''connect'', ''chat.send'', ''chat.abort'', ''chat.history''} \<and> c' = c
        \<and> (\<exists>r. ro = Some r \<and> wr_id r = rf_id f) \<and> (wrote \<longrightarrow> stay))"
  using assms
  by (auto simp: ws_method_def Let_def ws_skills_def ws_profile_get_def ws_profile_update_def refuse_profile_def
      ws_bootstrap_status_def ws_bootstrap_complete_def split: if_splits prod.splits sum.splits option.splits)
text \<open>What a request does to the authentication of the connection.\<close>

definition keeps_auth :: "string \<Rightarrow> ws_conn \<Rightarrow> ws_conn \<Rightarrow> bool" where
  "keeps_auth secret c c' \<longleftrightarrow>
     wc_connected c' \<and> (wc_connected c \<and> wc_token c' = wc_token c \<or> token_admitted secret (wc_token c'))"

lemma connect_auth:
  assumes "ws_connect w wrote f c g = (ro, stay, c', g')"
  shows "g' = g \<and> (\<exists>r. ro = Some r \<and> wr_id r = rf_id f \<and> (c' = c \<and> \<not> wr_ok r))
    \<or> g' = g \<and> keeps_auth (sr_token (we_server w)) c c' \<and> (\<exists>r. ro = Some r \<and> wr_id r = rf_id f)"
proof (cases "dc_connect (we_dec w) (rf_params f)")
  case (Pair eo p)
  show ?thesis
  proof (cases "authenticate (sr_token (we_server w)) (cp_token p)")
    case (Inl e)
    with assms Pair show ?thesis by (auto simp: ws_connect_def split: option.splits if_splits)
  next
    case (Inr pr)
    then have "token_admitted (sr_token (we_server w)) (cp_token p)" by (rule tok.auth_Inr)
    with assms Pair Inr show ?thesis
      by (auto simp: ws_connect_def Let_def keeps_auth_def split: option.splits if_splits)
  qed
qed

lemma same_auth:
  "ws_chat_send w now wrote f c g = (ro, stay, c', g') \<Longrightarrow> wc_connected c' = wc_connected c \<and> wc_token c' = wc_token c"
  "ws_chat_abort w wrote f c g = (ro, stay, c', g') \<Longrightarrow> wc_connected c' = wc_connected c \<and> wc_token c' = wc_token c"
  "ws_chat_history w wrote f c g = (ro, stay, c', g') \<Longrightarrow> c' = c"
  by (auto simp: ws_chat_send_def ws_chat_abort_def ws_chat_history_def Let_def unregister_run_def
      split: prod.splits option.splits if_splits sum.splits)

lemma ws_request_auth:
  assumes "ws_request w en now wrote f c g = (ro, stay, c', g')"
  shows "(\<not> wc_connected c \<and> c' = c \<and> g' = g \<and> (\<exists>r. ro = Some r \<and> \<not> wr_ok r))
    \<or> (wc_connected c \<or> g' = g) \<and> keeps_auth (sr_token (we_server w)) c c'"
proof -
  consider (bad) r where "c' = c" "g' = g" "ro = Some r" "\<not> wr_ok r"
    | (other) "wc_connected c" "ws_method w en now wrote f c g = (ro, stay, c', g')"
    | (first) "\<not> wc_connected c" "rf_method f = ''connect''" "ws_connect w wrote f c g = (ro, stay, c', g')"
    using assms by (cases "wc_connected c")
      (auto simp: ws_request_def ws_method_def split: option.splits if_splits)
  then show ?thesis
  proof cases
    case bad
    then show ?thesis by (auto simp: keeps_auth_def)
  next
    case other
    from method_cases [OF other(2)] other(1) show ?thesis
      by (auto simp: keeps_auth_def dest: connect_auth same_auth)
  next
    case first
    from connect_auth [OF first(3)] first(1) show ?thesis by (auto simp: keeps_auth_def)
  qed
qed

section \<open>Nothing before a token\<close>

definition ws_inv :: "('s, 'x) ws_env \<Rightarrow> ('c, 's, 'x) gateway \<Rightarrow> ('c, 's, 'x) ws_state \<Rightarrow> bool" where
  "ws_inv w g s \<longleftrightarrow>
     (if wc_connected (wt_conn s) then token_admitted (sr_token (we_server w)) (wc_token (wt_conn s))
      else wt_conn s = new_conn \<and> wt_gateway s = g \<and> wt_numbered s = [] \<and> wt_running s = []
        \<and> (\<forall>fr \<in> set (wt_sent s). \<exists>r. fr = Reply r \<and> \<not> wr_ok r))"

lemma ws_inv_request:
  assumes "ws_inv w g s" "ws_request w en now wrote f (wt_conn s) (wt_gateway s) = (ro, stay, c', g')"
  shows "ws_inv w g (s\<lparr>wt_conn := c', wt_gateway := g', wt_open := stay,
    wt_sent := wt_sent s @ sent_reply wrote ro, wt_read := wt_read s @ [f]\<rparr>)"
  using ws_request_auth [OF assms(2)] assms(1)
  by (auto simp: ws_inv_def keeps_auth_def sent_reply_def split: if_splits)

lemma ws_inv_step: "ws_step w s s' \<Longrightarrow> ws_inv w g s \<Longrightarrow> ws_inv w g s'"
proof (induction rule: ws_step.induct)
  case (request s en now wrote f ro stay c' g')
  then show ?case using ws_inv_request by blast
qed (auto simp: ws_inv_def new_conn_def draw_def unregister_run_def split: if_splits)

lemma ws_inv_reach: "ws_reach w g s \<Longrightarrow> ws_inv w g s"
  by (induction rule: ws_reach.induct) (auto simp: ws_inv_step, simp add: ws_inv_def ws_start_def new_conn_def)

text \<open>
  C7: nothing happens before a valid \<open>connect\<close>. As long as a connection is not connected, whatever
  it was sent, the gateway is untouched, no run and no event exists, and every frame the client
  got is a refusal; once it is connected its token is one the authenticator admits, also after
  further \<open>connect\<close> requests with other tokens.
\<close>

theorem ws_needs_token:
  assumes "ws_reach w g s"
  shows "(\<not> wc_connected (wt_conn s) \<longrightarrow>
        wt_gateway s = g \<and> wc_runs (wt_conn s) = [] \<and> wt_running s = [] \<and> wt_numbered s = []
        \<and> (\<forall>fr \<in> set (wt_sent s). \<exists>r. fr = Reply r \<and> \<not> wr_ok r))
    \<and> (wc_connected (wt_conn s) \<longrightarrow> token_admitted (sr_token (we_server w)) (wc_token (wt_conn s)))"
  using ws_inv_reach [OF assms] by (auto simp: ws_inv_def new_conn_def split: if_splits)
section \<open>The numbers of the events\<close>

fun frame_number :: "frame \<Rightarrow> 64 word option" where
  "frame_number (Reply r) = None"
| "frame_number (Event e n) = Some n"

abbreviation sent_numbers :: "frame list \<Rightarrow> 64 word list" where
  "sent_numbers fs \<equiv> List.map_filter frame_number fs"

lemma sent_numbers_simps [simp]:
  "sent_numbers [] = []" "sent_numbers (xs @ ys) = sent_numbers xs @ sent_numbers ys"
  "sent_numbers [Reply r] = []" "sent_numbers [Event e n] = [n]"
  by (simp_all add: map_filter_simps map_filter_def)

lemma sent_reply_numbers [simp]: "sent_numbers (sent_reply wrote ro) = []"
  by (simp add: sent_reply_def split: option.splits)

definition all_numbers :: "('c, 's, 'x) ws_state \<Rightarrow> 64 word list" where
  "all_numbers s = sent_numbers (wt_sent s) @ map snd (wt_numbered s)"

definition drawn_numbers :: "nat \<Rightarrow> 64 word list" where
  "drawn_numbers k = map word_of_nat [1..<Suc k]"

definition num_inv :: "('c, 's, 'x) ws_state \<Rightarrow> bool" where
  "num_inv s \<longleftrightarrow> wt_seq s = word_of_nat (wt_drawn s)
     \<and> mset (all_numbers s) \<subseteq># mset (drawn_numbers (wt_drawn s))"

lemma unat_64: "k < 2 ^ 64 \<Longrightarrow> unat (word_of_nat k :: 64 word) = k"
  by (simp add: unsigned_of_nat take_bit_nat_eq_self)

lemma distinct_drawn: "k < 2 ^ 64 \<Longrightarrow> distinct (drawn_numbers k)"
proof -
  assume k: "k < 2 ^ 64"
  have "inj_on (word_of_nat :: nat \<Rightarrow> 64 word) {1..<Suc k}"
    by (rule inj_on_inverseI [of _ unat]) (use k in \<open>auto simp: unat_64\<close>)
  then show ?thesis by (simp add: drawn_numbers_def distinct_map del: upt_Suc)
qed

lemma distinct_submset: "mset ys \<subseteq># mset xs \<Longrightarrow> distinct xs \<Longrightarrow> distinct ys"
  by (metis distinct_append mset_append mset_eq_imp_distinct_iff ex_mset subset_mset.add_diff_inverse)

lemma num_inv_draw: "num_inv s \<Longrightarrow> num_inv (draw e s)"
  by (auto simp: num_inv_def draw_def all_numbers_def drawn_numbers_def add.commute)

lemma num_inv_subset:
  "num_inv s \<Longrightarrow> wt_seq s' = wt_seq s \<Longrightarrow> wt_drawn s' = wt_drawn s \<Longrightarrow>
     mset (all_numbers s') \<subseteq># mset (all_numbers s) \<Longrightarrow> num_inv s'"
  by (auto simp: num_inv_def intro: subset_mset.order_trans)

lemma num_inv_step: "ws_step w s s' \<Longrightarrow> num_inv s \<Longrightarrow> num_inv s'"
proof (induction rule: ws_step.induct)
  case (tick s now)
  then show ?case by (simp add: num_inv_draw)
next
  case (run_event s pre run p ps post)
  then have "num_inv (s\<lparr>wt_running := pre @ (run, ps) # post\<rparr>)"
    by (elim num_inv_subset) (simp_all add: all_numbers_def)
  then show ?case by (rule num_inv_draw)
next
  case (written s pre e n post wrote)
  then show ?case by (elim num_inv_subset) (simp_all add: all_numbers_def)
qed (auto elim!: num_inv_subset simp: all_numbers_def)

lemma num_inv_reach: "ws_reach w g s \<Longrightarrow> num_inv s"
  by (induction rule: ws_reach.induct) (auto simp: num_inv_step, simp add: num_inv_def ws_start_def all_numbers_def)

text \<open>
  No two events of a connection carry the same number, as long as fewer than \<open>2 ^ 64\<close> numbers
  were drawn, and every number is one of those drawn, counted from 1.
\<close>

theorem ws_event_numbers_distinct:
  assumes "ws_reach w g s" "wt_drawn s < 2 ^ 64"
  shows "distinct (sent_numbers (wt_sent s))
    \<and> (\<forall>n \<in> set (sent_numbers (wt_sent s)). 0 < unat n \<and> unat n \<le> wt_drawn s)"
proof -
  have sub: "mset (all_numbers s) \<subseteq># mset (drawn_numbers (wt_drawn s))"
    using num_inv_reach [OF assms(1)] by (simp add: num_inv_def)
  have "0 < unat n \<and> unat n \<le> wt_drawn s" if "n \<in> set (all_numbers s)" for n
  proof -
    have "n \<in> set (drawn_numbers (wt_drawn s))" using that sub by (metis mset_subset_eqD set_mset_mset)
    with assms(2) show ?thesis by (auto simp: drawn_numbers_def unat_64)
  qed
  with distinct_submset [OF sub distinct_drawn [OF assms(2)]] show ?thesis by (auto simp: all_numbers_def)
qed
section \<open>A connection that runs\<close>

definition demo_decoders :: ws_decoders where
  "demo_decoders = \<lparr>dc_connect = (\<lambda>v. (None, \<lparr>cp_min = 1, cp_max = 2, cp_client = ([], [], []),
        cp_token = (case v of VStr t \<Rightarrow> t | _ \<Rightarrow> [])\<rparr>)),
     dc_skills = (\<lambda>_. (None, False)), dc_get = (\<lambda>_. (None, ''USER.md'')),
     dc_update = (\<lambda>_. (Some ''bad'', \<lparr>uq_file = [], uq_content = [], uq_mode = [], uq_reason = []\<rparr>)),
     dc_complete = (\<lambda>_. (None, False)),
     dc_send = (\<lambda>_. (None, \<lparr>sp_channel = ''web'', sp_account = [], sp_peer = ''1'', sp_peer_type = [],
        sp_user = [], sp_thread = [], sp_text = ''hi''\<rparr>)),
     dc_abort = (\<lambda>_. (None, \<lparr>ab_run = [], ab_session = []\<rparr>)),
     dc_history = (\<lambda>_. (None, \<lparr>hp_session = ''s'', hp_limit = 900, hp_role = [], hp_from = 0, hp_to = 0,
        hp_before = 0, hp_after = 0, hp_cursor = []\<rparr>))\<rparr>"

definition demo_ws :: "(mem_store, unit) ws_env" where
  "demo_ws = \<lparr>we_server = demo_gate_server, we_sess = demo_session_env, we_dec = demo_decoders, we_order = id\<rparr>"

definition connect_frame :: request_frame where
  "connect_frame = \<lparr>rf_type = ''req'', rf_id = ''1'', rf_method = ''connect'', rf_params = VStr ''secret''\<rparr>"

definition demo_conn :: ws_conn where
  "demo_conn = new_conn\<lparr>wc_token := ''secret'', wc_connected := True, wc_tick := True\<rparr>"

lemma demo_connect:
  "ws_request demo_ws demo_env (GTime 5) True connect_frame new_conn demo_gateway
     = (Some (send_res ''1'' hello), True, demo_conn, demo_gateway)"
  by (simp add: ws_request_def validate_request_def connect_frame_def new_conn_def demo_conn_def ws_method_def
      ws_connect_def demo_ws_def demo_decoders_def demo_gate_server_def current_protocol_def authenticate_def Let_def)

definition demo_ws_state :: "(unit, mem_store, unit) ws_state" where
  "demo_ws_state = (ws_start demo_gateway)\<lparr>wt_conn := demo_conn, wt_sent := [Reply (send_res ''1'' hello)],
     wt_read := [connect_frame]\<rparr>"

lemma demo_reached: "ws_reach demo_ws demo_gateway demo_ws_state"
proof -
  have "ws_step demo_ws (ws_start demo_gateway) demo_ws_state"
    using ws_step.request [of "ws_start demo_gateway" demo_ws demo_env "GTime 5" True connect_frame]
    by (simp add: ws_start_def demo_connect demo_ws_state_def sent_reply_def)
  then show ?thesis using ws_reach.opened ws_reach.more by blast
qed

text \<open>Two events draw their numbers, and the second is written first.\<close>

definition demo_ticks :: "(unit, mem_store, unit) ws_state" where
  "demo_ticks = draw (Tick 2) (draw (Tick 1) demo_ws_state)"

lemma demo_ticks_reached: "ws_reach demo_ws demo_gateway demo_ticks"
proof -
  have t: "wc_tick (wt_conn demo_ws_state)" "wc_tick (wt_conn (draw (Tick 1) demo_ws_state))"
    by (simp_all add: demo_ws_state_def demo_conn_def draw_def)
  have "ws_step demo_ws demo_ws_state (draw (Tick 1) demo_ws_state)"
    "ws_step demo_ws (draw (Tick 1) demo_ws_state) demo_ticks"
    using ws_step.tick [of demo_ws_state demo_ws "GTime 1000000", OF t(1)]
      ws_step.tick [of "draw (Tick 1) demo_ws_state" demo_ws "GTime 2000000", OF t(2)]
    by (simp_all add: to_milli_def demo_ticks_def)
  then show ?thesis using demo_reached ws_reach.more by blast
qed

definition demo_disorder :: "(unit, mem_store, unit) ws_state" where
  "demo_disorder = demo_ticks\<lparr>wt_numbered := [],
     wt_sent := [Reply (send_res ''1'' hello), Event (Tick 2) 2, Event (Tick 1) 1]\<rparr>"

lemma demo_disorder_reached: "ws_reach demo_ws demo_gateway demo_disorder"
proof -
  let ?mid = "demo_ticks\<lparr>wt_numbered := [(Tick 1, 1)],
     wt_sent := [Reply (send_res ''1'' hello), Event (Tick 2) 2]\<rparr>"
  note d = demo_ticks_def draw_def demo_ws_state_def ws_start_def
  have "ws_step demo_ws demo_ticks ?mid"
    using ws_step.written [of demo_ticks "[(Tick 1, 1)]" "Tick 2" 2 "[]" True demo_ws] by (simp add: d)
  moreover have "ws_step demo_ws ?mid demo_disorder"
    using ws_step.written [of ?mid "[]" "Tick 1" 1 "[]" True demo_ws] by (simp add: d demo_disorder_def)
  ultimately show ?thesis using demo_ticks_reached ws_reach.more by blast
qed

theorem ws_needs_token_witness:
  "wc_connected (wt_conn demo_ws_state) \<and> token_admitted ''secret'' (wc_token (wt_conn demo_ws_state))"
  using ws_needs_token [OF demo_reached] by (simp add: demo_ws_state_def demo_conn_def demo_ws_def demo_gate_server_def)

text \<open>The numbers are distinct, but they do not arrive in order: here 2 comes before 1.\<close>

theorem ws_event_numbers_distinct_witness:
  "sent_numbers (wt_sent demo_disorder) = [2, 1] \<and> distinct (sent_numbers (wt_sent demo_disorder))"
proof -
  have "wt_drawn demo_disorder < 2 ^ 64"
    by (simp add: demo_disorder_def demo_ticks_def draw_def demo_ws_state_def ws_start_def)
  from ws_event_numbers_distinct [OF demo_disorder_reached this] show ?thesis
    by (simp add: demo_disorder_def map_filter_simps)
qed

section \<open>Every request is answered\<close>

lemma length_split_on: "length (split_on c s) \<le> Suc (length s)"
  by (induction s) (auto split: list.splits)

lemma length_read_records: "length (read_records dec e b) \<le> Suc (length b)"
proof -
  have "length (List.map_filter h xs) \<le> length xs" for h :: "string \<Rightarrow> msg_rec option" and xs
    by (simp add: map_filter_def)
  then show ?thesis using length_split_on [of NL b] le_trans unfolding read_records_def by blast
qed

lemma history_limit_range: "0 < history_limit l \<and> history_limit l \<le> 500"
  by (simp add: history_limit_def Let_def)

lemma page_of_short:
  assumes "int (length xs) + 500 \<le> max_int64"
  shows "\<exists>pg. page_of xs (history_limit l) c = Some pg \<and> length (pg_messages pg) \<le> 500"
proof -
  have l: "page_limit (history_limit l) = history_limit l" "history_limit l \<le> 500"
    using history_limit_range [of l] by (auto simp: page_limit_def)
  with assms have "int (length xs) + page_limit (history_limit l) \<le> max_int64" by simp
  from page_of_eq [OF this, of c] l show ?thesis by (auto simp: Let_def)
qed

text \<open>No file of the gateway is so long that a page of it would overflow an \<open>int\<close>.\<close>

definition short_files :: "fs \<Rightarrow> bool" where
  "short_files f \<longleftrightarrow> (\<forall>p b. read_file f p = Inr b \<longrightarrow> int (length b) + 501 \<le> max_int64)"

lemma chat_history_page:
  assumes "short_files (ss_fs (gw_sess g))"
  shows "\<exists>r. chat_history se mo (history_filter_of p) key g = Some r
    \<and> (\<forall>pg. r = Inr pg \<longrightarrow> length (pg_messages pg) \<le> 500)"
proof -
  have "\<exists>pg. page_of (filter k (read_records dec e b)) (history_limit l) c = Some pg \<and> length (pg_messages pg) \<le> 500"
    if "read_file (ss_fs (gw_sess g)) q = Inr b" for k dec e b l c q
  proof (rule page_of_short)
    have "length (filter k (read_records dec e b)) \<le> Suc (length b)"
      using length_filter_le length_read_records le_trans by blast
    moreover have "int (length b) + 501 \<le> max_int64" using assms that by (simp add: short_files_def)
    ultimately show "int (length (filter k (read_records dec e b))) + 500 \<le> max_int64" by linarith
  qed
  then show ?thesis
    by (auto simp: chat_history_def history_page_filtered_def history_filter_of_def
        split: option.splits sum.splits io_error.splits) fastforce+
qed
lemma ws_history_answer:
  assumes "short_files (ss_fs (gw_sess g))" "ws_chat_history w wrote f c g = (ro, stay, c', g')"
  shows "\<exists>r. ro = Some r \<and> wr_id r = rf_id f \<and> (wrote \<longrightarrow> stay)
    \<and> (\<forall>pg. wr_payload r = Some (PHistory pg) \<longrightarrow> length (pg_messages pg) \<le> 500)"
proof -
  obtain eo p where d: "dc_history (we_dec w) (rf_params f) = (eo, p)" by fastforce
  obtain r where r: "chat_history (we_sess w) (sr_manager (we_server w)) (history_filter_of p)
      (trim_space (hp_session p)) g = Some r"
    and len: "\<And>pg. r = Inr pg \<Longrightarrow> length (pg_messages pg) \<le> 500"
    using chat_history_page [OF assms(1)] by blast
  show ?thesis
  proof (cases r)
    case (Inl e)
    with assms(2) d r show ?thesis
      by (auto simp: ws_chat_history_def send_err_def split: option.splits if_splits)
  next
    case (Inr pg)
    with assms(2) d r len [OF Inr] show ?thesis
      by (auto simp: ws_chat_history_def send_err_def send_res_def split: option.splits if_splits)
  qed
qed

lemma answer_ids:
  "ws_chat_send w now wrote f c g = (ro, stay, c', g') \<Longrightarrow> \<exists>r. ro = Some r \<and> wr_id r = rf_id f \<and> (wrote \<longrightarrow> stay)"
  "ws_chat_abort w wrote f c g = (ro, stay, c', g') \<Longrightarrow> \<exists>r. ro = Some r \<and> wr_id r = rf_id f \<and> (wrote \<longrightarrow> stay)"
  "ws_connect w wrote f c g = (ro, stay, c', g') \<Longrightarrow> \<exists>r. ro = Some r \<and> wr_id r = rf_id f \<and> (wrote \<longrightarrow> stay)"
  by (auto simp: ws_chat_send_def ws_chat_abort_def ws_connect_def Let_def
      split: prod.splits option.splits if_splits sum.splits)

text \<open>
  C33: every request gets exactly one reply, with its own id, and a page of history in it never has
  more than 500 messages. Whatever the method, the parameters and the limit or the cursor they
  ask for, no request makes the handler panic while the files are shorter than an \<open>int\<close> less
  500; and after a written reply the connection goes on, unless the first request was
  another than \<open>connect\<close>.
\<close>

theorem ws_request_answered:
  assumes "ws_request w en now wrote f c g = (ro, stay, c', g')" "short_files (ss_fs (gw_sess g))"
  shows "\<exists>r. ro = Some r \<and> wr_id r = rf_id f
    \<and> (rf_method f = ''chat.history'' \<longrightarrow>
        (\<forall>pg. wr_payload r = Some (PHistory pg) \<longrightarrow> length (pg_messages pg) \<le> 500))
    \<and> (wrote \<and> (wc_connected c \<or> rf_method f = ''connect'') \<longrightarrow> stay)"
proof (cases "validate_request f = None \<and> (wc_connected c \<or> rf_method f = ''connect'')")
  case True
  then have m: "ws_method w en now wrote f c g = (ro, stay, c', g')"
    using assms(1) by (auto simp: ws_request_def)
  show ?thesis
  proof (cases "rf_method f = ''chat.history''")
    case h: True
    then have "ws_chat_history w wrote f c g = (ro, stay, c', g')" using m by (simp add: ws_method_def)
    from ws_history_answer [OF assms(2) this] show ?thesis by blast
  next
    case False
    have "\<exists>r. ro = Some r \<and> wr_id r = rf_id f \<and> (wrote \<longrightarrow> stay)"
      using method_cases [OF m] False by (elim disjE conjE) (simp_all add: answer_ids)
    with False show ?thesis by blast
  qed
next
  case False
  with assms(1) show ?thesis by (auto simp: ws_request_def send_err_def split: option.splits if_splits)
qed

definition history_frame :: request_frame where
  "history_frame = \<lparr>rf_type = ''req'', rf_id = ''7'', rf_method = ''chat.history'', rf_params = VNil\<rparr>"

theorem ws_request_answered_witness:
  "\<exists>r. fst (ws_request demo_ws demo_env (GTime 5) True history_frame demo_conn demo_gateway) = Some r
     \<and> wr_id r = ''7'' \<and> fst (snd (ws_request demo_ws demo_env (GTime 5) True history_frame demo_conn demo_gateway))"
proof -
  obtain ro stay c' g' where r:
    "ws_request demo_ws demo_env (GTime 5) True history_frame demo_conn demo_gateway = (ro, stay, c', g')"
    using prod_cases4 by blast
  have "short_files (ss_fs (gw_sess demo_gateway))"
    by (simp add: short_files_def demo_gateway_def plain_fs_def read_file_def guard_fault_def fs_get_def)
  from ws_request_answered [OF r this] obtain a where "ro = Some a" "wr_id a = ''7''" "stay"
    by (auto simp: history_frame_def demo_conn_def)
  then show ?thesis by (simp add: r)
qed

section \<open>The last event of a run\<close>

text \<open>
  A run whose last reply cannot be sent is reported as finished twice. The observer gets the
  final event before the hub is asked to deliver its text; when that fails the handler adds a
  final event of its own, so the client sees two events that are done for the same run, the
  first without a sign of the failure.
\<close>

theorem failed_delivery_ends_run_twice:
  assumes "run_events run key evts" "ev_text (last evts) \<noteq> []" "run \<noteq> []" "trim_space run = run"
    and "\<And>x. sr_send sv (reply_to msg key (ev_text (last evts))) x = (Some e, x)"
    and "\<forall>e \<in> set (butlast evts). ev_text e = []"
    and "deliver_events sv se clock i eo msg key evts s x = (r, seen, sent, s', x')"
  shows "\<exists>p q. filter ap_done (run_payloads is_canceled run key cancelled r seen) = [p, q]
    \<and> ap_run p = run \<and> ap_run q = run \<and> ap_text p = ev_text (last evts)"
proof -
  have del: "deliver_events sv se clock i eo msg key (es @ [l]) s x = (Some e, es @ [l],
      [reply_to msg key (ev_text l)], s, x)"
    if "\<forall>e \<in> set es. ev_text e = [] \<and> ev_err e = None" "ev_err l = None" "ev_text l \<noteq> []"
      "\<And>x. sr_send sv (reply_to msg key (ev_text l)) x = (Some e, x)" for es l
    using that by (induction es) auto
  have ne: "evts = butlast evts @ [last evts]" using assms(1) by (simp add: run_events_def)
  have "\<forall>e \<in> set (butlast evts). ev_text e = [] \<and> ev_err e = None"
    using assms(1,6) by (auto simp: run_events_def dest: in_set_butlastD)
  from del [OF this _ assms(2,5)] assms(1) have "deliver_events sv se clock i eo msg key evts s x
      = (Some e, evts, [reply_to msg key (ev_text (last evts))], s, x)"
    using ne by (auto simp: run_events_def)
  with assms(7) have r: "r = Some e" "seen = evts" by auto
  have "filter ev_done (butlast evts) = []" "filter ev_done [last evts] = [last evts]"
    using assms(1) by (auto simp: run_events_def filter_empty_conv)
  then have "filter ev_done evts = [last evts]" by (metis ne append_Nil filter_append)
  then have "filter ap_done (map (observed run) evts) = [observed run (last evts)]"
    by (simp add: filter_map o_def observed_def)
  moreover have "filter ap_done [failed_run run key a e] = [failed_run run key a e]" for a
    by (simp add: failed_run_def)
  moreover have "ap_run (observed run (last evts)) = run"
    using assms(1,3,4) ne by (auto simp: observed_def run_events_def)
  ultimately show ?thesis by (simp add: r run_payloads_def failed_run_def observed_def)
qed
definition mute_server :: "unit server" where
  "mute_server = demo_gate_server\<lparr>sr_send := (\<lambda>_ x. (Some ''hub is down'', x))\<rparr>"

theorem failed_delivery_ends_run_twice_witness:
  "\<exists>r seen sent s' x'. deliver_events mute_server demo_session_env (\<lambda>_. GTime 5) 6 None demo_inbound (ev_session demo_reply)
       [demo_reply] (gw_sess demo_gateway) () = (r, seen, sent, s', x')
     \<and> length (filter ap_done (run_payloads (\<lambda>_. False) ''r1'' (ev_session demo_reply) False r seen)) = 2"
proof -
  obtain r seen sent s' x' where d: "deliver_events mute_server demo_session_env (\<lambda>_. GTime 5) 6 None demo_inbound
      (ev_session demo_reply) [demo_reply] (gw_sess demo_gateway) () = (r, seen, sent, s', x')"
    using prod_cases5 by blast
  have e: "run_events ''r1'' (ev_session demo_reply) [demo_reply]" "ev_text (last [demo_reply]) \<noteq> []"
    by (simp_all add: run_events_def demo_reply_def)
  have t: "trim_space ''r1'' = ''r1''" by code_simp
  have f: "\<And>x. sr_send mute_server (reply_to demo_inbound (ev_session demo_reply) (ev_text (last [demo_reply]))) x
      = (Some ''hub is down'', x)" by (simp add: mute_server_def)
  from failed_delivery_ends_run_twice [OF e _ t f _ d, of "\<lambda>_. False" False] d show ?thesis by fastforce
qed

end
