(* ===== verification/Telegram.thy ===== *)
theory Telegram
  imports Hub
begin

text \<open>
  \<open>internal/channels/telegram.go\<close>: the Telegram adapter. Inbound, it polls for updates and
  runs each through a chain of gates (duplicate, bot, blank, rate, allowlist, help command,
  mention, sanitised text) before it hands a message on; outbound, it cuts a text into pieces
  the Bot API accepts and sends them with retries. HTTP, the decoding of a response and the
  clock are arguments. The maps used as sets are sets, and \<open>lastInboundByUser\<close> is a partial
  function: the code only looks keys up.
\<close>

section \<open>The adapter\<close>

record telegram =
  ta_account :: string
  ta_token :: string
  ta_base :: string
  ta_bot :: string
  ta_auto :: bool
  ta_require :: bool
  ta_help :: bool
  ta_interval :: int
  ta_window :: int
  ta_mode :: string
  ta_users :: "string set"
  ta_chats :: "string set"
  ta_last :: "string \<Rightarrow> gtime option"
  ta_order :: "int list"
  ta_seen :: "int set"

record telegram_options =
  to_account :: string
  to_base :: string
  to_username :: string
  to_auto :: bool
  to_require :: bool
  to_help :: bool
  to_interval_ms :: int
  to_window :: int
  to_mode :: string
  to_users :: "string list"
  to_chats :: "string list"

definition normalize_allowlist_mode :: "string \<Rightarrow> string" where
  "normalize_allowlist_mode v =
     (if normal_key v \<in> {''users'', ''chats'', ''users_or_chats'', ''users_and_chats''}
      then normal_key v else ''off'')"

definition normalize_username :: "string \<Rightarrow> string" where
  "normalize_username v = trim_prefix (trim_space (to_lower v)) ''@''"

definition to_set :: "string list \<Rightarrow> string set" where
  "to_set vs = set (filter (\<lambda>k. k \<noteq> []) (map trim_space vs))"

definition default_options :: telegram_options where
  "default_options = \<lparr>to_account = ''default'', to_base = ''https://api.telegram.org'',
     to_username = [], to_auto = True, to_require = True, to_help = True, to_interval_ms = 700,
     to_window = 2048, to_mode = ''off'', to_users = [], to_chats = []\<rparr>"

definition text_or_default :: "string \<Rightarrow> string \<Rightarrow> string" where
  "text_or_default d v = (if trim_space v = [] then d else v)"

definition new_telegram_adapter :: "string \<Rightarrow> telegram_options option \<Rightarrow> telegram" where
  "new_telegram_adapter token opts =
     (let c = (case opts of None \<Rightarrow> default_options | Some o' \<Rightarrow> o');
          interval = (if to_interval_ms c < 0 then 0 else to_interval_ms c);
          window = (if to_window c \<le> 0 then 2048 else to_window c)
      in \<lparr>ta_account = normalize_account_id (text_or_default ''default'' (to_account c)),
          ta_token = trim_space token,
          ta_base = trim_right_set
            (trim_space (text_or_default ''https://api.telegram.org'' (to_base c))) [CHR ''/''],
          ta_bot = normalize_username (to_username c),
          ta_auto = to_auto c, ta_require = to_require c, ta_help = to_help c,
          ta_interval = wrap64 (interval * millisecond_ns), ta_window = window,
          ta_mode = normalize_allowlist_mode (text_or_default ''off'' (to_mode c)),
          ta_users = to_set (to_users c), ta_chats = to_set (to_chats c),
          ta_last = (\<lambda>_. None), ta_order = [], ta_seen = {}\<rparr>)"

section \<open>Sending\<close>

text \<open>
  \<open>chunkTelegramText\<close>. The inner loop looks back from the end of the window for a line break,
  and remembers the last space on the way; \<open>i\<close> runs from \<open>stop - 1\<close> down to \<open>start + 1\<close>.
\<close>

function find_split :: "nat list \<Rightarrow> nat \<Rightarrow> nat \<Rightarrow> nat \<Rightarrow> nat \<Rightarrow> nat" where
  "find_split rs start stop split i =
     (if i \<le> start then split
      else if rs ! i = 10 then i
      else find_split rs start stop (if rs ! i = 32 \<and> split = stop then i else split) (i - 1))"
  by pat_completeness auto
termination by (relation "measure (\<lambda>(_, _, _, _, i). i)") auto

declare find_split.simps [simp del]

definition chunk_split :: "nat list \<Rightarrow> nat \<Rightarrow> nat \<Rightarrow> nat" where
  "chunk_split rs start stop =
     (let s = find_split rs start stop stop (stop - 1) in if s = start then stop else s)"

lemma find_split_range:
  "i < stop \<Longrightarrow> start < sp \<Longrightarrow> sp \<le> stop \<Longrightarrow> start < find_split rs start stop sp i \<and> find_split rs start stop sp i \<le> stop"
proof (induction rs start stop sp i rule: find_split.induct)
  case (1 rs start stop sp i)
  then show ?case
    by (subst (1 2) find_split.simps) (auto intro: order.strict_implies_order)
qed

lemma chunk_split_range:
  "start < stop \<Longrightarrow> start < chunk_split rs start stop \<and> chunk_split rs start stop \<le> stop"
  using find_split_range [of "stop - 1" stop start stop rs] by (simp add: chunk_split_def Let_def)

text \<open>
  The outer loop, entered with \<open>start < length rs\<close> and a positive limit; both bounds are
  written into the guard so that it ends, and \<open>chunk_split_range\<close> shows that it moves on.
\<close>

function chunk_from :: "nat list \<Rightarrow> nat \<Rightarrow> nat \<Rightarrow> nat list list" where
  "chunk_from rs limit start =
     (if length rs \<le> start \<or> limit = 0 then []
      else (let split = chunk_split rs start (min (start + limit) (length rs))
            in take (split - start) (drop start rs) # chunk_from rs limit split))"
  by pat_completeness auto
termination
proof (relation "measure (\<lambda>(rs, _, start). length rs - start)")
  fix rs :: "nat list" and limit start x
  assume "\<not> (length rs \<le> start \<or> limit = 0)" and "x = chunk_split rs start (min (start + limit) (length rs))"
  then show "((rs, limit, x), rs, limit, start) \<in> measure (\<lambda>(rs, _, start). length rs - start)"
    using chunk_split_range [of start "min (start + limit) (length rs)" rs] by auto
qed simp

declare chunk_from.simps [simp del]

definition chunk_telegram_text :: "string \<Rightarrow> int \<Rightarrow> string list" where
  "chunk_telegram_text s limit =
     (if limit \<le> 0 then [s]
      else if int (length (runes s)) \<le> limit then [s]
      else map encode_runes (chunk_from (runes s) (nat limit) 0))"

definition telegram_max_message_len :: int where "telegram_max_message_len = 4000"

text \<open>The body of \<open>sendMessage\<close>; the thread is set when it reads as a number.\<close>

record send_body =
  sb_chat :: int
  sb_text :: string
  sb_thread :: "int option"

definition body_of :: "int \<Rightarrow> string \<Rightarrow> string \<Rightarrow> send_body" where
  "body_of chat thread text = \<lparr>sb_chat = chat, sb_text = text,
     sb_thread = (if trim_space thread = [] then None else atoi (trim_space thread))\<rparr>"

text \<open>The loop over the chunks against \<open>call\<close>, which carries the state of the outside.\<close>

fun send_chunks ::
    "(send_body \<Rightarrow> 'w \<Rightarrow> go_error option \<times> 'w) \<Rightarrow> send_body list \<Rightarrow> 'w \<Rightarrow> go_error option \<times> 'w" where
  "send_chunks call [] w = (None, w)"
| "send_chunks call (b # bs) w =
     (case call b w of
        (Some e, w') \<Rightarrow> (Some e, w')
      | (None, w') \<Rightarrow> send_chunks call bs w')"

definition telegram_send ::
    "(send_body \<Rightarrow> 'w \<Rightarrow> go_error option \<times> 'w) \<Rightarrow> outbound \<Rightarrow> 'w \<Rightarrow> go_error option \<times> 'w" where
  "telegram_send call msg w =
     (case atoi (trim_space (om_target msg)) of
        None \<Rightarrow> (Some (''telegram: invalid target id '' @ go_quote (om_target msg)), w)
      | Some chat \<Rightarrow>
          send_chunks call (map (body_of chat (om_thread msg))
            (chunk_telegram_text (om_text msg) telegram_max_message_len)) w)"

subsection \<open>Retries\<close>

datatype http_error = HttpError (he_text: go_error) (he_context: bool) (he_timeout: bool)

definition is_transient_net_err :: "http_error \<Rightarrow> bool" where
  "is_transient_net_err e \<longleftrightarrow> he_timeout e
     \<or> contains (to_lower (he_text e)) ''connection reset by peer''
     \<or> contains (to_lower (he_text e)) ''use of closed network connection''
     \<or> contains (to_lower (he_text e)) ''connection refused''"

text \<open>
  The loop of \<open>call\<close> from an attempt on; \<open>http a\<close> is what attempt \<open>a\<close> gives and \<open>stopped a\<close> holds if
  the context ends during the pause after it. The number of attempts made is returned too.
\<close>

definition max_attempts :: nat where "max_attempts = 3"

function call_from ::
    "(nat \<Rightarrow> http_error + string) \<Rightarrow> (nat \<Rightarrow> go_error option) \<Rightarrow> nat \<Rightarrow> (go_error + string) \<times> nat" where
  "call_from http stopped a =
     (if a > max_attempts then (Inl ''telegram: unexpected retry exhaustion'', a - 1)
      else (case http a of
              Inr b \<Rightarrow> (Inr b, a)
            | Inl e \<Rightarrow>
                if he_context e then (Inl (he_text e), a)
                else if a = max_attempts \<or> \<not> is_transient_net_err e then (Inl (he_text e), a)
                else (case stopped a of
                        Some t \<Rightarrow> (Inl t, a)
                      | None \<Rightarrow> call_from http stopped (a + 1))))"
  by pat_completeness auto
termination by (relation "measure (\<lambda>(_, _, a). 4 - a)") (auto simp: max_attempts_def)

declare call_from.simps [simp del]

definition telegram_call ::
    "telegram \<Rightarrow> (nat \<Rightarrow> http_error + string) \<Rightarrow> (nat \<Rightarrow> go_error option) \<Rightarrow> (go_error + string) \<times> nat" where
  "telegram_call t http stopped =
     (if ta_token t = [] then (Inl ''telegram: token is empty'', 0) else call_from http stopped 1)"

text \<open>\<open>doHTTP\<close> once the response is there: only a status 2xx counts.\<close>

definition http_result :: "int \<Rightarrow> string \<Rightarrow> http_error + string" where
  "http_result code body =
     (if code < 200 \<or> 300 \<le> code
      then Inl (HttpError (''telegram api status '' @ itoa code @ '': '' @ body) False False)
      else Inr body)"

section \<open>Receiving\<close>

record tg_message =
  tm_thread :: int
  tm_text :: string
  tm_chat :: int
  tm_type :: string
  tm_from :: "(int \<times> bool) option"

record tg_update =
  tu_id :: int
  tu_msg :: "tg_message option"

definition map_telegram_chat_type :: "string \<Rightarrow> string" where
  "map_telegram_chat_type v =
     (if normal_key v \<in> {''group'', ''supergroup''} then chat_group
      else if normal_key v = ''channel'' then chat_channel else chat_direct)"

definition is_group :: "string \<Rightarrow> bool" where
  "is_group chat_type \<longleftrightarrow> normal_key chat_type \<in> {''group'', ''supergroup''}"

definition allowed_by_allowlist :: "telegram \<Rightarrow> string \<Rightarrow> string \<Rightarrow> bool" where
  "allowed_by_allowlist t chat user =
     (if ta_mode t = ''users'' then user \<in> ta_users t
      else if ta_mode t = ''chats'' then chat \<in> ta_chats t
      else if ta_mode t = ''users_or_chats'' then user \<in> ta_users t \<or> chat \<in> ta_chats t
      else if ta_mode t = ''users_and_chats'' then user \<in> ta_users t \<and> chat \<in> ta_chats t
      else True)"

definition allow_by_rate_limit :: "telegram \<Rightarrow> string \<Rightarrow> gtime \<Rightarrow> bool \<times> telegram" where
  "allow_by_rate_limit t user now =
     (if ta_interval t \<le> 0 then (True, t)
      else (case ta_last t user of
              Some prev \<Rightarrow>
                if time_sub now prev < ta_interval t then (False, t)
                else (True, t\<lparr>ta_last := (ta_last t)(user \<mapsto> now)\<rparr>)
            | None \<Rightarrow> (True, t\<lparr>ta_last := (ta_last t)(user \<mapsto> now)\<rparr>)))"

definition is_duplicate_update :: "telegram \<Rightarrow> int \<Rightarrow> bool \<times> telegram" where
  "is_duplicate_update t u =
     (if u \<le> 0 \<or> ta_window t \<le> 0 then (False, t)
      else if u \<in> ta_seen t then (True, t)
      else (let order = ta_order t @ [u]
            in if int (length order) > ta_window t
               then (False, t\<lparr>ta_order := tl order, ta_seen := insert u (ta_seen t) - {hd order}\<rparr>)
               else (False, t\<lparr>ta_order := order, ta_seen := insert u (ta_seen t)\<rparr>)))"

definition is_help_or_start_command :: "telegram \<Rightarrow> string \<Rightarrow> bool" where
  "is_help_or_start_command t text =
     (let parts = str_fields (trim_space text);
          first = trim_prefix (trim_space (if parts = [] then text else hd parts)) ''/'';
          cmd = to_lower first
      in if first = [] then False
         else if CHR ''@'' \<in> set cmd then
           (case split_n2 (CHR ''@'') cmd of
              [c, b] \<Rightarrow> (ta_bot t = [] \<or> b = ta_bot t) \<and> (c = ''start'' \<or> c = ''help'')
            | _ \<Rightarrow> False)
         else cmd = ''start'' \<or> cmd = ''help'')"

definition help_text :: "telegram \<Rightarrow> string" where
  "help_text t =
     ''Nisix bot is online.'' @ [NL] @ ''Use /help for this message.''
     @ (if ta_bot t = [] then []
        else [NL] @ ''In groups, mention @'' @ ta_bot t @ '' in your prompt.'')"

definition accept_by_mention_policy :: "telegram \<Rightarrow> string \<Rightarrow> string \<Rightarrow> bool" where
  "accept_by_mention_policy t chat_type text =
     (if \<not> ta_require t \<or> \<not> is_group chat_type then True
      else (let msg = to_lower text
            in if has_prefix (trim_space msg) ''/'' then
                 (case str_fields (trim_space msg) of
                    [] \<Rightarrow> True
                  | p # _ \<Rightarrow>
                      (let first = trim_prefix p ''/''
                       in if CHR ''@'' \<in> set first then
                            ta_bot t \<noteq> []
                            \<and> (case split_n2 (CHR ''@'') first of
                                 [_, b] \<Rightarrow> equal_fold b (ta_bot t) | _ \<Rightarrow> False)
                          else True))
               else ta_bot t \<noteq> [] \<and> contains msg (''@'' @ ta_bot t)))"

text \<open>One field of \<open>sanitizeText\<close>: dropped, or kept with \<open>@bot\<close> cut off a leading command.\<close>

definition sanitize_field :: "string \<Rightarrow> bool \<Rightarrow> string \<Rightarrow> string option" where
  "sanitize_field name first f =
     (if to_lower f = ''@'' @ name then None
      else if first \<and> has_prefix f ''/'' \<and> CHR ''@'' \<in> set f then
        (case split_n2 (CHR ''@'') f of
           [c, b] \<Rightarrow> if equal_fold b name then Some c else Some f
         | _ \<Rightarrow> Some f)
      else Some f)"

definition sanitize_text :: "telegram \<Rightarrow> string \<Rightarrow> string \<Rightarrow> string" where
  "sanitize_text t chat_type text =
     (if \<not> is_group chat_type \<or> ta_bot t = [] then trim_space text
      else (case str_fields text of
              [] \<Rightarrow> []
            | f # fs \<Rightarrow>
                trim_space (join '' ''
                  ((case sanitize_field (ta_bot t) True f of None \<Rightarrow> [] | Some g \<Rightarrow> [g])
                   @ List.map_filter (sanitize_field (ta_bot t) False) fs))))"

subsection \<open>One update\<close>

datatype outcome = Dropped | Help outbound | Deliver inbound

definition thread_of :: "tg_message \<Rightarrow> string" where
  "thread_of m = (if tm_thread m > 0 then itoa (tm_thread m) else [])"

definition user_of :: "tg_message \<Rightarrow> string" where
  "user_of m = itoa (case tm_from m of Some (i, _) \<Rightarrow> i | None \<Rightarrow> tm_chat m)"

definition from_bot :: "tg_message \<Rightarrow> bool" where
  "from_bot m = (case tm_from m of Some (_, b) \<Rightarrow> b | None \<Rightarrow> False)"

definition help_message :: "telegram \<Rightarrow> tg_message \<Rightarrow> outbound" where
  "help_message t m =
     \<lparr>om_channel = ''telegram'', om_account = [], om_target = itoa (tm_chat m),
      om_thread = thread_of m, om_session = [], om_text = help_text t\<rparr>"

definition inbound_of :: "telegram \<Rightarrow> gtime \<Rightarrow> tg_message \<Rightarrow> string \<Rightarrow> inbound" where
  "inbound_of t now m text =
     \<lparr>im_channel = ''telegram'', im_account = ta_account t, im_peer = itoa (tm_chat m),
      im_peer_type = map_telegram_chat_type (tm_type m), im_user = user_of m,
      im_text = text, im_thread = thread_of m, im_run = [], im_at = now\<rparr>"

definition handle_update :: "gtime \<Rightarrow> gtime \<Rightarrow> tg_update \<Rightarrow> telegram \<Rightarrow> outcome \<times> telegram" where
  "handle_update now now' u t =
     (case is_duplicate_update t (tu_id u) of (dup, t1) \<Rightarrow>
      if dup then (Dropped, t1)
      else (case tu_msg u of
              None \<Rightarrow> (Dropped, t1)
            | Some m \<Rightarrow>
                if from_bot m \<or> trim_space (tm_text m) = [] then (Dropped, t1)
                else (case allow_by_rate_limit t1 (user_of m) now of (ok, t2) \<Rightarrow>
                  if \<not> ok then (Dropped, t2)
                  else if \<not> allowed_by_allowlist t2 (itoa (tm_chat m)) (user_of m) then (Dropped, t2)
                  else if ta_help t2 \<and> is_help_or_start_command t2 (trim_space (tm_text m))
                  then (Help (help_message t2 m), t2)
                  else if \<not> accept_by_mention_policy t2 (tm_type m) (trim_space (tm_text m))
                  then (Dropped, t2)
                  else if sanitize_text t2 (tm_type m) (trim_space (tm_text m)) = []
                  then (Dropped, t2)
                  else (Deliver (inbound_of t2 now' m
                         (sanitize_text t2 (tm_type m) (trim_space (tm_text m)))), t2))))"

subsection \<open>The polling loop\<close>

text \<open>
  The state of \<open>RunPolling\<close> between two looks at its context: the offset, the adapter, the rest of
  the world, and what it has done with each update so far (the newest last). \<open>onInbound\<close> and \<open>Send\<close>
  act on the world; the error of a help message is ignored. A round fetches with the current
  offset; a failed fetch changes nothing; a batch is handled update by update until
  \<open>onInbound\<close> fails, which ends the loop.
\<close>

record 'w poll_state =
  po_offset :: int
  po_adapter :: telegram
  po_world :: 'w
  po_out :: "(int \<times> outcome) list"
  po_stop :: "go_error option"

record 'w poll_hooks =
  ph_inbound :: "inbound \<Rightarrow> 'w \<Rightarrow> go_error option \<times> 'w"
  ph_send :: "outbound \<Rightarrow> 'w \<Rightarrow> go_error option \<times> 'w"

type_synonym clocked_update = "gtime \<times> gtime \<times> tg_update"

definition next_offset :: "int \<Rightarrow> tg_update \<Rightarrow> int" where
  "next_offset off u = (if tu_id u \<ge> off then wrap64 (tu_id u + 1) else off)"

definition act_on :: "'w poll_hooks \<Rightarrow> outcome \<Rightarrow> 'w \<Rightarrow> go_error option \<times> 'w" where
  "act_on h r w =
     (case r of
        Dropped \<Rightarrow> (None, w)
      | Help m \<Rightarrow> (None, snd (ph_send h m w))
      | Deliver i \<Rightarrow> ph_inbound h i w)"

definition poll_update :: "'w poll_hooks \<Rightarrow> clocked_update \<Rightarrow> 'w poll_state \<Rightarrow> 'w poll_state" where
  "poll_update h cu s =
     (case cu of (now, now', u) \<Rightarrow>
      if po_stop s \<noteq> None then s
      else (case handle_update now now' u (po_adapter s) of (r, t) \<Rightarrow>
            (case act_on h r (po_world s) of (e, w) \<Rightarrow>
        s\<lparr>po_offset := next_offset (po_offset s) u, po_adapter := t, po_world := w,
          po_out := po_out s @ [(tu_id u, r)], po_stop := e\<rparr>)))"

definition poll_batch :: "'w poll_hooks \<Rightarrow> clocked_update list \<Rightarrow> 'w poll_state \<Rightarrow> 'w poll_state" where
  "poll_batch h us s = fold (poll_update h) us s"

inductive polling :: "'w poll_hooks \<Rightarrow> 'w poll_state \<Rightarrow> 'w poll_state \<Rightarrow> bool"
  for h where
  start: "polling h s s"
| fetch_failed: "polling h s s' \<Longrightarrow> po_stop s' = None \<Longrightarrow> polling h s s'"
| fetched: "polling h s s' \<Longrightarrow> po_stop s' = None \<Longrightarrow> polling h s (poll_batch h us s')"
| cancelled: "polling h s s' \<Longrightarrow> po_stop s' = None \<Longrightarrow> polling h s (s'\<lparr>po_stop := Some e\<rparr>)"

text \<open>\<open>ensureBotUsername\<close>: the answer of \<open>getMe\<close> sets the name if there was none.\<close>

definition ensure_bot_username :: "(go_error + bool \<times> string) \<Rightarrow> telegram \<Rightarrow> telegram" where
  "ensure_bot_username get_me t =
     (if \<not> ta_auto t \<or> ta_bot t \<noteq> [] then t
      else (case get_me of
              Inl _ \<Rightarrow> t
            | Inr (ok, name) \<Rightarrow>
                if \<not> ok \<or> normalize_username name = [] then t
                else t\<lparr>ta_bot := normalize_username name\<rparr>))"

definition start_polling :: "(go_error + bool \<times> string) \<Rightarrow> telegram \<Rightarrow> 'w \<Rightarrow> 'w poll_state" where
  "start_polling get_me t w =
     \<lparr>po_offset = 0, po_adapter = ensure_bot_username get_me t, po_world = w, po_out = [], po_stop = None\<rparr>"

text \<open>\<open>getUpdates\<close> once the envelope is decoded.\<close>

definition get_updates_result :: "bool \<Rightarrow> string \<Rightarrow> 'a \<Rightarrow> go_error + 'a" where
  "get_updates_result ok description result =
     (if ok then Inr result else Inl (''telegram getUpdates failed: '' @ description))"

section \<open>Properties of sending\<close>

lemma chunk_from_props:
  assumes "0 < limit"
  shows "concat (chunk_from rs limit start) = drop start rs
    \<and> (\<forall>c \<in> set (chunk_from rs limit start). c \<noteq> [] \<and> length c \<le> limit \<and> set c \<subseteq> set rs)"
  using assms
proof (induction rs limit start rule: chunk_from.induct)
  case (1 rs limit start)
  show ?case
  proof (cases "length rs \<le> start")
    case True
    then show ?thesis by (simp add: chunk_from.simps)
  next
    case False
    define sp where "sp = chunk_split rs start (min (start + limit) (length rs))"
    have sp: "start < sp" "sp \<le> start + limit" "sp \<le> length rs"
      using chunk_split_range [of start "min (start + limit) (length rs)" rs] False 1(2)
      by (auto simp: sp_def)
    have IH: "concat (chunk_from rs limit sp) = drop sp rs"
      "\<forall>c \<in> set (chunk_from rs limit sp). c \<noteq> [] \<and> length c \<le> limit \<and> set c \<subseteq> set rs"
      using 1(1) [OF _ sp_def] False 1(2) by auto
    have "take (sp - start) (drop start rs) @ drop sp rs = drop start rs"
      using sp append_take_drop_id [of "sp - start" "drop start rs"] by simp
    moreover have "set (take (sp - start) (drop start rs)) \<subseteq> set rs"
      by (meson set_drop_subset set_take_subset subset_trans)
    ultimately show ?thesis
      using IH sp False 1(2) chunk_from.simps [of rs limit start]
      by (simp flip: sp_def)
  qed
qed

lemma chunks_cover:
  assumes "0 < limit"
  shows "concat (map runes (chunk_telegram_text s limit)) = runes s
    \<and> (\<forall>c \<in> set (chunk_telegram_text s limit). int (length (runes c)) \<le> limit \<and> (s \<noteq> [] \<longrightarrow> c \<noteq> []))
    \<and> (encode_runes (runes s) = s \<longrightarrow> concat (chunk_telegram_text s limit) = s)"
proof (cases "int (length (runes s)) \<le> limit")
  case True
  with assms show ?thesis by (simp add: chunk_telegram_text_def)
next
  case False
  let ?cs = "chunk_from (runes s) (nat limit) 0"
  have p: "concat ?cs = runes s"
    "\<forall>c \<in> set ?cs. c \<noteq> [] \<and> length c \<le> nat limit \<and> set c \<subseteq> set (runes s)"
    using chunk_from_props [of "nat limit" "runes s" 0] assms by auto
  have c: "chunk_telegram_text s limit = map encode_runes ?cs"
    using False assms by (simp add: chunk_telegram_text_def)
  have r: "c \<in> set ?cs \<Longrightarrow> runes (encode_runes c) = c" for c
    using p(2) by (auto intro: runes_of_slice)
  then have "map runes (map encode_runes ?cs) = ?cs"
    by (simp add: map_idI)
  moreover have "c \<in> set ?cs \<Longrightarrow> encode_runes c \<noteq> []" for c
    using r [of c] p(2) by (metis runes.simps(1))
  moreover have "c \<in> set ?cs \<Longrightarrow> int (length (runes (encode_runes c))) \<le> limit" for c
    using r [of c] p(2) assms by fastforce
  ultimately show ?thesis
    using p(1) by (auto simp: c simp flip: encode_runes_concat)
qed

text \<open>
  A message is cut without loss. The pieces, put together, are the runes of the text in
  order, no piece is longer than the limit, and no piece is empty unless the text is; a text
  of valid UTF-8 comes out byte for byte.
\<close>

theorem chunks_cover_text:
  assumes "0 < limit"
  shows "concat (map runes (chunk_telegram_text s limit)) = runes s
    \<and> (\<forall>c \<in> set (chunk_telegram_text s limit). int (length (runes c)) \<le> limit \<and> (s \<noteq> [] \<longrightarrow> c \<noteq> []))
    \<and> (encode_runes (runes s) = s \<longrightarrow> concat (chunk_telegram_text s limit) = s)"
  using assms by (rule chunks_cover)

theorem chunks_cover_text_witness:
  "concat (map runes (chunk_telegram_text ''one two three'' 5)) = runes ''one two three''"
  using chunks_cover_text [of 5 "''one two three''"] by simp

text \<open>
  The last piece is cut although it fits. The search for a break also runs in the window
  that ends with the text, so a remainder within the limit is split at its last space: a text
  of nine runes, with a limit of seven, goes out in three messages, the last a single word.
\<close>

theorem chunk_splits_last_piece:
  "chunk_telegram_text ''ab cd e f'' 7 = [''ab cd'', '' e'', '' f'']"
  by code_simp

lemma send_chunks_all:
  "send_chunks call bs w = (None, w') \<Longrightarrow> \<forall>b w. fst (call b w) = None \<longrightarrow> log (snd (call b w)) = log w @ [b]
    \<Longrightarrow> log w' = log w @ bs"
proof (induction bs arbitrary: w)
  case (Cons b bs)
  from Cons.prems(1) obtain v where "call b w = (None, v)" "send_chunks call bs v = (None, w')"
    by (auto split: prod.splits option.splits)
  with Cons.IH [of v] Cons.prems(2) show ?case by (metis append.assoc append_Cons append_Nil fst_conv snd_conv)
qed simp

text \<open>
  C12: a message that \<open>Send\<close> reports as sent went out whole: to the chat it names, in calls whose
  texts, in order, are the runes of the text, each within the limit of the Bot API.
\<close>

theorem send_delivers_whole_text:
  assumes "telegram_send call msg w = (None, w')"
    and "\<forall>b w. fst (call b w) = None \<longrightarrow> log (snd (call b w)) = log w @ [b]"
    and "log w = []"
  shows "concat (map (\<lambda>b. runes (sb_text b)) (log w')) = runes (om_text msg)
    \<and> (\<forall>b \<in> set (log w'). Some (sb_chat b) = atoi (trim_space (om_target msg))
         \<and> int (length (runes (sb_text b))) \<le> 4000)"
proof -
  let ?cs = "chunk_telegram_text (om_text msg) telegram_max_message_len"
  from assms(1) obtain chat where chat: "atoi (trim_space (om_target msg)) = Some chat"
    and s: "send_chunks call (map (body_of chat (om_thread msg)) ?cs) w = (None, w')"
    by (auto simp: telegram_send_def split: option.splits)
  have "log w' = map (body_of chat (om_thread msg)) ?cs"
    using send_chunks_all [OF s assms(2)] assms(3) by simp
  moreover have "concat (map runes ?cs) = runes (om_text msg)"
    "\<forall>c \<in> set ?cs. int (length (runes c)) \<le> 4000"
    using chunks_cover [of telegram_max_message_len "om_text msg"]
    by (auto simp: telegram_max_message_len_def)
  ultimately show ?thesis using chat by (auto simp: body_of_def comp_def)
qed

definition demo_out :: outbound where
  "demo_out = \<lparr>om_channel = ''telegram'', om_account = [], om_target = '' 42 '', om_thread = ''7'',
     om_session = [], om_text = ''hi''\<rparr>"

theorem send_delivers_whole_text_witness:
  "concat (map (\<lambda>b. runes (sb_text b)) (snd (telegram_send (\<lambda>b w. (None, w @ [b])) demo_out [])))
     = runes ''hi''"
proof -
  let ?r = "telegram_send (\<lambda>b w. (None, w @ [b])) demo_out []"
  have "fst ?r = None" by code_simp
  then have "?r = (None, snd ?r)" by (simp add: prod_eq_iff)
  from send_delivers_whole_text [OF this, of id] show ?thesis by (simp add: demo_out_def)
qed

lemma call_from_spec:
  "call_from http stopped a = (r, n) \<Longrightarrow> a \<le> max_attempts \<Longrightarrow>
     a \<le> n \<and> n \<le> max_attempts
     \<and> (\<forall>i. a \<le> i \<and> i < n \<longrightarrow>
          (\<exists>e. http i = Inl e \<and> is_transient_net_err e \<and> \<not> he_context e) \<and> stopped i = None)
     \<and> (case r of Inr b \<Rightarrow> http n = Inr b
        | Inl t \<Rightarrow> (\<exists>e. http n = Inl e \<and> (t = he_text e \<or> stopped n = Some t)))"
proof (induction http stopped a rule: call_from.induct)
  case (1 http stopped a)
  show ?case
  proof (cases "\<exists>e. http a = Inl e \<and> \<not> he_context e \<and> a \<noteq> max_attempts \<and> is_transient_net_err e
      \<and> stopped a = None")
    case True
    then obtain e where e: "http a = Inl e" "\<not> he_context e" "a \<noteq> max_attempts"
      "is_transient_net_err e" "stopped a = None" by blast
    with 1(2,3) have "call_from http stopped (a + 1) = (r, n)"
      by (simp add: call_from.simps [of http stopped a])
    with 1(1) [OF _ e(1,2) _ e(5)] e 1(3)
    have IH: "a + 1 \<le> n \<and> n \<le> max_attempts
       \<and> (\<forall>i. a + 1 \<le> i \<and> i < n \<longrightarrow>
          (\<exists>e. http i = Inl e \<and> is_transient_net_err e \<and> \<not> he_context e) \<and> stopped i = None)
       \<and> (case r of Inr b \<Rightarrow> http n = Inr b
          | Inl t \<Rightarrow> (\<exists>e. http n = Inl e \<and> (t = he_text e \<or> stopped n = Some t)))"
      by auto
    moreover have "(\<exists>e. http i = Inl e \<and> is_transient_net_err e \<and> \<not> he_context e) \<and> stopped i = None"
      if "a \<le> i \<and> i < n" for i
      using IH e that by (cases "i = a") auto
    ultimately show ?thesis by auto
  next
    case False
    with 1(2,3) show ?thesis
      by (auto simp: call_from.simps [of http stopped a] split: sum.splits if_splits option.splits)
  qed
qed

text \<open>
  Retries are bounded and justified. A call makes at most three attempts; every attempt
  before the last failed with a transient error and with the context still live; an answer
  is that of the last attempt, and an error is that of the last attempt or of the context.
\<close>

theorem call_retries:
  assumes "telegram_call t http stopped = (r, n)" "ta_token t \<noteq> []"
  shows "1 \<le> n \<and> n \<le> 3
    \<and> (\<forall>i. 1 \<le> i \<and> i < n \<longrightarrow>
         (\<exists>e. http i = Inl e \<and> is_transient_net_err e \<and> \<not> he_context e) \<and> stopped i = None)
    \<and> (case r of Inr b \<Rightarrow> http n = Inr b
       | Inl x \<Rightarrow> (\<exists>e. http n = Inl e \<and> (x = he_text e \<or> stopped n = Some x)))"
  using call_from_spec [of http stopped 1 r n] assms
  by (simp add: telegram_call_def max_attempts_def)

definition demo_telegram :: telegram where
  "demo_telegram = new_telegram_adapter ''tok'' (Some (default_options\<lparr>to_username := ''@Nisix''\<rparr>))"

theorem call_retries_witness:
  "fst (telegram_call demo_telegram (\<lambda>i. if i < 2
      then Inl (HttpError ''dial: connection refused'' False False) else Inr ''ok'') (\<lambda>_. None))
    = Inr ''ok''"
proof -
  let ?h = "\<lambda>i::nat. if i < 2 then Inl (HttpError ''dial: connection refused'' False False) else Inr ''ok''"
  have r: "telegram_call demo_telegram ?h (\<lambda>_. None) = (Inr ''ok'', Suc (Suc 0))"
    by code_simp
  have "ta_token demo_telegram \<noteq> []" by code_simp
  from call_retries [OF r this] r show ?thesis by simp
qed

section \<open>Properties of receiving\<close>

lemma dup_frame:
  "is_duplicate_update t u = (d, t') \<Longrightarrow>
     ta_mode t' = ta_mode t \<and> ta_users t' = ta_users t \<and> ta_chats t' = ta_chats t
     \<and> ta_bot t' = ta_bot t \<and> ta_require t' = ta_require t \<and> ta_account t' = ta_account t
     \<and> ta_last t' = ta_last t \<and> ta_interval t' = ta_interval t \<and> ta_help t' = ta_help t
     \<and> ta_window t' = ta_window t"
  by (auto simp: is_duplicate_update_def Let_def split: if_splits)

lemma rate_frame:
  "allow_by_rate_limit t user now = (ok, t') \<Longrightarrow>
     ta_mode t' = ta_mode t \<and> ta_users t' = ta_users t \<and> ta_chats t' = ta_chats t
     \<and> ta_bot t' = ta_bot t \<and> ta_require t' = ta_require t \<and> ta_account t' = ta_account t
     \<and> ta_window t' = ta_window t \<and> ta_order t' = ta_order t \<and> ta_seen t' = ta_seen t"
  by (auto simp: allow_by_rate_limit_def split: if_splits option.splits)


lemma handle_update_account: "handle_update now now' u t = (r, t') \<Longrightarrow> ta_account t' = ta_account t"
  by (auto simp: handle_update_def dest!: dup_frame rate_frame
      split: prod.splits option.splits if_splits)

lemma delivered_inbound:
  assumes "handle_update now now' u t = (Deliver i, t')"
  obtains m where "tu_msg u = Some m" "im_channel i = ''telegram''" "im_account i = ta_account t"
    "im_peer i = itoa (tm_chat m)" "im_thread i = thread_of m"
proof -
  from assms obtain m t2 x where m: "tu_msg u = Some m" "i = inbound_of t2 now' m x" "t' = t2"
    by (auto simp: handle_update_def split: prod.splits option.splits if_splits)
  with handle_update_account [OF assms] that show thesis by (simp add: inbound_of_def)
qed

subsection \<open>Invariants of the polling loop\<close>

lemma polling_invariant [consumes 1, case_names init update stop]:
  assumes "polling oi s s'" and "I s"
    and "\<And>x cu. I x \<Longrightarrow> I (poll_update oi cu x)" and "\<And>x e. I x \<Longrightarrow> I (x\<lparr>po_stop := e\<rparr>)"
  shows "I s'"
  using assms(1,2)
proof (induction rule: polling.induct)
  case (fetched s s' us)
  have "I x \<Longrightarrow> I (fold (poll_update oi) us x)" for x
    by (induction us arbitrary: x) (auto intro: assms(3))
  with fetched show ?case by (simp add: poll_batch_def)
qed (auto intro: assms(4))

text \<open>The positive ids of the updates that had an effect.\<close>

definition handled :: "(int \<times> outcome) list \<Rightarrow> int list" where
  "handled out = map fst (filter (\<lambda>(u, r). u > 0 \<and> r \<noteq> Dropped) out)"

definition last_n :: "nat \<Rightarrow> 'a list \<Rightarrow> 'a list" where "last_n n xs = drop (length xs - n) xs"

lemma last_n_simps:
  "last_n (Suc n) (xs @ [x]) = last_n n xs @ [x]" "last_n 0 xs = []"
  by (simp_all add: last_n_def)

lemma last_n_mono: "m \<le> n \<Longrightarrow> set (last_n m xs) \<subseteq> set (last_n n xs)"
  unfolding last_n_def by (intro set_drop_subset_set_drop) simp

lemma last_n_tl: "n < length xs \<Longrightarrow> last_n n (tl xs) = last_n n xs"
  by (cases xs) (auto simp: last_n_def Suc_diff_le)

lemma handled_simps [simp]:
  "handled [] = []" "handled (xs @ ys) = handled xs @ handled ys"
  "handled [(u, r)] = (if u > 0 \<and> r \<noteq> Dropped then [u] else [])"
  by (simp_all add: handled_def)

definition dedupe_inv :: "telegram \<Rightarrow> (int \<times> outcome) list \<Rightarrow> bool" where
  "dedupe_inv t out \<longleftrightarrow> 0 < ta_window t \<and> ta_seen t = set (ta_order t) \<and> distinct (ta_order t)
     \<and> int (length (ta_order t)) \<le> ta_window t
     \<and> (\<forall>n. int n \<le> ta_window t \<longrightarrow> set (handled (last_n n out)) \<subseteq> set (last_n n (ta_order t)))"

lemma dedupe_step:
  assumes inv: "dedupe_inv t out" and d: "is_duplicate_update t u = (dup, t')"
    and r: "dup \<longrightarrow> r = Dropped"
  shows "dedupe_inv t' (out @ [(u, r)])
    \<and> (u > 0 \<and> r \<noteq> Dropped \<longrightarrow> u \<notin> set (handled (last_n (nat (ta_window t)) out)))"
proof (cases "u > 0 \<and> u \<notin> ta_seen t")
  case False
  then have t': "t' = t" and n: "handled [(u, r)] = []"
    using d inv r by (auto simp: is_duplicate_update_def dedupe_inv_def split: if_splits)
  have "set (handled (last_n n (out @ [(u, r)]))) \<subseteq> set (last_n n (ta_order t))"
    if "int n \<le> ta_window t" for n
  proof (cases n)
    case (Suc k)
    then have "set (handled (last_n k out)) \<subseteq> set (last_n k (ta_order t))"
      using inv that by (auto simp: dedupe_inv_def)
    then show ?thesis using n Suc last_n_mono [of k n "ta_order t"] by (auto simp: last_n_simps)
  qed (simp add: last_n_simps)
  with inv t' n show ?thesis by (auto simp: dedupe_inv_def)
next
  case True
  let ?o = "ta_order t @ [u]"
  have w: "0 < ta_window t" "ta_seen t = set (ta_order t)" "distinct (ta_order t)"
    "int (length (ta_order t)) \<le> ta_window t" using inv by (auto simp: dedupe_inv_def)
  have o': "ta_order t' = (if int (length ?o) > ta_window t then tl ?o else ?o)"
    "ta_seen t' = set (ta_order t')" "ta_window t' = ta_window t"
  proof -
    have t': "t' = (if int (length ?o) > ta_window t
        then t\<lparr>ta_order := tl ?o, ta_seen := insert u (ta_seen t) - {hd ?o}\<rparr>
        else t\<lparr>ta_order := ?o, ta_seen := insert u (ta_seen t)\<rparr>)"
      using d True w(1) unfolding is_duplicate_update_def Let_def by (simp split: if_splits)
    have "distinct ?o" "set ?o = insert u (ta_seen t)" using True w by auto
    moreover have "set (tl ys) = set ys - {hd ys}" if "ys \<noteq> []" "distinct ys" for ys :: "int list"
      using that by (cases ys) auto
    ultimately have "set (tl ?o) = insert u (ta_seen t) - {hd ?o}" by fastforce
    with t' w(2) show "ta_order t' = (if int (length ?o) > ta_window t then tl ?o else ?o)"
      "ta_seen t' = set (ta_order t')" "ta_window t' = ta_window t" by simp_all
  qed
  have last: "last_n n (ta_order t') = last_n n ?o" if "int n \<le> ta_window t" for n
    using that last_n_tl [of n ?o] by (auto simp: o'(1))
  have "set (handled (last_n n (out @ [(u, r)]))) \<subseteq> set (last_n n (ta_order t'))"
    if n: "int n \<le> ta_window t" for n
  proof (cases n)
    case (Suc k)
    then have "set (handled (last_n k out)) \<subseteq> set (last_n k (ta_order t))"
      using inv n by (auto simp: dedupe_inv_def)
    moreover have "last_n (Suc k) (ta_order t') = last_n k (ta_order t) @ [u]"
      using last [OF n] Suc by (simp only: last_n_simps)
    ultimately show ?thesis using Suc by (auto simp: last_n_simps)
  qed (simp add: last_n_simps)
  moreover have "distinct (ta_order t')" "int (length (ta_order t')) \<le> ta_window t"
    using True w by (auto simp: o'(1) distinct_tl)
  moreover have "set (handled (last_n (nat (ta_window t)) out)) \<subseteq> set (last_n (nat (ta_window t)) (ta_order t))"
    using inv w(1) by (simp add: dedupe_inv_def)
  then have "set (handled (last_n (nat (ta_window t)) out)) \<subseteq> ta_seen t"
    using w(2) set_drop_subset [of _ "ta_order t"] by (auto simp: last_n_def)
  ultimately show ?thesis using True w o' by (auto simp: dedupe_inv_def)
qed

lemma handle_update_dedupe:
  assumes "dedupe_inv t out" and h: "handle_update now now' u t = (r, t')"
  shows "dedupe_inv t' (out @ [(tu_id u, r)]) \<and> ta_window t' = ta_window t
    \<and> (tu_id u > 0 \<and> r \<noteq> Dropped \<longrightarrow> tu_id u \<notin> set (handled (last_n (nat (ta_window t)) out)))"
proof -
  obtain dup t1 where d: "is_duplicate_update t (tu_id u) = (dup, t1)" by fastforce
  have "dup \<longrightarrow> r = Dropped" using h d by (auto simp: handle_update_def)
  note step = dedupe_step [OF assms(1) d this]
  have "ta_order t' = ta_order t1 \<and> ta_seen t' = ta_seen t1 \<and> ta_window t' = ta_window t1"
    using h d rate_frame
    by (fastforce simp: handle_update_def split: prod.splits option.splits if_splits)
  with step dup_frame [OF d] show ?thesis by (simp add: dedupe_inv_def)
qed

lemma poll_update_fields:
  assumes "po_stop s = None" "handle_update now now' u (po_adapter s) = (r, t)"
  shows "po_adapter (poll_update h (now, now', u) s) = t"
    and "po_out (poll_update h (now, now', u) s) = po_out s @ [(tu_id u, r)]"
    and "po_offset (poll_update h (now, now', u) s) = next_offset (po_offset s) u"
    and "po_stop (poll_update h (now, now', u) s) = fst (act_on h r (po_world s))"
    and "po_world (poll_update h (now, now', u) s) = snd (act_on h r (po_world s))"
  using assms by (simp_all add: poll_update_def split: prod.splits)

lemma poll_update_stopped [simp]: "po_stop s \<noteq> None \<Longrightarrow> poll_update h cu s = s"
  by (simp add: poll_update_def split: prod.splits)

definition window_inv :: "'w poll_state \<Rightarrow> bool" where
  "window_inv s \<longleftrightarrow> dedupe_inv (po_adapter s) (po_out s)
     \<and> (\<forall>pre mid post. po_out s = pre @ mid @ post \<longrightarrow>
          int (length mid) \<le> ta_window (po_adapter s) + 1 \<longrightarrow> distinct (handled mid))"

lemma window_invD:
  "window_inv s \<Longrightarrow> po_out s = pre @ mid @ post \<Longrightarrow>
     int (length mid) \<le> ta_window (po_adapter s) + 1 \<Longrightarrow> distinct (handled mid)"
  by (simp only: window_inv_def)

lemma last_n_suffix: "length mid \<le> n \<Longrightarrow> \<exists>p. last_n n (pre @ mid) = p @ mid"
  unfolding last_n_def by (rule exI [of _ "drop (length (pre @ mid) - n) pre"]) auto

lemma window_step:
  assumes "window_inv s" shows "window_inv (poll_update oi cu s)"
proof -
  obtain now now' u where cu: "cu = (now, now', u)" by (cases cu)
  obtain r t where h: "handle_update now now' u (po_adapter s) = (r, t)" by fastforce
  let ?W = "ta_window (po_adapter s)"
  show ?thesis
  proof (cases "po_stop s = None")
    case False
    with assms show ?thesis by simp
  next
    case True
    note step = handle_update_dedupe [OF _ h, of "po_out s"]
    have inv: "dedupe_inv (po_adapter s) (po_out s)" using assms by (simp add: window_inv_def)
    have "distinct (handled mid)"
      if e: "po_out s @ [(tu_id u, r)] = pre @ mid @ post" and l: "int (length mid) \<le> ?W + 1"
      for pre mid post
    proof (cases "post = []")
      case False
      then have "po_out s = pre @ mid @ butlast post" using e by (metis butlast_append butlast_snoc append_is_Nil_conv)
      then show ?thesis using assms l by (auto simp: window_inv_def)
    next
      case True
      show ?thesis
      proof (cases "mid = []")
        case False
        define m where "m = butlast mid"
        then have mid: "mid = m @ [(tu_id u, r)]" and out: "po_out s = pre @ m"
          using e True False by (metis append.right_neutral append_butlast_last_id butlast_append
              butlast_snoc last_appendR last_snoc)+
        have "int (length m) \<le> ?W" using l mid by simp
        then have "\<exists>p. last_n (nat ?W) (po_out s) = p @ m"
          using out last_n_suffix [of m "nat ?W" pre] by auto
        moreover have "distinct (handled m)"
          using window_invD [OF assms, of pre m "[]"] out \<open>int (length m) \<le> ?W\<close> by simp
        ultimately have "distinct (handled m)" "\<exists>p. last_n (nat ?W) (po_out s) = p @ m"
          by blast+
        with step [OF inv] show ?thesis by (auto simp: mid)
      qed simp
    qed
    with step [OF inv] True show ?thesis
      by (simp add: cu window_inv_def poll_update_fields [OF True h])
  qed
qed

lemma dedupe_new: "dedupe_inv (ensure_bot_username g (new_telegram_adapter token o')) []"
  by (simp add: dedupe_inv_def ensure_bot_username_def new_telegram_adapter_def Let_def last_n_def
      split: sum.splits)

text \<open>
  C11: an update is not handled twice. However the batches overlap, whatever fails and however
  often an update is delivered again, no update with a positive id has an effect twice within
  any run of updates as long as the dedupe window and one more; the memory of the adapter
  never exceeds the window, and the set and the queue of ids stay in step.
\<close>

theorem updates_handled_once:
  assumes "polling oi (start_polling g (new_telegram_adapter token o') w) s"
    and "po_out s = pre @ mid @ post" and "int (length mid) \<le> ta_window (po_adapter s) + 1"
  shows "distinct (handled mid) \<and> ta_seen (po_adapter s) = set (ta_order (po_adapter s))
    \<and> int (length (ta_order (po_adapter s))) \<le> ta_window (po_adapter s)"
proof -
  from assms(1) have "window_inv s"
  proof (rule polling_invariant)
    show "window_inv (start_polling g (new_telegram_adapter token o') w)"
      using dedupe_new [of g token o'] by (simp add: window_inv_def start_polling_def)
    show "window_inv x \<Longrightarrow> window_inv (poll_update oi cu x)" for x cu by (rule window_step)
    show "window_inv x \<Longrightarrow> window_inv (x\<lparr>po_stop := e\<rparr>)" for x e by (simp add: window_inv_def)
  qed
  from window_invD [OF this assms(2,3)] this show ?thesis
    by (simp add: window_inv_def dedupe_inv_def)
qed

definition demo_hooks :: "unit poll_hooks" where
  "demo_hooks = \<lparr>ph_inbound = (\<lambda>_ w. (None, w)), ph_send = (\<lambda>_ w. (None, w))\<rparr>"

definition demo_update :: tg_update where
  "demo_update = \<lparr>tu_id = 5, tu_msg = Some \<lparr>tm_thread = 0, tm_text = ''hi'', tm_chat = 9,
     tm_type = ''private'', tm_from = Some (9, False)\<rparr>\<rparr>"

theorem updates_handled_once_witness:
  "distinct (handled (po_out (poll_batch demo_hooks
     [(GTime 1, GTime 1, demo_update), (GTime 2, GTime 2, demo_update)]
     (start_polling (Inl ''offline'') (new_telegram_adapter ''tok'' None) ()))))"
proof -
  let ?s0 = "start_polling (Inl ''offline'') (new_telegram_adapter ''tok'' None) ()"
  let ?us = "[(GTime 1, GTime 1, demo_update), (GTime 2, GTime 2, demo_update)]"
  have "po_stop ?s0 = None" by (simp add: start_polling_def)
  from polling.fetched [OF polling.start this]
  have p: "polling demo_hooks ?s0 (poll_batch demo_hooks ?us ?s0)" .
  have l: "int (length (po_out (poll_batch demo_hooks ?us ?s0)))
      \<le> ta_window (po_adapter (poll_batch demo_hooks ?us ?s0)) + 1" by code_simp
  from updates_handled_once [OF p, of "[]" _ "[]"] l show ?thesis by simp
qed

text \<open>
  An update that was acknowledged is not asked for again. The offset never goes back, and
  it is past the id of every update looked at, unless that id is the largest \<open>int\<close>.
\<close>

theorem polling_offset_past_updates:
  fixes s0 :: "'a poll_state"
  assumes "polling oi s0 s" and "po_out s0 = []"
    and "\<forall>(u, r) \<in> set (po_out s). u < max_int64 \<and> min_int64 \<le> u"
  shows "po_offset s0 \<le> po_offset s \<and> (\<forall>(u, r) \<in> set (po_out s). u < po_offset s)"
proof -
  define J :: "'a poll_state \<Rightarrow> bool" where "J x \<longleftrightarrow> ((\<forall>(u, r) \<in> set (po_out x). u < max_int64 \<and> min_int64 \<le> u) \<longrightarrow>
      po_offset s0 \<le> po_offset x \<and> (\<forall>(u, r) \<in> set (po_out x). u < po_offset x))" for x
  from assms(1) have "J s"
  proof (rule polling_invariant)
    show "J s0" using assms(2) by (simp add: J_def)
    show "J (x\<lparr>po_stop := e\<rparr>)" if "J x" for x e using that by (simp add: J_def)
    show "J (poll_update oi cu x)" if "J x" for x cu
    proof -
      obtain now now' u where cu: "cu = (now, now', u)" by (cases cu)
      have "wrap64 (tu_id u + 1) = tu_id u + 1" if "tu_id u < max_int64" "min_int64 \<le> tu_id u"
        using that by (intro wrap64_id) auto
      with that show ?thesis
        by (auto simp: J_def poll_update_def cu next_offset_def split: prod.splits)
    qed
  qed
  with assms(3) show ?thesis by (simp add: J_def)
qed

theorem polling_offset_past_updates_witness:
  "5 < po_offset (poll_batch demo_hooks [(GTime 1, GTime 1, demo_update)]
     (start_polling (Inl ''offline'') (new_telegram_adapter ''tok'' None) ()))"
proof -
  let ?s0 = "start_polling (Inl ''offline'') (new_telegram_adapter ''tok'' None) ()"
  let ?us = "[(GTime 1, GTime 1, demo_update)]"
  have "po_stop ?s0 = None" and o0: "po_out ?s0 = []" by (simp_all add: start_polling_def)
  from polling.fetched [OF polling.start this(1)]
  have p: "polling demo_hooks ?s0 (poll_batch demo_hooks ?us ?s0)" .
  have ids: "map fst (po_out (poll_batch demo_hooks ?us ?s0)) = [5]" by code_simp
  then obtain r where o1: "po_out (poll_batch demo_hooks ?us ?s0) = [(5, r)]"
    by (auto simp: map_eq_Cons_conv)
  then have "\<forall>(u, r) \<in> set (po_out (poll_batch demo_hooks ?us ?s0)). u < max_int64 \<and> min_int64 \<le> u"
    by (simp add: max_int64_def min_int64_def)
  from polling_offset_past_updates [OF p o0 this] o1 show ?thesis by simp
qed


text \<open>
  The help command needs no slash. The slash is cut off if there is one and not asked for,
  so an ordinary sentence that begins with the word help, or start, is answered with the help
  text and never reaches an agent.
\<close>

theorem help_word_intercepted:
  "map (is_help_or_start_command demo_telegram)
     [''help me write a letter'', ''Start with the summary'', ''/start'', ''please help'']
   = [True, True, True, False]"
  by code_simp

end
