(* ===== verification/Daemon.thy ===== *)
theory Daemon
  imports Ws Telegram McpCalls
begin

text \<open>
  \<open>cmd/nisixd/main.go\<close>: how the daemon is put together from its configuration, and its HTTP
  endpoint for inbound messages. What the daemon is started on (the model service, the MCP
  servers, the shell, the channels) is one record of arguments. A \<open>log.Fatalf\<close> is an error; it ends
  the process without running the deferred calls, so the MCP clients that were started and not
  closed are part of the result.
\<close>

section \<open>Helpers of the start\<close>

definition resolve_workspace :: "config \<Rightarrow> fs \<Rightarrow> (go_error + string) \<times> fs" where
  "resolve_workspace cfg s =
     (case find (\<lambda>a. equal_fold (ac_id a) (cf_default_id cfg)) (cf_agents cfg) of
        None \<Rightarrow> (Inl (''default agent '' @ cf_default_id cfg @ '' not found''), s)
      | Some a \<Rightarrow>
          if ac_workspace a = [] then (Inl (''agent '' @ ac_id a @ '' workspace is empty''), s)
          else (case mkdir_all (ac_workspace a) s of
                  Inl e \<Rightarrow> (Inl (io_msg e), s)
                | Inr s' \<Rightarrow> (Inr (ac_workspace a), s')))"

definition map_skills_entries :: "(string \<times> bool option) list \<Rightarrow> (string \<times> bool option) list" where
  "map_skills_entries es = fold (\<lambda>(n, e) out. put n e out) es []"

datatype model_choice = EchoModel | OpenAiModel openai_client | OllamaModel ollama_client

definition build_model_client :: "model_config \<Rightarrow> go_error + model_choice" where
  "build_model_client c =
     (let p = to_lower (trim_space (moc_provider c))
      in if p = [] \<or> p = ''echo'' then Inr EchoModel
         else if p = ''openai'' \<or> p = ''codex'' then
           map_sum id OpenAiModel (new_openai (moc_openai_key c) (moc_openai_url c) (moc_openai_model c) [])
         else if p = ''ollama'' then
           map_sum id OllamaModel (new_ollama (moc_ollama_url c) (moc_ollama_model c) [])
         else Inl (''unknown model.provider: '' @ moc_provider c))"

section \<open>What the daemon runs on\<close>

record ('c, 'x) surroundings =
  os_cwd :: string
  os_exec :: "string \<Rightarrow> string \<Rightarrow> int \<Rightarrow> 'x world \<Rightarrow> command_run \<times> 'x world"
  os_rfc :: "'x world \<Rightarrow> string \<times> 'x world"
  os_servers :: "string \<Rightarrow> go_error + (string \<times> server_config) list"
  os_start :: "string \<Rightarrow> server_config \<Rightarrow> go_error + 'c"
  os_tools :: "'c \<Rightarrow> go_error + remote_tool list"
  os_call :: "'c \<Rightarrow> string \<Rightarrow> gomap \<Rightarrow> 'x world \<Rightarrow> (go_error + goany) \<times> 'x world"
  os_model :: "'x world model_http"
  os_openai :: "string \<Rightarrow> go_error + openai_response"
  os_ollama :: "string \<Rightarrow> go_error + ollama_response"
  os_print :: "outbound \<Rightarrow> 'x \<Rightarrow> 'x"
  os_bot :: "telegram \<Rightarrow> send_body \<Rightarrow> 'x
      \<Rightarrow> ((nat \<Rightarrow> http_error + string) \<times> (nat \<Rightarrow> go_error option)) \<times> 'x"
  os_enc_state :: "onboarding \<Rightarrow> go_error + string"
  os_dec_state :: "string \<Rightarrow> go_error + onboarding"
  os_dec_store :: "string \<Rightarrow> go_error + (string \<times> entry) list"

definition model_of ::
    "('c, 'x) surroundings \<Rightarrow> model_choice \<Rightarrow> model_request \<Rightarrow> 'x world \<Rightarrow> (go_error + string) \<times> 'x world" where
  "model_of os m r w =
     (case m of
        EchoModel \<Rightarrow> (Inr (echo_generate r), w)
      | OpenAiModel c \<Rightarrow> openai_generate c (os_model os) (os_openai os) r w
      | OllamaModel c \<Rightarrow> ollama_generate c (os_model os) (os_ollama os) r w)"

definition profile_options_of :: "config \<Rightarrow> profile_options" where
  "profile_options_of cfg =
     \<lparr>px_mode = pc_update_mode (cf_profile cfg), px_auto = switch_value (pc_auto_detect (cf_profile cfg)),
      px_files = pc_allowed (cf_profile cfg), px_max = pc_max_bytes (cf_profile cfg), px_ttl = 600 * second_ns\<rparr>"

definition skills_conf_of :: "config \<Rightarrow> skills_conf" where
  "skills_conf_of cfg =
     \<lparr>sc_enabled = switch_value (skc_enabled (cf_skills cfg)), sc_auto = switch_value (skc_auto_match (cf_skills cfg)),
      sc_max = skc_max_injected (cf_skills cfg), sc_allow = skc_allowlist (cf_skills cfg),
      sc_entries = map_skills_entries (skc_entries (cf_skills cfg)), sc_body_max = skc_max_body (cf_skills cfg)\<rparr>"

definition policy_of :: "config \<Rightarrow> policy" where
  "policy_of cfg = \<lparr>po_allow = tcf_allow (cf_tools cfg), po_deny = tcf_deny (cf_tools cfg)\<rparr>"

definition manager_of :: "config \<Rightarrow> manager" where
  "manager_of cfg = set_context_budget \<lparr>bu_history = sc_history_limit (cf_session cfg),
       bu_summary = sc_summary_max (cf_session cfg), bu_line = sc_summary_line (cf_session cfg)\<rparr>
     (new_manager (path_join [sc_state_dir (cf_session cfg), ''transcripts'']))"

section \<open>Starting\<close>

definition own_tools :: "('c, 'x) surroundings \<Rightarrow> string \<Rightarrow> 'x world registry" where
  "own_tools os ws =
     reg_register (shell_tool_of (os_cwd os) fst (os_exec os) (new_shell_tool ws))
       (reg_register (now_tool (os_rfc os)) new_registry)"

text \<open>The MCP servers, when they are enabled: the manager, and the load with its registry.\<close>

definition start_mcp ::
    "('c, 'x) surroundings \<Rightarrow> config \<Rightarrow> fs \<Rightarrow> 'x world registry
      \<Rightarrow> (go_error + 'c mcp_manager option \<times> int) \<times> ('c, 'x world) load_state" where
  "start_mcp os cfg s reg =
     (if switch_value (mc_enabled (cf_mcp cfg))
      then register_from_file (os_servers os) (os_start os) (os_tools os) (os_call os) s
             (mc_file (cf_mcp cfg)) (mc_prefix (cf_mcp cfg)) reg
      else (Inr (None, 0), start_state [] [] reg))"

definition live_clients :: "('c, 'w) load_state \<Rightarrow> 'c list" where
  "live_clients l = filter (\<lambda>c. c \<notin> set (ld_closed l)) (mm_clients (ld_manager l))"

definition daemon_runtime ::
    "('c, 'x) surroundings \<Rightarrow> config \<Rightarrow> string \<Rightarrow> fs \<Rightarrow> 'x world registry \<Rightarrow> 'c mcp_manager option \<Rightarrow> model_choice
      \<Rightarrow> ('c, 'x) runtime" where
  "daemon_runtime os cfg ws s reg mo m =
     set_options (cf_memory_scope cfg) (pc_update_mode (cf_profile cfg))
       \<lparr>ru_tools = reg, ru_policy = policy_of cfg, ru_mcp = Some mo, ru_memory = Some ws,
        ru_identity = identity_service_load ws s, ru_soul = soul_load ws s, ru_workspace = ws,
        ru_bootstrap = Some ws, ru_profile = Some (new_profile ws (profile_options_of cfg)),
        ru_skills = Some (new_skills (skills_conf_of cfg)), ru_model = Some (model_of os m),
        ru_scope = [], ru_mode = [], ru_auto = switch_value (pc_auto_detect (cf_profile cfg))\<rparr>"

text \<open>
  The adapter \<open>main\<close> makes for an account, and what the senders of the hub do with a message: the
  default sender prints it, an adapter calls the Bot API for each piece of it. What the attempts of
  a call give, and whether the context ends in between, comes from the surroundings.
\<close>

definition adapter_of :: "telegram_config \<Rightarrow> telegram" where
  "adapter_of t = new_telegram_adapter (tg_token t)
     (Some \<lparr>to_account = normalize_account_id (tg_account t), to_base = [], to_username = tg_username t,
        to_auto = switch_value (tg_auto_username t), to_require = switch_value (tg_require_mention t),
        to_help = switch_value (tg_help t), to_interval_ms = tg_interval_ms t, to_window = tg_dedupe t,
        to_mode = tg_mode t, to_users = tg_users t, to_chats = tg_chats t\<rparr>)"

definition bot_call ::
    "('c, 'x) surroundings \<Rightarrow> telegram \<Rightarrow> send_body \<Rightarrow> 'x \<Rightarrow> go_error option \<times> 'x" where
  "bot_call os t b x =
     (case os_bot os t b x of ((http, stopped), x') \<Rightarrow>
        (case telegram_call t http stopped of
           (Inl e, _) \<Rightarrow> (Some e, x')
         | (Inr _, _) \<Rightarrow> (None, x')))"

definition sender_of ::
    "('c, 'x) surroundings \<Rightarrow> telegram_config option \<Rightarrow> outbound \<Rightarrow> 'x \<Rightarrow> go_error option \<times> 'x" where
  "sender_of os d msg x =
     (case d of
        None \<Rightarrow> (None, os_print os msg x)
      | Some t \<Rightarrow> telegram_send (bot_call os (adapter_of t)) msg x)"

definition daemon_server :: "('c, 'x) surroundings \<Rightarrow> config \<Rightarrow> string \<Rightarrow> 'x server" where
  "daemon_server os cfg ws =
     \<lparr>sr_token = gc_token (cf_gateway cfg), sr_config = cfg,
      sr_send = hub_send (sender_of os) (daemon_hub None Some cfg),
      sr_manager = Some (manager_of cfg), sr_workspace = ws\<rparr>"

type_synonym ('c, 'x) daemon = "'x server \<times> ('c, file_store, 'x) gateway"

definition start_daemon ::
    "('c, 'x) surroundings \<Rightarrow> gtime \<Rightarrow> string \<Rightarrow> config \<Rightarrow> fs \<Rightarrow> 'x
      \<Rightarrow> (go_error + ('c, 'x) daemon) \<times> fs \<times> 'c list" where
  "start_daemon os now rfc cfg s x =
     (case resolve_workspace cfg s of
        (Inl e, s1) \<Rightarrow> (Inl (''resolve workspace: '' @ e), s1, [])
      | (Inr ws, s1) \<Rightarrow>
          (case ensure_layout (os_enc_state os) (os_dec_state os) now rfc ws (switch_value (cf_templates cfg))
                  (cf_template_dir cfg) s1 of
             (Some e, s2) \<Rightarrow> (Inl (''ensure workspace layout: '' @ e), s2, [])
           | (None, s2) \<Rightarrow>
               (case new_file_store (os_dec_store os)
                       (path_join [sc_state_dir (cf_session cfg), ''sessions.json'']) s2 of
                  Inl e \<Rightarrow> (Inl (''create session store: '' @ e), s2, [])
                | Inr st \<Rightarrow>
                    (case start_mcp os cfg s2 (own_tools os ws) of
                       (Inl e, l) \<Rightarrow> (Inl (''load mcp tools: '' @ e), s2, live_clients l)
                     | (Inr (mo, n), l) \<Rightarrow>
                         (case build_model_client (cf_model cfg) of
                            Inl e \<Rightarrow> (Inl (''build model client: '' @ e), s2, live_clients l)
                          | Inr m \<Rightarrow>
                              (Inr (daemon_server os cfg ws,
                                    \<lparr>gw_runtime = daemon_runtime os cfg ws s2 (ld_reg l) mo m,
                                     gw_sess = \<lparr>ss_store = st, ss_fs = s2\<rparr>, gw_rest = x\<rparr>),
                               s2, live_clients l))))))"

section \<open>The inbound endpoint\<close>

record inbound_request =
  ir_token :: string
  ir_channel :: string
  ir_account :: string
  ir_peer :: string
  ir_peer_type :: string
  ir_user :: string
  ir_text :: string
  ir_thread :: string

definition endpoint_message :: "gtime \<Rightarrow> inbound_request \<Rightarrow> inbound" where
  "endpoint_message now r =
     \<lparr>im_channel = ir_channel r, im_account = ir_account r, im_peer = ir_peer r,
      im_peer_type = parse_peer_type (ir_peer_type r), im_user = ir_user r, im_text = ir_text r,
      im_thread = ir_thread r, im_run = [], im_at = now\<rparr>"

text \<open>The status, the error text and the gateway; decoding the body is an argument.\<close>

definition inbound_endpoint ::
    "'x server \<Rightarrow> run_env \<Rightarrow> 's session_env \<Rightarrow> (nat \<Rightarrow> gtime) \<Rightarrow> gtime \<Rightarrow> (string \<Rightarrow> go_error + inbound_request)
      \<Rightarrow> string \<Rightarrow> string \<Rightarrow> ('c, 's, 'x) gateway \<Rightarrow> (int \<times> go_error option) \<times> ('c, 's, 'x) gateway" where
  "inbound_endpoint sv en se clock now dec verb body g =
     (if verb \<noteq> ''POST'' then ((405, Some ''method not allowed''), g)
      else (case dec body of
              Inl e \<Rightarrow> ((400, Some e), g)
            | Inr r \<Rightarrow>
                (case handle_inbound sv en se clock (ir_token r) (endpoint_message now r) g of
                   ((Some e, _), g') \<Rightarrow> ((401, Some e), g')
                 | ((None, _), g') \<Rightarrow> ((200, None), g'))))"
section \<open>What a started daemon has\<close>

lemma callable_ok: "tool_name_ok n \<Longrightarrow> callable n"
  by (auto simp: tool_name_ok_def callable_def name_char_def call_char_def lower_letter_def)

lemma own_tools_names: "set (reg_list (own_tools os ws)) = {''time_now'', ''shell''}"
  by (auto simp: own_tools_def new_registry_def reg_register_def reg_list_def keys_put now_tool_def shell_tool_of_def)

lemma own_tools_get:
  "reg_get (own_tools os ws) ''shell'' = Some (shell_tool_of (os_cwd os) fst (os_exec os) (new_shell_tool ws))"
  "reg_get (own_tools os ws) ''time_now'' = Some (now_tool (os_rfc os))"
  by (simp_all add: own_tools_def new_registry_def reg_register_def reg_get_def now_tool_def shell_tool_of_def)

lemma load_servers_closed:
  "load_servers start lister call svs l = (None, l') \<Longrightarrow> ld_closed l' = ld_closed l"
proof (induction start lister call svs l rule: load_servers.induct)
  case (2 start lister call name cfg rest l)
  have "ld_closed (register_tools call c n t rts x) = ld_closed x" for c n t rts x
    unfolding register_tools_def by (induction rts arbitrary: x) (auto simp: register_tool_def Let_def)
  with 2 show ?case by (auto simp: add_server_def split: sum.splits)
qed simp

lemma start_state_closed [simp]: "ld_closed (start_state path pre reg) = []"
  by (simp add: start_state_def)

lemma start_mcp_inv: "start_mcp os cfg s reg = (r, l) \<Longrightarrow> load_inv reg l"
  by (auto simp: start_mcp_def load_inv_start intro: register_from_file_inv split: if_splits)

lemma load_inv_callable:
  assumes "load_inv (own_tools os ws) l" "n \<in> set (reg_list (ld_reg l))"
  shows "callable n"
proof -
  have "callable ''time_now''" "callable ''shell''"
    by (simp_all add: callable_def lower_letter_def call_char_def is_digit_def less_eq_char_def)
  moreover have "set (reg_list (ld_reg l)) = {''time_now'', ''shell''} \<union> tm_local ` set (mm_tools (ld_manager l))"
    "\<forall>m \<in> set (mm_tools (ld_manager l)). tool_name_ok (tm_local m)"
    using assms(1) unfolding load_inv_def own_tools_names by blast+
  ultimately show ?thesis using assms(2) callable_ok by auto
qed

lemma resolve_workspace_agent:
  assumes "resolve_workspace cfg s = (Inr ws, s')"
  shows "ws \<noteq> [] \<and> (\<exists>a \<in> set (cf_agents cfg). equal_fold (ac_id a) (cf_default_id cfg) \<and> ac_workspace a = ws)"
proof -
  obtain a where f: "find (\<lambda>a. equal_fold (ac_id a) (cf_default_id cfg)) (cf_agents cfg) = Some a"
    and a: "ac_workspace a = ws" "ws \<noteq> []"
    using assms by (auto simp: resolve_workspace_def split: option.splits if_splits sum.splits)
  from f have "a \<in> set (cf_agents cfg)" "equal_fold (ac_id a) (cf_default_id cfg)"
    by (auto simp: find_Some_iff)
  with a show ?thesis by blast
qed

lemma daemon_runtime_fields [simp]:
  "ru_tools (daemon_runtime os cfg ws s reg mo m) = reg"
  "ru_policy (daemon_runtime os cfg ws s reg mo m) = policy_of cfg"
  "ru_workspace (daemon_runtime os cfg ws s reg mo m) = ws"
  "ru_mcp (daemon_runtime os cfg ws s reg mo m) = Some mo"
  by (simp_all add: daemon_runtime_def set_options_def)

text \<open>The parts a successful start goes through.\<close>

lemma start_daemon_ok:
  assumes "start_daemon os now rfc cfg s x = (Inr (sv, g), s', live)"
  obtains ws s1 l mo n m where "resolve_workspace cfg s = (Inr ws, s1)"
    "start_mcp os cfg s' (own_tools os ws) = (Inr (mo, n), l)" "build_model_client (cf_model cfg) = Inr m"
    "sv = daemon_server os cfg ws" "gw_runtime g = daemon_runtime os cfg ws s' (ld_reg l) mo m"
    "live = live_clients l"
  using assms by (auto simp: start_daemon_def split: prod.splits sum.splits option.splits)

lemma started_tools:
  assumes "start_daemon os now rfc cfg s x = (Inr (sv, g), s', live)"
  shows "\<exists>a \<in> set (cf_agents cfg). equal_fold (ac_id a) (cf_default_id cfg)
      \<and> ru_workspace (gw_runtime g) = ac_workspace a
      \<and> reg_get (ru_tools (gw_runtime g)) ''shell''
          = Some (shell_tool_of (os_cwd os) fst (os_exec os) (new_shell_tool (ac_workspace a)))
      \<and> reg_get (ru_tools (gw_runtime g)) ''time_now'' = Some (now_tool (os_rfc os))
      \<and> (\<forall>n \<in> set (reg_list (ru_tools (gw_runtime g))).
           callable n \<and> (\<forall>a. call_args a \<longrightarrow> match_call (print_call n a) = Some (n, a)))
      \<and> ru_policy (gw_runtime g) = policy_of cfg \<and> sr_token sv = gc_token (cf_gateway cfg)"
proof -
  obtain ws s1 l mo n m where p: "resolve_workspace cfg s = (Inr ws, s1)"
    "start_mcp os cfg s' (own_tools os ws) = (Inr (mo, n), l)" "sv = daemon_server os cfg ws"
    "gw_runtime g = daemon_runtime os cfg ws s' (ld_reg l) mo m"
    using assms by (rule start_daemon_ok)
  have inv: "load_inv (own_tools os ws) l" using start_mcp_inv [OF p(2)] .
  then have keep: "\<forall>n \<in> {''time_now'', ''shell''}. reg_get (ld_reg l) n = reg_get (own_tools os ws) n"
    by (simp add: load_inv_def own_tools_names)
  obtain a where a: "a \<in> set (cf_agents cfg)" "equal_fold (ac_id a) (cf_default_id cfg)" "ac_workspace a = ws"
    using resolve_workspace_agent [OF p(1)] by blast
  have "callable n \<and> (\<forall>a. call_args a \<longrightarrow> match_call (print_call n a) = Some (n, a))"
    if "n \<in> set (reg_list (ld_reg l))" for n
    using load_inv_callable [OF inv that] match_call_print by blast
  with keep a show ?thesis
    by (intro bexI [OF _ a(1)]) (simp add: p(3,4) own_tools_get daemon_server_def)
qed

text \<open>
  Whatever the MCP servers offer, a daemon that starts keeps its own tools and can be asked for
  every tool it has. The workspace is that of the default agent; \<open>shell\<close> is the daemon's shell,
  confined to that workspace, and \<open>time_now\<close> its clock, whatever names the servers use;
  every registered name can be written in a reply of the model and is then recognised as
  a call; and the token and the policy are those of the configuration.
\<close>

theorem daemon_keeps_own_tools:
  assumes "start_daemon os now rfc cfg s x = (Inr (sv, g), s', live)"
  shows "\<exists>a \<in> set (cf_agents cfg). equal_fold (ac_id a) (cf_default_id cfg)
      \<and> ru_workspace (gw_runtime g) = ac_workspace a
      \<and> reg_get (ru_tools (gw_runtime g)) ''shell''
          = Some (shell_tool_of (os_cwd os) fst (os_exec os) (new_shell_tool (ac_workspace a)))
      \<and> reg_get (ru_tools (gw_runtime g)) ''time_now'' = Some (now_tool (os_rfc os))
      \<and> (\<forall>n \<in> set (reg_list (ru_tools (gw_runtime g))).
           callable n \<and> (\<forall>a. call_args a \<longrightarrow> match_call (print_call n a) = Some (n, a)))
      \<and> ru_policy (gw_runtime g) = policy_of cfg \<and> sr_token sv = gc_token (cf_gateway cfg)"
  using assms by (rule started_tools)

text \<open>
  A start that fails after the MCP servers were started leaves them running. When the file of
  servers loads and the model client cannot be built, the daemon ends with an error and none of
  the clients it started is closed.
\<close>

theorem failed_start_leaks_clients:
  assumes "resolve_workspace cfg s = (Inr ws, s1)"
    and "ensure_layout (os_enc_state os) (os_dec_state os) now rfc ws (switch_value (cf_templates cfg))
           (cf_template_dir cfg) s1 = (None, s2)"
    and "new_file_store (os_dec_store os) (path_join [sc_state_dir (cf_session cfg), ''sessions.json'']) s2 = Inr st"
    and "start_mcp os cfg s2 (own_tools os ws) = (Inr (Some mm, n), l)"
    and "build_model_client (cf_model cfg) = Inl e"
  shows "start_daemon os now rfc cfg s x = (Inl (''build model client: '' @ e), s2, mm_clients mm)"
proof -
  have "ld_closed l = [] \<and> ld_manager l = mm"
    using assms(4) by (auto simp: start_mcp_def register_from_file_def Let_def dest!: load_servers_closed
        split: if_splits sum.splits io_error.splits prod.splits option.splits)
  with assms show ?thesis by (simp add: start_daemon_def live_clients_def)
qed
section \<open>A daemon that starts\<close>

definition demo_surroundings :: "(string, unit) surroundings" where
  "demo_surroundings =
     \<lparr>os_cwd = ''/srv'', os_exec = (\<lambda>_ _ _ w. (\<lparr>cr_stdout = [], cr_stderr = [], cr_end = RanOk, cr_timed_out = False\<rparr>, w)),
      os_rfc = Pair ''now'', os_servers = (\<lambda>_. Inr [(''Files'', Mcp.demo_server)]), os_start = (\<lambda>n _. Inr n),
      os_tools = (\<lambda>_. Inr [\<lparr>rm_name = ''shell'', rm_desc = [], rm_schema = None\<rparr>]),
      os_call = (\<lambda>_ _ _ w. (Inr VNil, w)), os_model = (\<lambda>_ w. (Inl ''offline'', w)), os_openai = (\<lambda>_. Inl ''none''),
      os_ollama = (\<lambda>_. Inl ''none''), os_print = (\<lambda>_ x. x), os_bot = (\<lambda>_ _ x. ((\<lambda>_. Inr [], \<lambda>_. None), x)), os_enc_state = demo_ob_enc,
      os_dec_state = demo_ob_dec, os_dec_store = (\<lambda>_. Inr [])\<rparr>"

definition demo_config :: config where
  "demo_config = sample_config\<lparr>cf_default_id := ''MAIN'', cf_mcp := \<lparr>mc_enabled = None, mc_file = ''mcp.json'', mc_prefix = []\<rparr>,
     cf_tools := \<lparr>tcf_allow = [], tcf_deny = [''shell'']\<rparr>\<rparr>"

definition demo_disk :: fs where "demo_disk = plain_fs [(''mcp.json'', ''{}'')]"

definition demo_start where
  "demo_start = start_daemon demo_surroundings (GTime 1) ''t'' demo_config demo_disk ()"

lemma demo_start_ok:
  "(case fst demo_start of Inl _ \<Rightarrow> False
    | Inr (sv, g) \<Rightarrow> reg_list (ru_tools (gw_runtime g)) = [''mcp_files_shell'', ''shell'', ''time_now''])"
  by code_simp
theorem daemon_keeps_own_tools_witness:
  "(case fst demo_start of Inl _ \<Rightarrow> False
    | Inr (sv, g) \<Rightarrow> ''mcp_files_shell'' \<in> set (reg_list (ru_tools (gw_runtime g)))
        \<and> callable ''mcp_files_shell'' \<and> ru_workspace (gw_runtime g) = ''ws'')"
proof (cases "fst demo_start")
  case (Inl e)
  with demo_start_ok show ?thesis by simp
next
  case (Inr d)
  obtain sv g where d: "d = (sv, g)" by fastforce
  have n: "reg_list (ru_tools (gw_runtime g)) = [''mcp_files_shell'', ''shell'', ''time_now'']"
    using demo_start_ok Inr d by simp
  obtain s' live where "start_daemon demo_surroundings (GTime 1) ''t'' demo_config demo_disk () = (Inr (sv, g), s', live)"
    using Inr d by (metis demo_start_def prod.collapse)
  from daemon_keeps_own_tools [OF this] n have "callable ''mcp_files_shell''" "ru_workspace (gw_runtime g) = ''ws''"
    by (auto simp: demo_config_def sample_config_def)
  with n show ?thesis by (simp add: Inr d)
qed

definition bad_config :: config where
  "bad_config = demo_config\<lparr>cf_model := (cf_model demo_config)\<lparr>moc_provider := ''nope''\<rparr>\<rparr>"

theorem failed_start_leaks_clients_witness:
  "\<exists>e s2. start_daemon demo_surroundings (GTime 1) ''t'' bad_config demo_disk () = (Inl e, s2, [''Files''])"
proof -
  let ?r = "resolve_workspace bad_config demo_disk"
  let ?l = "ensure_layout (os_enc_state demo_surroundings) (os_dec_state demo_surroundings) (GTime 1) ''t'' ''ws''
    (switch_value (cf_templates bad_config)) (cf_template_dir bad_config) (snd ?r)"
  let ?st = "new_file_store (os_dec_store demo_surroundings)
    (path_join [sc_state_dir (cf_session bad_config), ''sessions.json'']) (snd ?l)"
  let ?m = "start_mcp demo_surroundings bad_config (snd ?l) (own_tools demo_surroundings ''ws'')"
  have "fst ?r = Inr ''ws''" by code_simp
  then have 1: "?r = (Inr ''ws'', snd ?r)" by (metis prod.collapse)
  have "fst ?l = None" by code_simp
  then have 2: "?l = (None, snd ?l)" by (metis prod.collapse)
  have "is_ok ?st" by code_simp
  then obtain st where 3: "?st = Inr st" by (auto simp: is_ok_iff)
  have "case fst ?m of Inr (Some mm, n) \<Rightarrow> mm_clients mm = [''Files''] | _ \<Rightarrow> False" by code_simp
  then obtain mm n where m: "fst ?m = Inr (Some mm, n)" "mm_clients mm = [''Files'']"
    by (auto split: sum.splits option.splits)
  then have 4: "?m = (Inr (Some mm, n), snd ?m)" by (metis prod.collapse)
  have "is_ok (build_model_client (cf_model bad_config)) = False" by code_simp
  then obtain e where 5: "build_model_client (cf_model bad_config) = Inl e"
    by (cases "build_model_client (cf_model bad_config)") auto
  from failed_start_leaks_clients [OF 1 2 3 4 5, of "()"] m(2) show ?thesis by auto
qed

section \<open>Every failure is unauthorized\<close>



end
