(* ===== verification/Service.thy ===== *)
theory Service
  imports Daemon Conversation
begin

text \<open>
  The running daemon, \<open>cmd/nisixd/main.go\<close> after the start: what its HTTP endpoints answer, and the
  goroutine that polls for one Telegram account and hands every message to the gateway, whose
  replies come back through the hub to the adapter of that account. The clock and the environment
  of a run may differ from message to message; the messages handed to the hub are kept as a trace.
\<close>

section \<open>The HTTP endpoints\<close>

datatype http_reply = JsonReply int "go_error option" | Upgraded | NotFound

text \<open>The patterns of the mux have no trailing slash, so each matches its own path only.\<close>

definition serve_http ::
    "'x server \<Rightarrow> run_env \<Rightarrow> 's session_env \<Rightarrow> (nat \<Rightarrow> gtime) \<Rightarrow> gtime \<Rightarrow> (string \<Rightarrow> go_error + inbound_request)
      \<Rightarrow> string \<Rightarrow> string \<Rightarrow> string \<Rightarrow> ('c, 's, 'x) gateway \<Rightarrow> http_reply \<times> ('c, 's, 'x) gateway" where
  "serve_http sv en se clock now dec path verb body g =
     (if path = ''/health'' then (JsonReply 200 None, g)
      else if path = ''/ws'' then (Upgraded, g)
      else if path = ''/inbound'' then
        (case inbound_endpoint sv en se clock now dec verb body g of
           ((status, err), g') \<Rightarrow> (JsonReply status err, g'))
      else (NotFound, g))"

section \<open>Polling for an account\<close>

record ('c, 'x) service =
  sv_gate :: "('c, file_store, 'x) gateway"
  sv_count :: nat
  sv_replies :: "outbound list"

record session_codec =
  kc_store :: "(string \<times> entry) list \<Rightarrow> go_error + string"
  kc_enc :: "msg_rec \<Rightarrow> go_error + string"
  kc_dec :: "string \<Rightarrow> msg_rec option"

definition file_session_env :: "session_codec \<Rightarrow> file_store session_env" where
  "file_session_env k = \<lparr>se_ops = file_ops (kc_store k), se_enc = kc_enc k, se_dec = kc_dec k\<rparr>"

text \<open>
  \<open>onInbound\<close>: the gateway, with the token of the configuration. A help message goes through the
  adapter itself.
\<close>

definition on_inbound ::
    "'x server \<Rightarrow> (nat \<Rightarrow> run_env) \<Rightarrow> session_codec \<Rightarrow> (nat \<Rightarrow> nat \<Rightarrow> gtime) \<Rightarrow> string
      \<Rightarrow> inbound \<Rightarrow> ('c, 'x) service \<Rightarrow> go_error option \<times> ('c, 'x) service" where
  "on_inbound sv en k clock token i w =
     (case handle_inbound sv (en (sv_count w)) (file_session_env k) (clock (sv_count w)) token i (sv_gate w) of
        ((r, seen, sent), g) \<Rightarrow>
          (r, w\<lparr>sv_gate := g, sv_count := Suc (sv_count w), sv_replies := sv_replies w @ sent\<rparr>))"

definition telegram_hooks ::
    "('c, 'x) surroundings \<Rightarrow> config \<Rightarrow> 'x server \<Rightarrow> (nat \<Rightarrow> run_env) \<Rightarrow> session_codec \<Rightarrow> (nat \<Rightarrow> nat \<Rightarrow> gtime)
      \<Rightarrow> telegram_config \<Rightarrow> ('c, 'x) service poll_hooks" where
  "telegram_hooks os cfg sv en k clock t =
     \<lparr>ph_inbound = on_inbound sv en k clock (gc_token (cf_gateway cfg)),
      ph_send = (\<lambda>m w. case telegram_send (bot_call os (adapter_of t)) m (gw_rest (sv_gate w)) of
         (e, x) \<Rightarrow> (e, w\<lparr>sv_gate := (sv_gate w)\<lparr>gw_rest := x\<rparr>\<rparr>))\<rparr>"

text \<open>The accounts \<open>main\<close> starts a goroutine for.\<close>

definition polled_accounts :: "config \<Rightarrow> telegram_config list" where
  "polled_accounts cfg = filter tg_polling (enabled_telegram cfg)"

section \<open>A reply goes back to its chat\<close>

lemma adapter_account [simp]: "ta_account (adapter_of t) = telegram_id t"
proof -
  have "trim_space ''default'' = ''default''" by code_simp
  then have "telegram_id t \<noteq> []" "trim_space (telegram_id t) = telegram_id t"
    by (simp_all add: telegram_id_def normalize_account_id_def Let_def)
  then show ?thesis
    by (simp add: adapter_of_def new_telegram_adapter_def Let_def text_or_default_def flip: telegram_id_def)
qed

text \<open>What the gateway was given for account \<open>t\<close>, and what it answered: the trace up to a state.\<close>

definition answers :: "telegram_config \<Rightarrow> int \<times> outcome \<Rightarrow> outbound \<Rightarrow> bool" where
  "answers t d out =
     (case snd d of
        Deliver i \<Rightarrow> om_channel out = ''telegram'' \<and> om_account out = telegram_id t
          \<and> om_target out = im_peer i \<and> om_thread out = im_thread i \<and> (\<exists>c. im_peer i = itoa c)
      | _ \<Rightarrow> False)"

definition traced :: "telegram_config \<Rightarrow> ('c, 'x) service poll_state \<Rightarrow> bool" where
  "traced t s \<longleftrightarrow> ta_account (po_adapter s) = telegram_id t
     \<and> (\<forall>out \<in> set (sv_replies (po_world s)). \<exists>d \<in> set (po_out s). answers t d out)"

lemma traced_update:
  assumes "traced t s"
  shows "traced t (poll_update (telegram_hooks os cfg sv en k clock t) cu s)"
proof (cases "po_stop s")
  case (Some e)
  with assms show ?thesis by simp
next
  case None
  let ?h = "telegram_hooks os cfg sv en k clock t"
  obtain now now' u where cu: "cu = (now, now', u)" by (cases cu)
  obtain r a where h: "handle_update now now' u (po_adapter s) = (r, a)" by fastforce
  have acc: "ta_account a = telegram_id t" "ta_account (po_adapter s) = telegram_id t"
    using handle_update_account [OF h] assms by (simp_all add: traced_def)
  note f = poll_update_fields [OF None h, of ?h]
  have old: "\<exists>d \<in> set (po_out s @ [(tu_id u, r)]). answers t d out"
    if "out \<in> set (sv_replies (po_world s))" for out
    using that assms by (auto simp: traced_def)
  have "\<exists>d \<in> set (po_out s @ [(tu_id u, r)]). answers t d out"
    if out: "out \<in> set (sv_replies (snd (act_on ?h r (po_world s))))" for out
  proof (cases r)
    case (Deliver i)
    let ?n = "sv_count (po_world s)"
    obtain e seen sent g where hi: "handle_inbound sv (en ?n) (file_session_env k) (clock ?n)
        (gc_token (cf_gateway cfg)) i (sv_gate (po_world s)) = ((e, seen, sent), g)"
      by (metis prod.exhaust)
    then have "set (sv_replies (snd (act_on ?h r (po_world s)))) = set (sv_replies (po_world s)) \<union> set sent"
      by (simp add: act_on_def Deliver telegram_hooks_def on_inbound_def)
    with out consider "out \<in> set (sv_replies (po_world s))" | "out \<in> set sent" by blast
    then show ?thesis
    proof cases
      case 2
      with handled_inbound [OF hi] have "om_channel out = im_channel i" "om_account out = im_account i"
        "om_target out = im_peer i" "om_thread out = im_thread i" by blast+
      moreover from h have "handle_update now now' u (po_adapter s) = (Deliver i, a)" by (simp only: Deliver)
      then have "im_channel i = ''telegram''" "im_account i = ta_account (po_adapter s)" "\<exists>c. im_peer i = itoa c"
        by (auto elim: delivered_inbound)
      ultimately have "answers t (tu_id u, r) out" by (simp add: answers_def Deliver acc(2))
      then show ?thesis by simp
    qed (rule old)
  next
    case Dropped
    with out show ?thesis by (intro old) (simp add: act_on_def)
  next
    case (Help m)
    with out show ?thesis by (intro old) (simp add: act_on_def telegram_hooks_def split: prod.splits)
  qed
  then show ?thesis unfolding traced_def cu f(1,2,5) using acc(1) by blast
qed

lemma polling_traced:
  assumes "polling (telegram_hooks os cfg sv en k clock t) (start_polling gm (adapter_of t) w) s"
    and "sv_replies w = []"
  shows "traced t s"
  using assms(1)
proof (rule polling_invariant)
  have "ta_account (ensure_bot_username gm (adapter_of t)) = telegram_id t"
    by (simp add: ensure_bot_username_def split: sum.splits)
  with assms(2) show "traced t (start_polling gm (adapter_of t) w)"
    by (simp add: traced_def start_polling_def)
qed (auto simp: traced_def [of _ "_\<lparr>po_stop := _\<rparr>"] traced_update, simp_all add: traced_def)

lemma adapter_sends:
  assumes "config_load decode env_key f path = Inr cfg" "t \<in> set (enabled_telegram cfg)"
    and "om_channel out = ''telegram''" "om_account out = telegram_id t"
    and "om_target out = itoa c" "min_int64 \<le> c" "c \<le> max_int64"
  shows "sr_send (daemon_server os cfg ws) out x
    = send_chunks (bot_call os (adapter_of t))
        (map (body_of c (om_thread out)) (chunk_telegram_text (om_text out) telegram_max_message_len)) x"
proof -
  have "normalize_account_id (om_account out) = tg_account t"
    using account_wf [OF assms(1,2)] assms(4) telegram_id_normal [of t] by (simp add: telegram_wf_def)
  from account_reaches_adapter [OF assms(1,2) _ this] assms(3)
  have "sr_send (daemon_server os cfg ws) out x = sender_of os (Some t) out x"
    by (simp add: daemon_server_def)
  then show ?thesis
    using assms(5-7) by (simp add: sender_of_def telegram_send_def atoi_itoa)
qed

lemma traced_reply:
  assumes "config_load decode env_key f path = Inr cfg" and "t \<in> set (polled_accounts cfg)"
    and "traced t s" and "out \<in> set (sv_replies (po_world s))"
  shows "\<exists>u i c. (u, Deliver i) \<in> set (po_out s) \<and> im_peer i = itoa c
    \<and> (min_int64 \<le> c \<and> c \<le> max_int64 \<longrightarrow>
         sr_send (daemon_server os cfg ws) out x
           = send_chunks (bot_call os (adapter_of t))
               (map (body_of c (im_thread i)) (chunk_telegram_text (om_text out) telegram_max_message_len)) x)"
proof -
  from assms(3,4) obtain d where d: "d \<in> set (po_out s)" "answers t d out" by (auto simp: traced_def)
  then obtain i c where i: "snd d = Deliver i" "im_peer i = itoa c" "om_target out = itoa c"
      "om_thread out = im_thread i" "om_channel out = ''telegram''" "om_account out = telegram_id t"
    by (auto simp: answers_def split: outcome.splits)
  have "t \<in> set (enabled_telegram cfg)" using assms(2) by (simp add: polled_accounts_def)
  from adapter_sends [OF assms(1) this i(5,6,3), of os ws x] i(4)
  have "min_int64 \<le> c \<and> c \<le> max_int64 \<longrightarrow> sr_send (daemon_server os cfg ws) out x
      = send_chunks (bot_call os (adapter_of t))
          (map (body_of c (im_thread i)) (chunk_telegram_text (om_text out) telegram_max_message_len)) x"
    by simp
  moreover have "(fst d, Deliver i) \<in> set (po_out s)" using d(1) i(1) by (metis prod.collapse)
  ultimately show ?thesis using i(2) by blast
qed

text \<open>
  What an account polls, it answers in the same chat. For a configuration that \<open>Load\<close> returned,
  while the goroutine of an account runs, every message the gateway hands to the hub answers an
  update that passed the gates, and sending it means calling the Bot API with the token of that
  account, for the chat and the thread the update came from, with the pieces of its text.
\<close>

theorem polled_replies_reach_chat:
  assumes "config_load decode env_key f path = Inr cfg" and "t \<in> set (polled_accounts cfg)"
    and "polling (telegram_hooks os cfg (daemon_server os cfg ws) en k clock t)
           (start_polling gm (adapter_of t) w) s"
    and "sv_replies w = []" and "out \<in> set (sv_replies (po_world s))"
  shows "\<exists>u i c. (u, Deliver i) \<in> set (po_out s) \<and> im_peer i = itoa c
    \<and> (min_int64 \<le> c \<and> c \<le> max_int64 \<longrightarrow>
         sr_send (daemon_server os cfg ws) out x
           = send_chunks (bot_call os (adapter_of t))
               (map (body_of c (im_thread i)) (chunk_telegram_text (om_text out) telegram_max_message_len)) x)"
  using assms(1,2) polling_traced [OF assms(3,4)] assms(5) by (rule traced_reply)

section \<open>A reply that cannot be sent\<close>

lemma polling_stopped: "polling h s s' \<Longrightarrow> po_stop s \<noteq> None \<Longrightarrow> s' = s"
  by (induction rule: polling.induct) auto

lemma poll_batch_stopped: "po_stop s \<noteq> None \<Longrightarrow> poll_batch h us s = s"
  unfolding poll_batch_def by (induction us) auto

text \<open>
  C39: one message that fails ends the polling of its account. If the gateway returns an error for a
  delivered update, for instance because the user has blocked the bot and the reply is refused, the
  rest of the batch is not looked at and no update of that account is ever fetched again, while
  the daemon goes on running.
\<close>

theorem failed_message_ends_polling:
  assumes "po_stop s = None" and "handle_update now now' u (po_adapter s) = (Deliver i, a)"
    and "handle_inbound sv (en n) (file_session_env k) (clock n) (gc_token (cf_gateway cfg)) i (sv_gate (po_world s))
           = ((Some e, seen, sent), g)" and "n = sv_count (po_world s)"
    and "polling (telegram_hooks os cfg sv en k clock t)
           (poll_batch (telegram_hooks os cfg sv en k clock t) ((now, now', u) # us) s) s'"
  shows "po_stop s' = Some e \<and> po_out s' = po_out s @ [(tu_id u, Deliver i)] \<and> sv_gate (po_world s') = g"
proof -
  let ?h = "telegram_hooks os cfg sv en k clock t"
  note f = poll_update_fields [OF assms(1,2), of ?h]
  have act: "act_on ?h (Deliver i) (po_world s) = (Some e, (po_world s)\<lparr>sv_gate := g, sv_count := Suc n,
      sv_replies := sv_replies (po_world s) @ sent\<rparr>)"
    using assms(3,4) by (simp add: act_on_def telegram_hooks_def on_inbound_def)
  let ?s = "poll_update ?h (now, now', u) s"
  have "po_stop ?s \<noteq> None" using f(4) act by simp
  then have "poll_batch ?h ((now, now', u) # us) s = ?s"
    using poll_batch_stopped [of ?s ?h us] by (simp add: poll_batch_def)
  then have "s' = ?s" using polling_stopped [OF assms(5)] \<open>po_stop ?s \<noteq> None\<close> by simp
  then show ?thesis using f act by simp
qed

section \<open>A polled account\<close>

definition polled_config :: config where
  "polled_config = load_defaults ''k'' (sample_config\<lparr>cf_telegram := (sample_telegram '' Main '')\<lparr>tg_polling := True\<rparr>\<rparr>)"

definition polled_account :: telegram_config where
  "polled_account = cf_telegram polled_config"

definition polled_codec :: session_codec where
  "polled_codec = \<lparr>kc_store = (\<lambda>_. Inr ''d''), kc_enc = (\<lambda>_. Inr ''q''), kc_dec = (\<lambda>_. None)\<rparr>"

definition polled_update :: tg_update where
  "polled_update = \<lparr>tu_id = 5, tu_msg = Some \<lparr>tm_thread = 0, tm_text = ''hello'', tm_chat = 42,
     tm_type = ''private'', tm_from = Some (7, False)\<rparr>\<rparr>"

definition polled_inbound :: inbound where
  "polled_inbound = \<lparr>im_channel = ''telegram'', im_account = ''main'', im_peer = ''42'', im_peer_type = ''direct'',
     im_user = ''7'', im_text = ''hello'', im_thread = [], im_run = [], im_at = GTime 5\<rparr>"

definition polled_gateway :: "(unit, file_store, unit) gateway" where
  "polled_gateway = \<lparr>gw_runtime = demo_runtime, gw_sess = \<lparr>ss_store = \<lparr>fl_path = ''s/db'', fl_data = []\<rparr>,
     ss_fs = plain_fs []\<rparr>, gw_rest = ()\<rparr>"

definition polled_service :: "(unit, unit) service" where
  "polled_service = \<lparr>sv_gate = polled_gateway, sv_count = 0, sv_replies = []\<rparr>"

definition unit_surroundings :: "(unit, unit) surroundings" where
  "unit_surroundings =
     \<lparr>os_cwd = [], os_exec = (\<lambda>_ _ _ w. (\<lparr>cr_stdout = [], cr_stderr = [], cr_end = RanOk, cr_timed_out = False\<rparr>, w)),
      os_rfc = Pair ''now'', os_servers = (\<lambda>_. Inr []), os_start = (\<lambda>_ _. Inr ()), os_tools = (\<lambda>_. Inr []),
      os_call = (\<lambda>_ _ _ w. (Inr VNil, w)), os_model = (\<lambda>_ w. (Inl ''offline'', w)), os_openai = (\<lambda>_. Inl ''none''),
      os_ollama = (\<lambda>_. Inl ''none''), os_print = (\<lambda>_ x. x), os_bot = (\<lambda>_ _ x. ((\<lambda>_. Inr [], \<lambda>_. None), x)),
      os_enc_state = demo_ob_enc, os_dec_state = demo_ob_dec, os_dec_store = (\<lambda>_. Inr [])\<rparr>"

definition polled_server :: "unit server" where
  "polled_server = daemon_server unit_surroundings polled_config ''ws''"

definition polled_hooks :: "(unit, unit) service poll_hooks" where
  "polled_hooks = telegram_hooks unit_surroundings polled_config polled_server (\<lambda>_. demo_env) polled_codec
     (\<lambda>_ _. GTime 5) polled_account"

definition polled_start :: "(unit, unit) service poll_state" where
  "polled_start = start_polling (Inl ''offline'') (adapter_of polled_account) polled_service"

lemma polled_delivered:
  obtains a where "handle_update (GTime 5) (GTime 5) polled_update (po_adapter polled_start) = (Deliver polled_inbound, a)"
proof -
  have "fst (handle_update (GTime 5) (GTime 5) polled_update (po_adapter polled_start)) = Deliver polled_inbound"
    by code_simp
  with that show thesis by (metis prod.collapse)
qed

definition polled_open where
  "polled_open = open_session (file_session_env polled_codec) (\<lambda>_. GTime 5) (Some (manager_of polled_config))
     (resolve polled_config polled_inbound) polled_inbound (gw_sess polled_gateway)"

lemma polled_open_ok: "(case fst polled_open of Inr (Some e, [], []) \<Rightarrow> True | _ \<Rightarrow> False)"
  by code_simp

definition polled_reply :: agent_event where
  "polled_reply = final_event ''run-7'' ''agent:support:telegram:main:dm:42'' ''Nix: hello''"

lemma polled_run:
  "fst (agent_run demo_env (request_for (resolve polled_config polled_inbound) polled_inbound [] []) demo_runtime
     (plain_fs [], ())) = [polled_reply]"
  by code_simp

abbreviation polled_out :: outbound where
  "polled_out \<equiv> reply_to polled_inbound (rt_session (resolve polled_config polled_inbound)) ''Nix: hello''"

lemma deliver_one:
  assumes "ev_err v = None" "ev_text v \<noteq> []" "deliver_events sv se clock i eo msg key [v] s x = (r, seen, sent, s', x')"
  shows "seen = [v] \<and> sent = [reply_to msg key (ev_text v)]
    \<and> (fst (sr_send sv (reply_to msg key (ev_text v)) x) = Some e \<longrightarrow> r = Some e)"
  using assms by (auto split: prod.splits option.splits)

lemma polled_handled:
  assumes "sr_token sv = ''dev''" "sr_config sv = polled_config" "sr_manager sv = Some (manager_of polled_config)"
    and "fst (sr_send sv polled_out ()) = o'"
  obtains r g where "handle_inbound sv demo_env (file_session_env polled_codec) (\<lambda>_. GTime 5) ''dev'' polled_inbound
      polled_gateway = ((r, [polled_reply], [polled_out]), g)" "\<And>e. o' = Some e \<Longrightarrow> r = Some e"
proof -
  let ?key = "rt_session (resolve polled_config polled_inbound)"
  obtain e s1 where o: "open_session (file_session_env polled_codec) (\<lambda>_. GTime 5) (Some (manager_of polled_config))
      (resolve polled_config polled_inbound) polled_inbound (gw_sess polled_gateway) = (Inr (Some e, [], []), s1)"
    using polled_open_ok by (auto simp: polled_open_def prod_eq_iff split: sum.splits prod.splits option.splits list.splits)
  let ?rq = "request_for (resolve polled_config polled_inbound) polled_inbound [] []"
  have "fst (agent_run demo_env ?rq demo_runtime (ss_fs s1, ())) = [polled_reply]"
    using polled_run quiet_events [of demo_runtime demo_env ?rq "ss_fs s1" "()" "plain_fs []" "()"]
    by (simp add: demo_runtime_def)
  then obtain rt' f' where run: "agent_run demo_env ?rq demo_runtime (ss_fs s1, ()) = ([polled_reply], rt', (f', ()))"
    by (metis (full_types) old.unit.exhaust prod.collapse)
  obtain r seen sent s2 x2 where d: "deliver_events sv (file_session_env polled_codec) (\<lambda>_. GTime 5) 6 (Some e)
      polled_inbound ?key [polled_reply] (s1\<lparr>ss_fs := f'\<rparr>) () = (r, seen, sent, s2, x2)"
    using prod_cases5 by blast
  have t: "ev_err polled_reply = None" "ev_text polled_reply = ''Nix: hello''"
    by (simp_all add: polled_reply_def final_event_def)
  note one = deliver_one [OF t(1) _ d]
  have "seen = [polled_reply] \<and> sent = [polled_out]" "\<And>e. o' = Some e \<Longrightarrow> r = Some e"
    using one t(2) assms(4) by auto
  moreover have "authenticate ''dev'' ''dev'' = Inr \<lparr>pr_id = ''operator'', pr_role = ''operator'',
      pr_scopes = [''operator.admin'']\<rparr>" by (simp add: authenticate_def)
  moreover have "stamp (GTime 5) polled_inbound = polled_inbound" "im_channel polled_inbound \<noteq> []"
    "im_peer polled_inbound \<noteq> []" by code_simp+
  moreover have "gw_runtime polled_gateway = demo_runtime" "gw_rest polled_gateway = ()"
    by (simp_all add: polled_gateway_def)
  ultimately have "\<exists>g. handle_inbound sv demo_env (file_session_env polled_codec) (\<lambda>_. GTime 5) ''dev'' polled_inbound
      polled_gateway = ((r, [polled_reply], [polled_out]), g)"
    using o run d assms(1-3) by (simp add: handle_inbound_def del: deliver_events.simps)
  with that \<open>\<And>e. o' = Some e \<Longrightarrow> r = Some e\<close> show thesis by blast
qed

abbreviation polled_end :: "(unit, unit) service poll_state" where
  "polled_end \<equiv> poll_update polled_hooks (GTime 5, GTime 5, polled_update) polled_start"

lemma polled_starts:
  "po_stop polled_start = None" "po_world polled_start = polled_service" "po_out polled_start = []"
  by (simp_all add: polled_start_def start_polling_def)

lemma polled_step:
  "polled_out \<in> set (sv_replies (po_world polled_end))" "po_out polled_end = [(5, Deliver polled_inbound)]"
proof -
  obtain a where u: "handle_update (GTime 5) (GTime 5) polled_update (po_adapter polled_start) = (Deliver polled_inbound, a)"
    by (rule polled_delivered)
  note f = poll_update_fields [OF polled_starts(1) u, of polled_hooks]
  have sv: "sr_token polled_server = ''dev''" "sr_config polled_server = polled_config"
    "sr_manager polled_server = Some (manager_of polled_config)" "gc_token (cf_gateway polled_config) = ''dev''"
    by (simp_all add: polled_server_def daemon_server_def) code_simp+
  obtain r g where hi: "handle_inbound polled_server demo_env (file_session_env polled_codec) (\<lambda>_. GTime 5) ''dev''
      polled_inbound polled_gateway = ((r, [polled_reply], [polled_out]), g)"
    using polled_handled [OF sv(1-3) refl] by metis
  show "polled_out \<in> set (sv_replies (po_world polled_end))" "po_out polled_end = [(5, Deliver polled_inbound)]"
    using f hi polled_starts sv(4)
    by (simp_all add: polled_hooks_def act_on_def telegram_hooks_def on_inbound_def polled_service_def polled_update_def)
qed

lemma polled_loaded:
  "config_load (\<lambda>_. Inr (sample_config\<lparr>cf_telegram := (sample_telegram '' Main '')\<lparr>tg_polling := True\<rparr>\<rparr>)) ''k''
      (plain_fs [(''nisix.json'', ''{}'')]) ''nisix.json'' = Inr polled_config"
  "polled_accounts polled_config = [polled_account]"
  by code_simp+

lemma polled_chat:
  assumes "(u, Deliver i) \<in> set (po_out polled_end)" "im_peer i = itoa c"
  shows "c = 42" "im_thread i = []" "om_text polled_out = ''Nix: hello''"
    "chunk_telegram_text ''Nix: hello'' telegram_max_message_len = [''Nix: hello'']"
proof -
  have "itoa 42 = ''42''" by code_simp
  moreover have i: "i = polled_inbound" using assms(1) polled_step(2) by simp
  ultimately show "c = 42" using assms(2) itoa_inject [of c 42] by (simp add: polled_inbound_def)
  show "im_thread i = []" by (simp add: i polled_inbound_def)
  show "om_text polled_out = ''Nix: hello''" by (simp add: reply_to_def)
  show "chunk_telegram_text ''Nix: hello'' telegram_max_message_len = [''Nix: hello'']" by code_simp
qed

theorem polled_replies_reach_chat_witness:
  "sr_send polled_server polled_out ()
     = send_chunks (bot_call unit_surroundings (adapter_of polled_account)) [body_of 42 [] ''Nix: hello''] ()"
proof -
  have t: "polled_account \<in> set (polled_accounts polled_config)" by (simp add: polled_loaded(2))
  have "poll_batch polled_hooks [(GTime 5, GTime 5, polled_update)] polled_start = polled_end"
    by (simp add: poll_batch_def)
  with polling.fetched [OF polling.start polled_starts(1), of polled_hooks "[(GTime 5, GTime 5, polled_update)]"]
  have p: "polling polled_hooks polled_start polled_end" by simp
  have w: "sv_replies polled_service = []" by (simp add: polled_service_def)
  from polled_replies_reach_chat [OF polled_loaded(1) t p [unfolded polled_hooks_def polled_server_def polled_start_def] w
      polled_step(1) [unfolded polled_hooks_def polled_server_def polled_start_def], of "()"]
  obtain u i c where c: "(u, Deliver i) \<in> set (po_out polled_end)" "im_peer i = itoa c"
    "min_int64 \<le> c \<and> c \<le> max_int64 \<longrightarrow> sr_send polled_server polled_out ()
      = send_chunks (bot_call unit_surroundings (adapter_of polled_account))
          (map (body_of c (im_thread i)) (chunk_telegram_text (om_text polled_out) telegram_max_message_len)) ()"
    unfolding polled_hooks_def polled_server_def polled_start_def by blast
  then show ?thesis using polled_chat [OF c(1,2)] by (simp add: min_int64_def max_int64_def)
qed

theorem failed_message_ends_polling_witness:
  "\<exists>s. polling (telegram_hooks unit_surroundings polled_config
        (polled_server\<lparr>sr_send := (\<lambda>_ x. (Some ''telegram api status 403'', x))\<rparr>) (\<lambda>_. demo_env) polled_codec
        (\<lambda>_ _. GTime 5) polled_account) polled_start s
     \<and> po_stop s = Some ''telegram api status 403''"
proof -
  let ?sv = "polled_server\<lparr>sr_send := (\<lambda>_ x. (Some ''telegram api status 403'', x))\<rparr>"
  let ?h = "telegram_hooks unit_surroundings polled_config ?sv (\<lambda>_. demo_env) polled_codec (\<lambda>_ _. GTime 5) polled_account"
  let ?s = "poll_batch ?h [(GTime 5, GTime 5, polled_update)] polled_start"
  have p0: "po_stop polled_start = None" "po_world polled_start = polled_service"
    by (simp_all add: polled_start_def start_polling_def)
  obtain a where u: "handle_update (GTime 5) (GTime 5) polled_update (po_adapter polled_start) = (Deliver polled_inbound, a)"
    by (rule polled_delivered)
  have sv: "sr_token ?sv = ''dev''" "sr_config ?sv = polled_config" "gc_token (cf_gateway polled_config) = ''dev''"
    "sr_manager ?sv = Some (manager_of polled_config)"
    by (simp_all add: polled_server_def daemon_server_def) code_simp+
  obtain r g where hi: "handle_inbound ?sv demo_env (file_session_env polled_codec) (\<lambda>_. GTime 5) ''dev''
      polled_inbound polled_gateway = ((Some ''telegram api status 403'', [polled_reply], [polled_out]), g)"
    using polled_handled [OF sv(1,2,4) refl] by (auto simp: fst_conv)
  have w: "sv_gate (po_world polled_start) = polled_gateway" "0 = sv_count (po_world polled_start)"
    by (simp_all add: p0 polled_service_def)
  have p: "polling ?h polled_start ?s" by (rule polling.fetched [OF polling.start p0(1)])
  have "polling ?h ?s ?s" by (rule polling.start)
  from failed_message_ends_polling [where en = "\<lambda>_. demo_env" and clock = "\<lambda>_ _. GTime 5",
      OF p0(1) u hi [folded sv(3) w(1)] w(2) this]
  have "po_stop ?s = Some ''telegram api status 403''" by blast
  with p show ?thesis by blast
qed

end
