(* ===== verification/DaemonLife.thy ===== *)
theory DaemonLife
  imports Service
begin

text \<open>
  The daemon as a whole, from its configuration file on: HTTP requests, WebSocket connections and
  the goroutines that poll Telegram all work on one gateway, in any order. Each keeps its own state
  (\<open>Ws\<close>, \<open>Telegram\<close>) and sees the gateway as the others have left it.
\<close>

section \<open>From the configuration file\<close>

datatype start_error = BadConfig config_error | BadStart go_error

definition main_start ::
    "('c, 'x) surroundings \<Rightarrow> (string \<Rightarrow> go_error + config) \<Rightarrow> string \<Rightarrow> gtime \<Rightarrow> string \<Rightarrow> string \<Rightarrow> fs \<Rightarrow> 'x
      \<Rightarrow> (start_error + config \<times> ('c, 'x) daemon) \<times> fs \<times> 'c list" where
  "main_start os decode env_key now rfc path s x =
     (case config_load decode env_key s path of
        Inl e \<Rightarrow> (Inl (BadConfig e), s, [])
      | Inr cfg \<Rightarrow>
          (case start_daemon os now rfc cfg s x of
             (Inl e, s', live) \<Rightarrow> (Inl (BadStart e), s', live)
           | (Inr d, s', live) \<Rightarrow> (Inr (cfg, d), s', live)))"

section \<open>The running daemon\<close>

record ('c, 'x) running =
  dm_gate :: "('c, file_store, 'x) gateway"
  dm_polls :: "('c, 'x) service poll_state list"
  dm_conns :: "('c, file_store, 'x) ws_state list"

text \<open>What does not change while it runs: the server and what it was started on.\<close>

record ('c, 'x) fixtures =
  pr_os :: "('c, 'x) surroundings"
  pr_cfg :: config
  pr_server :: "'x server"
  pr_codec :: session_codec
  pr_ws :: "(file_store, 'x) ws_env"

definition polls_at_start ::
    "('c, 'x) fixtures \<Rightarrow> (telegram_config \<Rightarrow> go_error + bool \<times> string) \<Rightarrow> ('c, file_store, 'x) gateway
      \<Rightarrow> ('c, 'x) service poll_state list" where
  "polls_at_start d get_me g =
     map (\<lambda>t. start_polling (get_me t) (adapter_of t) \<lparr>sv_gate = g, sv_count = 0, sv_replies = []\<rparr>)
       (polled_accounts (pr_cfg d))"

definition poll_at ::
    "('c, file_store, 'x) gateway \<Rightarrow> ('c, 'x) service poll_state \<Rightarrow> ('c, 'x) service poll_state" where
  "poll_at g s = s\<lparr>po_world := (po_world s)\<lparr>sv_gate := g\<rparr>\<rparr>"

definition conn_at ::
    "('c, 's, 'x) gateway \<Rightarrow> ('c, 's, 'x) ws_state \<Rightarrow> ('c, 's, 'x) ws_state" where
  "conn_at g s = s\<lparr>wt_gateway := g\<rparr>"

inductive daemon_step :: "('c, 'x) fixtures \<Rightarrow> ('c, 'x) running \<Rightarrow> ('c, 'x) running \<Rightarrow> bool" for d where
  http: "serve_http (pr_server d) en (file_session_env (pr_codec d)) clock now dec path verb body (dm_gate s)
      = (reply, g) \<Longrightarrow> daemon_step d s (s\<lparr>dm_gate := g\<rparr>)"
| poll: "i < length (dm_polls s) \<Longrightarrow> polled_accounts (pr_cfg d) ! i = t \<Longrightarrow>
    poll_update (telegram_hooks (pr_os d) (pr_cfg d) (pr_server d) en (pr_codec d) clock t) cu
      (poll_at (dm_gate s) (dm_polls s ! i)) = p \<Longrightarrow>
    daemon_step d s (s\<lparr>dm_gate := sv_gate (po_world p), dm_polls := (dm_polls s)[i := p]\<rparr>)"
| cancelled: "i < length (dm_polls s) \<Longrightarrow> po_stop (dm_polls s ! i) = None \<Longrightarrow>
    daemon_step d s (s\<lparr>dm_polls := (dm_polls s)[i := (dm_polls s ! i)\<lparr>po_stop := Some e\<rparr>]\<rparr>)"
| accept: "daemon_step d s (s\<lparr>dm_conns := dm_conns s @ [ws_start (dm_gate s)]\<rparr>)"
| ws: "i < length (dm_conns s) \<Longrightarrow> ws_step (pr_ws d) (conn_at (dm_gate s) (dm_conns s ! i)) c \<Longrightarrow>
    daemon_step d s (s\<lparr>dm_gate := wt_gateway c, dm_conns := (dm_conns s)[i := c]\<rparr>)"

inductive daemon_reach ::
    "('c, 'x) fixtures \<Rightarrow> (telegram_config \<Rightarrow> go_error + bool \<times> string) \<Rightarrow> ('c, file_store, 'x) gateway
      \<Rightarrow> ('c, 'x) running \<Rightarrow> bool"
  for d get_me g where
  started: "daemon_reach d get_me g \<lparr>dm_gate = g, dm_polls = polls_at_start d get_me g, dm_conns = []\<rparr>"
| stepped: "daemon_reach d get_me g s \<Longrightarrow> daemon_step d s s' \<Longrightarrow> daemon_reach d get_me g s'"

section \<open>Nothing replaces the services of the runtime\<close>

text \<open>All of a runtime but the proposals that wait and the skills that were read last.\<close>

definition same_services :: "('c, 'x) runtime \<Rightarrow> ('c, 'x) runtime \<Rightarrow> bool" where
  "same_services rt rt' \<longleftrightarrow> rt' = rt\<lparr>ru_profile := ru_profile rt', ru_skills := ru_skills rt'\<rparr>"

lemma same_services_refl [simp]: "same_services rt rt"
  by (simp add: same_services_def)

lemma same_services_fields:
  "same_services rt rt' \<longleftrightarrow>
     ru_tools rt' = ru_tools rt \<and> ru_policy rt' = ru_policy rt \<and> ru_mcp rt' = ru_mcp rt \<and> ru_memory rt' = ru_memory rt
     \<and> ru_identity rt' = ru_identity rt \<and> ru_soul rt' = ru_soul rt \<and> ru_workspace rt' = ru_workspace rt
     \<and> ru_bootstrap rt' = ru_bootstrap rt \<and> ru_model rt' = ru_model rt \<and> ru_scope rt' = ru_scope rt
     \<and> ru_mode rt' = ru_mode rt \<and> ru_auto rt' = ru_auto rt"
  unfolding same_services_def by (cases rt; cases rt') simp

lemma same_services_trans: "same_services a b \<Longrightarrow> same_services b c \<Longrightarrow> same_services a c"
  by (simp add: same_services_fields)

lemma same_services_updates [simp]:
  "same_services rt (rt\<lparr>ru_profile := p\<rparr>)" "same_services rt (rt\<lparr>ru_skills := k\<rparr>)"
  by (simp_all add: same_services_fields)

lemma command_services:
  assumes "handle_command en k t rt f = Some (out, rt', f')" shows "same_services rt rt'"
proof -
  have "same_services rt (fst (snd (on_profile rt f h)))" for h
    by (simp add: on_profile_def split: option.splits prod.splits)
  moreover have "same_services rt (fst (snd (on_bootstrap rt f h)))" for h
    by (simp add: on_bootstrap_def split: option.splits prod.splits)
  ultimately have "same_services rt (fst (snd (run_command en k cmd rt f)))" for cmd
    by (cases cmd) (simp_all add: run_command_def)
  moreover have "same_services rt (snd (list_skills rt f))"
    by (auto simp: list_skills_def split: option.splits prod.splits sum.splits if_splits)
  ultimately show ?thesis
    using assms by (auto simp: handle_command_def Let_def split: if_splits prod.splits) (metis fst_conv snd_conv)+
qed

lemma agent_run_services: "same_services rt (fst (snd (agent_run en rq rt w)))"
proof (cases "handle_command en (rq_session rq) (trim_space (im_text (rq_message rq))) rt (fst w)")
  case (Some a)
  obtain out rt' f where a: "a = (out, rt', f)" by (cases a) auto
  from command_services [OF Some [unfolded a]] Some a show ?thesis by (simp add: agent_run_def Let_def)
next
  case None
  have p: "same_services rt (snd (proposal_stage en rt k t))" for k t
    by (auto simp: proposal_stage_def split: option.splits prod.splits)
  have s: "same_services r (snd (skill_stage r f t))" for r f t
    by (auto simp: skill_stage_def Let_def split: option.splits prod.splits)
  obtain po rt1 where 1: "proposal_stage en rt (rq_session rq) (trim_space (im_text (rq_message rq))) = (po, rt1)" by fastforce
  obtain so rt2 where 2: "skill_stage rt1 (fst w) (trim_space (im_text (rq_message rq))) = (so, rt2)" by fastforce
  have "same_services rt rt1" using p [of "rq_session rq"] 1 by (metis snd_conv)
  moreover have "same_services rt1 rt2" using s [of rt1 "fst w"] 2 by (metis snd_conv)
  ultimately have "same_services rt rt1" "same_services rt rt2" by (auto intro: same_services_trans)
  then show ?thesis using None 1 2
    by (auto simp: agent_run_def Let_def split: prod.splits sum.splits option.splits)
qed

lemma handle_inbound_services:
  assumes "handle_inbound sv en se clock token msg g = (r, g')"
  shows "same_services (gw_runtime g) (gw_runtime g')"
proof -
  have "same_services (gw_runtime g) rt" if "agent_run en rq (gw_runtime g) w = (evts, rt, v)" for rq w evts rt v
    using agent_run_services [of "gw_runtime g" en rq w] that by simp
  with assms show ?thesis
    by (auto simp: handle_inbound_def Let_def split: sum.splits prod.splits if_splits)
qed

abbreviation kept :: "('c, 's, 'x) gateway \<Rightarrow> ('c, 's, 'x) gateway \<Rightarrow> bool" where
  "kept g g' \<equiv> same_services (gw_runtime g) (gw_runtime g')"

lemma skills_list_kept: "skills_list root only g = (r, g') \<Longrightarrow> kept g g'"
  by (auto simp: skills_list_def split: option.splits prod.splits)

lemma profile_update_kept: "gateway_profile_update now rq g = (r, g') \<Longrightarrow> kept g g'"
  by (auto simp: gateway_profile_update_def split: option.splits prod.splits)

lemma bootstrap_complete_kept: "bootstrap_complete en root b g = (r, g') \<Longrightarrow> kept g g'"
  by (auto simp: bootstrap_complete_def split: prod.splits)

lemma ws_method_kept:
  assumes "ws_method w en now wrote f c g = (ro, stay, c', g')"
  shows "kept g g'"
proof -
  have a: "g' = g" if "ws_connect w wrote f c g = (ro, stay, c', g')"
    using that by (auto simp: ws_connect_def Let_def split: prod.splits option.splits sum.splits if_splits)
  have b: "g' = g" if "ws_chat_send w now wrote f c g = (ro, stay, c', g')"
    using that by (auto simp: ws_chat_send_def Let_def split: prod.splits option.splits)
  have e: "g' = g" if "ws_chat_abort w wrote f c g = (ro, stay, c', g')"
    using that by (auto simp: ws_chat_abort_def split: prod.splits option.splits)
  have h: "g' = g" if "ws_chat_history w wrote f c g = (ro, stay, c', g')"
    using that by (auto simp: ws_chat_history_def split: prod.splits option.splits sum.splits if_splits)
  have k: "kept g g'" if "ws_skills w wrote f c g = (ro, stay, c', g')"
    using that by (auto simp: ws_skills_def split: prod.splits sum.splits dest: skills_list_kept)
  have u: "kept g g'" if "ws_profile_update w now wrote f c g = (ro, stay, c', g')"
    using that by (auto simp: ws_profile_update_def refuse_profile_def split: prod.splits option.splits sum.splits
        dest: profile_update_kept)
  have gt: "g' = g" if "ws_profile_get w wrote f c g = (ro, stay, c', g')"
    using that by (auto simp: ws_profile_get_def refuse_profile_def split: prod.splits option.splits sum.splits)
  have st: "g' = g" if "ws_bootstrap_status w en wrote f c g = (ro, stay, c', g')"
    using that by (auto simp: ws_bootstrap_status_def split: sum.splits)
  have cp: "kept g g'" if "ws_bootstrap_complete w en wrote f c g = (ro, stay, c', g')"
    using that by (auto simp: ws_bootstrap_complete_def split: prod.splits sum.splits dest: bootstrap_complete_kept)
  from a b e h k u gt st cp assms show ?thesis
    unfolding ws_method_def Let_def by (auto split: if_splits)
qed

lemma ws_step_kept: "ws_step w s s' \<Longrightarrow> kept (wt_gateway s) (wt_gateway s')"
proof (induction rule: ws_step.induct)
  case (request s en now wrote f ro stay c' g')
  from request(2) show ?case
    by (auto simp: ws_request_def split: option.splits if_splits dest: ws_method_kept)
next
  case (run_start s pre run key msg post en clock r seen sent g' is_canceled)
  from handle_inbound_services [OF run_start(2)] show ?case by simp
qed (simp_all add: draw_def)

lemma serve_http_kept:
  assumes "serve_http sv en se clock now dec path verb body g = (r, g')"
  shows "kept g g'"
proof -
  have "kept g h" if "inbound_endpoint sv en se clock now dec verb body g = (x, h)" for x h
    using that by (auto simp: inbound_endpoint_def split: if_splits sum.splits prod.splits option.splits
        dest: handle_inbound_services)
  with assms show ?thesis by (auto simp: serve_http_def split: if_splits prod.splits)
qed

lemma poll_update_kept:
  "kept (sv_gate (po_world s)) (sv_gate (po_world (poll_update (telegram_hooks os cfg sv en k clock t) cu s)))"
proof (cases "po_stop s")
  case None
  obtain now now' u where cu: "cu = (now, now', u)" by (cases cu)
  obtain r a where h: "handle_update now now' u (po_adapter s) = (r, a)" by fastforce
  have "kept (sv_gate w) (sv_gate (snd (act_on (telegram_hooks os cfg sv en k clock t) r w)))" for w
    by (cases r) (auto simp: act_on_def telegram_hooks_def on_inbound_def split: prod.splits dest: handle_inbound_services)
  then show ?thesis unfolding cu poll_update_fields(5) [OF None h] .
qed simp

lemma daemon_step_kept: "daemon_step d s s' \<Longrightarrow> kept (dm_gate s) (dm_gate s')"
proof (induction rule: daemon_step.induct)
  case (poll i s t en clock cu p)
  from poll_update_kept [of "poll_at (dm_gate s) (dm_polls s ! i)" "pr_os d" "pr_cfg d" "pr_server d" en "pr_codec d" clock t cu]
  show ?case by (simp add: poll(3)) (simp add: poll_at_def)
next
  case (ws i s c)
  from ws_step_kept [OF ws(2)] show ?case by (simp add: conn_at_def)
qed (auto dest: serve_http_kept)

lemma daemon_reach_kept: "daemon_reach d get_me g s \<Longrightarrow> kept g (dm_gate s)"
  by (induction rule: daemon_reach.induct) (auto intro: same_services_trans dest: daemon_step_kept)

text \<open>
  C4: whatever the MCP servers offer and whatever reaches the daemon afterwards, it keeps its own
  tools. In every state a started daemon can get to, through any HTTP requests, any frames on any
  number of WebSocket connections and any Telegram updates, \<open>shell\<close> is the daemon's shell, confined
  to the workspace of the default agent, \<open>time_now\<close> is its clock, the policy is that of the
  configuration, and every registered name can be written in a reply of the model and is then
  recognised as a call.
\<close>

theorem running_daemon_keeps_own_tools:
  assumes "main_start os decode env_key now rfc path f x = (Inr (cfg, sv, g), f', live)"
    and "daemon_reach d get_me g s"
  shows "\<exists>a \<in> set (cf_agents cfg). equal_fold (ac_id a) (cf_default_id cfg)
      \<and> ru_workspace (gw_runtime (dm_gate s)) = ac_workspace a
      \<and> reg_get (ru_tools (gw_runtime (dm_gate s))) ''shell''
          = Some (shell_tool_of (os_cwd os) fst (os_exec os) (new_shell_tool (ac_workspace a)))
      \<and> reg_get (ru_tools (gw_runtime (dm_gate s))) ''time_now'' = Some (now_tool (os_rfc os))
      \<and> (\<forall>n \<in> set (reg_list (ru_tools (gw_runtime (dm_gate s)))).
           callable n \<and> (\<forall>a. call_args a \<longrightarrow> match_call (print_call n a) = Some (n, a)))
      \<and> ru_policy (gw_runtime (dm_gate s)) = policy_of cfg \<and> sr_token sv = gc_token (cf_gateway cfg)"
proof -
  from assms(1) have "start_daemon os now rfc cfg f x = (Inr (sv, g), f', live)"
    by (auto simp: main_start_def split: sum.splits prod.splits)
  moreover have "ru_tools (gw_runtime (dm_gate s)) = ru_tools (gw_runtime g)"
    "ru_policy (gw_runtime (dm_gate s)) = ru_policy (gw_runtime g)"
    "ru_workspace (gw_runtime (dm_gate s)) = ru_workspace (gw_runtime g)"
    using daemon_reach_kept [OF assms(2)] by (simp_all add: same_services_fields)
  ultimately show ?thesis using started_tools [of os now rfc cfg f x sv g f' live] by simp
qed

section \<open>The accounts while everything else goes on\<close>

definition polls_ok :: "('c, 'x) fixtures \<Rightarrow> ('c, 'x) running \<Rightarrow> bool" where
  "polls_ok d s \<longleftrightarrow> length (dm_polls s) = length (polled_accounts (pr_cfg d))
     \<and> (\<forall>i < length (dm_polls s). traced (polled_accounts (pr_cfg d) ! i) (dm_polls s ! i) \<and> window_inv (dm_polls s ! i))"

lemma at_gate [simp]: "traced t (poll_at g p) = traced t p" "window_inv (poll_at g p) = window_inv p"
  by (simp_all add: traced_def window_inv_def poll_at_def)

lemma polls_ok_start: "polls_ok d \<lparr>dm_gate = g, dm_polls = polls_at_start d get_me g, dm_conns = []\<rparr>"
proof -
  have "traced t (start_polling gm (adapter_of t) \<lparr>sv_gate = g, sv_count = 0, sv_replies = []\<rparr>)" for t gm
    by (rule polling_traced [OF polling.start]) simp
  moreover have "window_inv (start_polling gm (adapter_of t) w)" for t gm and w :: "('a, 'b) service"
    using dedupe_new by (simp add: window_inv_def start_polling_def adapter_of_def)
  ultimately show ?thesis by (simp add: polls_ok_def polls_at_start_def)
qed

lemma polls_ok_step: "daemon_step d s s' \<Longrightarrow> polls_ok d s \<Longrightarrow> polls_ok d s'"
proof (induction rule: daemon_step.induct)
  case (poll i s t en clock cu p)
  let ?q = "poll_at (dm_gate s) (dm_polls s ! i)"
  have "traced t ?q" "window_inv ?q" using poll by (auto simp: polls_ok_def)
  then have "traced t p" "window_inv p" using traced_update window_step poll(3) by blast+
  with poll show ?case by (auto simp: polls_ok_def nth_list_update)
next
  case (cancelled i s e)
  then show ?case by (auto simp: polls_ok_def nth_list_update traced_def window_inv_def)
qed (simp_all add: polls_ok_def)

lemma polls_ok_reach: "daemon_reach d get_me g s \<Longrightarrow> polls_ok d s"
  by (induction rule: daemon_reach.induct) (auto intro: polls_ok_start polls_ok_step)


text \<open>
  The same for duplicates: in the running daemon, too, no update of an account has an effect twice
  within its window.
\<close>

theorem running_updates_once:
  assumes "daemon_reach d get_me g s" and "i < length (polled_accounts (pr_cfg d))"
    and "po_out (dm_polls s ! i) = pre @ mid @ post"
    and "int (length mid) \<le> ta_window (po_adapter (dm_polls s ! i)) + 1"
  shows "distinct (handled mid)"
  using polls_ok_reach [OF assms(1)] assms(2) window_invD [OF _ assms(3,4)] by (simp add: polls_ok_def)

section \<open>A daemon that runs\<close>

definition live_disk :: fs where "live_disk = plain_fs [(''nisix.json'', ''{}''), (''mcp.json'', ''{}'')]"

definition live_start where
  "live_start = main_start demo_surroundings (\<lambda>_. Inr demo_config) ''k'' (GTime 1) ''t'' ''nisix.json'' live_disk ()"

lemma live_start_ok:
  "(case fst live_start of Inl _ \<Rightarrow> False
    | Inr (cfg, sv, g) \<Rightarrow> reg_list (ru_tools (gw_runtime g)) = [''mcp_files_shell'', ''shell'', ''time_now'']
        \<and> map ac_workspace (cf_agents cfg) = [''ws''])"
  by code_simp

definition live_fixtures :: "config \<Rightarrow> unit server \<Rightarrow> (string, unit) fixtures" where
  "live_fixtures cfg sv = \<lparr>pr_os = demo_surroundings, pr_cfg = cfg, pr_server = sv, pr_codec = polled_codec,
     pr_ws = \<lparr>we_server = sv, we_sess = file_session_env polled_codec, we_dec = demo_decoders, we_order = id\<rparr>\<rparr>"

text \<open>A connection is opened, and its client leaves.\<close>

lemma reach_visited:
  obtains c where "daemon_reach d get_me g
    \<lparr>dm_gate = g, dm_polls = polls_at_start d get_me g, dm_conns = [c]\<rparr>" "\<not> wt_open c"
proof -
  let ?p = "polls_at_start d get_me g" and ?c = "(ws_start g)\<lparr>wt_open := False\<rparr>"
  have 0: "daemon_reach d get_me g \<lparr>dm_gate = g, dm_polls = ?p, dm_conns = []\<rparr>" by (rule daemon_reach.started)
  from daemon_reach.stepped [OF 0 daemon_step.accept]
  have 1: "daemon_reach d get_me g \<lparr>dm_gate = g, dm_polls = ?p, dm_conns = [ws_start g]\<rparr>" by simp
  have "ws_step (pr_ws d) (conn_at g (ws_start g)) ?c"
    using ws_step.hang_up [of "pr_ws d" "conn_at g (ws_start g)"] by (simp add: conn_at_def ws_start_def)
  from daemon_reach.stepped [OF 1 daemon_step.ws [of 0 _ _ ?c]] this
  have "daemon_reach d get_me g \<lparr>dm_gate = g, dm_polls = ?p, dm_conns = [?c]\<rparr>"
    by (simp add: ws_start_def)
  with that show thesis by (simp add: ws_start_def)
qed

theorem running_daemon_keeps_own_tools_witness:
  "(case fst live_start of Inl _ \<Rightarrow> False
    | Inr (cfg, sv, g) \<Rightarrow> \<exists>(s :: (string, unit) running) c. dm_conns s = [c] \<and> \<not> wt_open c \<and> ''mcp_files_shell'' \<in> set (reg_list (ru_tools (gw_runtime (dm_gate s))))
        \<and> callable ''mcp_files_shell'' \<and> ru_workspace (gw_runtime (dm_gate s)) = ''ws'')"
proof (cases "fst live_start")
  case (Inl e)
  with live_start_ok show ?thesis by simp
next
  case (Inr r)
  obtain cfg sv g where r: "r = (cfg, sv, g)" by (cases r) auto
  have n: "reg_list (ru_tools (gw_runtime g)) = [''mcp_files_shell'', ''shell'', ''time_now'']"
    "map ac_workspace (cf_agents cfg) = [''ws'']"
    using live_start_ok Inr r by simp_all
  obtain f' live where st: "main_start demo_surroundings (\<lambda>_. Inr demo_config) ''k'' (GTime 1) ''t'' ''nisix.json''
      live_disk () = (Inr (cfg, sv, g), f', live)"
    using Inr r by (metis live_start_def prod.collapse)
  obtain c where c: "daemon_reach (live_fixtures cfg sv) (\<lambda>_. Inl ''offline'') g
      \<lparr>dm_gate = g, dm_polls = polls_at_start (live_fixtures cfg sv) (\<lambda>_. Inl ''offline'') g, dm_conns = [c]\<rparr>"
    "\<not> wt_open c" by (rule reach_visited)
  from running_daemon_keeps_own_tools [OF st c(1)] n have "callable ''mcp_files_shell''" "ru_workspace (gw_runtime g) = ''ws''"
    by auto
  with n(1) c(2) have "\<exists>(s :: (string, unit) running) c. dm_conns s = [c] \<and> \<not> wt_open c
      \<and> ''mcp_files_shell'' \<in> set (reg_list (ru_tools (gw_runtime (dm_gate s)))) \<and> callable ''mcp_files_shell''
      \<and> ru_workspace (gw_runtime (dm_gate s)) = ''ws''"
    by (intro exI [of _ "\<lparr>dm_gate = g, dm_polls = polls_at_start (live_fixtures cfg sv) (\<lambda>_. Inl ''offline'') g,
      dm_conns = [c]\<rparr>"] exI [of _ c]) simp
  then show ?thesis unfolding Inr r by simp
qed

definition polled_fixtures :: "(unit, unit) fixtures" where
  "polled_fixtures = \<lparr>pr_os = unit_surroundings, pr_cfg = polled_config, pr_server = polled_server, pr_codec = polled_codec,
     pr_ws = \<lparr>we_server = polled_server, we_sess = file_session_env polled_codec, we_dec = demo_decoders, we_order = id\<rparr>\<rparr>"

definition polled_running :: "(unit, unit) running" where
  "polled_running = \<lparr>dm_gate = sv_gate (po_world polled_end), dm_polls = [polled_end], dm_conns = []\<rparr>"

lemma polled_reached: "daemon_reach polled_fixtures (\<lambda>_. Inl ''offline'') polled_gateway polled_running"
proof -
  let ?d = polled_fixtures
  have d: "pr_os ?d = unit_surroundings" "pr_cfg ?d = polled_config" "pr_server ?d = polled_server" "pr_codec ?d = polled_codec"
    by (simp_all add: polled_fixtures_def)
  have p: "polls_at_start ?d (\<lambda>_. Inl ''offline'') polled_gateway = [polled_start]"
    by (simp add: polls_at_start_def d polled_loaded(2) polled_start_def polled_service_def)
  have at: "poll_at polled_gateway polled_start = polled_start"
    by (simp add: poll_at_def polled_start_def start_polling_def polled_service_def)
  have 0: "daemon_reach ?d (\<lambda>_. Inl ''offline'') polled_gateway
      \<lparr>dm_gate = polled_gateway, dm_polls = [polled_start], dm_conns = []\<rparr>"
    using daemon_reach.started [of ?d "\<lambda>_. Inl ''offline''" polled_gateway] by (simp add: p)
  let ?s = "\<lparr>dm_gate = polled_gateway, dm_polls = [polled_start], dm_conns = []\<rparr>"
  have u: "poll_update (telegram_hooks (pr_os ?d) (pr_cfg ?d) (pr_server ?d) (\<lambda>_. demo_env) (pr_codec ?d) (\<lambda>_ _. GTime 5)
      polled_account) (GTime 5, GTime 5, polled_update) (poll_at (dm_gate ?s) (dm_polls ?s ! 0)) = polled_end"
    unfolding d polled_hooks_def by (simp add: at)
  have "0 < length (dm_polls ?s)" "polled_accounts (pr_cfg ?d) ! 0 = polled_account" by (simp_all add: d polled_loaded(2))
  from daemon_reach.stepped [OF 0 daemon_step.poll [OF this u]] show ?thesis by (simp add: polled_running_def)
qed


theorem running_updates_once_witness:
  "distinct (handled (po_out (dm_polls polled_running ! 0)))"
proof -
  have "0 < length (polled_accounts (pr_cfg polled_fixtures))"
    by (simp add: polled_fixtures_def polled_loaded(2))
  moreover have "int (length (po_out (dm_polls polled_running ! 0)))
      \<le> ta_window (po_adapter (dm_polls polled_running ! 0)) + 1"
  proof -
    have "0 < ta_window (po_adapter (dm_polls polled_running ! 0))"
      using polls_ok_reach [OF polled_reached] by (simp add: polls_ok_def polled_running_def window_inv_def dedupe_inv_def)
    then show ?thesis using polled_step(2) by (simp add: polled_running_def)
  qed
  ultimately show ?thesis
    using running_updates_once [OF polled_reached, of 0 "[]" "po_out (dm_polls polled_running ! 0)" "[]"] by simp
qed

end
