(* ===== verification/GoJson.thy ===== *)
theory GoJson
  imports GoUtf8
begin

text \<open>
  \<open>encoding/json\<close> as far as the source uses it: the bytes \<open>Marshal\<close> and \<open>MarshalIndent\<close> write for a
  value, and what \<open>Unmarshal\<close> reads. A number stays the text of its literal, as it does inside the
  package until it is stored; an object keeps the order and the repetitions of its members. The
  text of a syntax error is not modelled.
\<close>

datatype json =
    JNull
  | JBool bool
  | JNum string
  | JStr string
  | JArr "json list"
  | JObj "(string \<times> json) list"

section \<open>Writing\<close>

subsection \<open>Strings\<close>

abbreviation QUOTE :: char where "QUOTE \<equiv> CHR 0x22"
abbreviation BACKSLASH :: char where "BACKSLASH \<equiv> CHR 0x5C"

text \<open>The bytes below \<open>0x80\<close> that are written as they are: \<open>htmlSafeSet\<close>.\<close>

definition html_safe :: "char \<Rightarrow> bool" where
  "html_safe c \<longleftrightarrow> 32 \<le> byte_val c \<and> c \<notin> {QUOTE, BACKSLASH, CHR ''<'', CHR ''>'', CHR ''&''}"

definition escape_byte :: "char \<Rightarrow> string" where
  "escape_byte c =
     (if html_safe c then [c]
      else if c = QUOTE \<or> c = BACKSLASH then [BACKSLASH, c]
      else if c = CHR 0x08 then [BACKSLASH, CHR ''b'']
      else if c = CHR 0x0C then [BACKSLASH, CHR ''f'']
      else if c = CHR 0x0A then [BACKSLASH, CHR ''n'']
      else if c = CHR 0x0D then [BACKSLASH, CHR ''r'']
      else if c = CHR 0x09 then [BACKSLASH, CHR ''t'']
      else [BACKSLASH, CHR ''u'', CHR ''0'', CHR ''0'', hex_digit (byte_val c div 16), hex_digit (byte_val c mod 16)])"

fun quote_body :: "string \<Rightarrow> string" where
  "quote_body [] = []"
| "quote_body (c # s) =
     (if byte_val c < 128 then escape_byte c @ quote_body s
      else (case decode_rune c s of
              (r, n) \<Rightarrow>
                (if r = rune_error \<and> n = 1 then BACKSLASH # ''ufffd''
                 else if r = 8232 \<or> r = 8233 then BACKSLASH # ''u202'' @ [hex_digit (r mod 16)]
                 else c # take (n - 1) s) @ quote_body (drop (n - 1) s)))"

definition json_quote :: "string \<Rightarrow> string" where
  "json_quote s = QUOTE # quote_body s @ [QUOTE]"

subsection \<open>Values\<close>

definition commas :: "string list \<Rightarrow> string" where
  "commas ps = join '','' ps"

primrec json_text :: "json \<Rightarrow> string" where
  "json_text JNull = ''null''"
| "json_text (JBool b) = show_bool b"
| "json_text (JNum t) = t"
| "json_text (JStr s) = json_quote s"
| "json_text (JArr vs) = ''['' @ commas (map json_text vs) @ '']''"
| "json_text (JObj ms) = ''{'' @ commas (map (\<lambda>(k, t). json_quote k @ '':'' @ t) (map (map_prod id json_text) ms)) @ ''}''"

text \<open>\<open>MarshalIndent\<close> with an empty prefix and two blanks.\<close>

definition new_line :: "nat \<Rightarrow> string" where
  "new_line n = CHR 0x0A # replicate (2 * n) (CHR '' '')"

definition block_of :: "char \<Rightarrow> char \<Rightarrow> nat \<Rightarrow> string list \<Rightarrow> string" where
  "block_of opening closing n ps =
     (if ps = [] then [opening, closing]
      else [opening] @ new_line (Suc n) @ join ('','' @ new_line (Suc n)) ps @ new_line n @ [closing])"

primrec json_indent :: "json \<Rightarrow> nat \<Rightarrow> string" where
  "json_indent JNull = (\<lambda>n. ''null'')"
| "json_indent (JBool b) = (\<lambda>n. show_bool b)"
| "json_indent (JNum t) = (\<lambda>n. t)"
| "json_indent (JStr s) = (\<lambda>n. json_quote s)"
| "json_indent (JArr vs) = (\<lambda>n. block_of CHR ''['' CHR '']'' n (map (\<lambda>p. p (Suc n)) (map json_indent vs)))"
| "json_indent (JObj ms) = (\<lambda>n. block_of CHR ''{'' CHR ''}'' n
     (map (\<lambda>(k, p). json_quote k @ '': '' @ p (Suc n)) (map (map_prod id json_indent) ms)))"

section \<open>Reading\<close>

subsection \<open>Strings\<close>

definition hex_val :: "char \<Rightarrow> nat option" where
  "hex_val c =
     (let b = byte_val c
      in if 48 \<le> b \<and> b \<le> 57 then Some (b - 48)
         else if 97 \<le> b \<and> b \<le> 102 then Some (b - 87)
         else if 65 \<le> b \<and> b \<le> 70 then Some (b - 55)
         else None)"

definition hex4 :: "char \<Rightarrow> char \<Rightarrow> char \<Rightarrow> char \<Rightarrow> nat option" where
  "hex4 a b c d =
     (case (hex_val a, hex_val b, hex_val c, hex_val d) of
        (Some i, Some j, Some k, Some l) \<Rightarrow> Some (i * 4096 + j * 256 + k * 16 + l)
      | _ \<Rightarrow> None)"

text \<open>The raw text of a string after its opening quote, and what follows the closing one.\<close>

definition prepend :: "string \<Rightarrow> (string \<times> string) option \<Rightarrow> (string \<times> string) option" where
  "prepend p = map_option (\<lambda>(a, r). (p @ a, r))"

lemma prepend_simps [simp]:
  "prepend p None = None" "prepend p (Some (a, r)) = Some (p @ a, r)"
  "prepend p (prepend q x) = prepend (p @ q) x" "prepend [] x = x"
  by (cases x; auto simp: prepend_def)+

definition short_escape :: "char \<Rightarrow> bool" where
  "short_escape e \<longleftrightarrow> e \<in> {QUOTE, BACKSLASH, CHR ''/'', CHR ''b'', CHR ''f'', CHR ''n'', CHR ''r'', CHR ''t''}"

text \<open>The code unit of an escape at the beginning.\<close>

definition unit_at :: "string \<Rightarrow> nat option" where
  "unit_at s =
     (case s of
        b # u # x # y # z # w # _ \<Rightarrow> if b = BACKSLASH \<and> u = CHR ''u'' then hex4 x y z w else None
      | _ \<Rightarrow> None)"

text \<open>
  What the scanner takes at a time inside a string: a byte that is no control character, or an
  escape.
\<close>

definition string_chunk :: "char \<Rightarrow> string \<Rightarrow> (string \<times> string) option" where
  "string_chunk c s =
     (if byte_val c < 32 then None
      else if c \<noteq> BACKSLASH then Some ([c], s)
      else (case s of
              [] \<Rightarrow> None
            | e # s1 \<Rightarrow>
                if short_escape e then Some ([c, e], s1)
                else if unit_at (c # s) \<noteq> None then Some (c # take 5 s, drop 5 s)
                else None))"

lemma string_chunk_split: "string_chunk c s = Some (p, r) \<Longrightarrow> length r < Suc (length s)"
  by (auto simp: string_chunk_def split: if_splits list.splits)

function raw_string :: "string \<Rightarrow> (string \<times> string) option" where
  "raw_string [] = None"
| "raw_string (c # s) =
     (if c = QUOTE then Some ([], s)
      else (case string_chunk c s of None \<Rightarrow> None | Some (p, r) \<Rightarrow> prepend p (raw_string r)))"
  by pat_completeness auto
termination by (relation "measure length") (auto dest: string_chunk_split)

definition escaped :: "char \<Rightarrow> char" where
  "escaped e =
     (if e = CHR ''b'' then CHR 0x08 else if e = CHR ''f'' then CHR 0x0C else if e = CHR ''n'' then CHR 0x0A
      else if e = CHR ''r'' then CHR 0x0D else if e = CHR ''t'' then CHR 0x09 else e)"

text \<open>Code units that are no rune, and the rune of a pair of them.\<close>

definition is_surrogate :: "nat \<Rightarrow> bool" where
  "is_surrogate r \<longleftrightarrow> 55296 \<le> r \<and> r < 57344"

definition surrogate_pair :: "nat \<Rightarrow> nat \<Rightarrow> nat option" where
  "surrogate_pair r1 r2 =
     (if 55296 \<le> r1 \<and> r1 < 56320 \<and> 56320 \<le> r2 \<and> r2 < 57344
      then Some ((r1 - 55296) * 1024 + (r2 - 56320) + 65536) else None)"

text \<open>\<open>unquoteBytes\<close> on what \<open>raw_string\<close> has accepted.\<close>

fun unquote :: "string \<Rightarrow> string" where
  "unquote [] = []"
| "unquote (c # s) =
     (if c = BACKSLASH then
        (case unit_at (c # s) of
           Some r \<Rightarrow>
             if \<not> is_surrogate r then encode_rune r @ unquote (drop 5 s)
             else (case unit_at (drop 5 s) of
                     None \<Rightarrow> encode_rune rune_error @ unquote (drop 5 s)
                   | Some r' \<Rightarrow>
                       (case surrogate_pair r r' of
                          Some q \<Rightarrow> encode_rune q @ unquote (drop 11 s)
                        | None \<Rightarrow> encode_rune rune_error @ unquote (drop 5 s)))
         | None \<Rightarrow> (case s of [] \<Rightarrow> [] | e # s1 \<Rightarrow> escaped e # unquote s1))
      else if byte_val c < 128 then c # unquote s
      else (case decode_rune c s of (r, n) \<Rightarrow> encode_rune r @ unquote (drop (n - 1) s)))"

subsection \<open>Tokens\<close>

datatype token =
    TOpenArr | TCloseArr | TOpenObj | TCloseObj | TComma | TColon
  | TStr string | TNum string | TBool bool | TNull

text \<open>A number: an optional sign, digits without a leading zero, a fraction and an exponent.\<close>

definition digits_of :: "string \<Rightarrow> (string \<times> string) option" where
  "digits_of s = (if takeWhile is_digit s = [] then None else Some (takeWhile is_digit s, dropWhile is_digit s))"

definition int_part :: "string \<Rightarrow> (string \<times> string) option" where
  "int_part s =
     (case s of
        [] \<Rightarrow> None
      | c # r \<Rightarrow> if c = CHR ''0'' then Some ([c], r) else digits_of s)"

definition frac_part :: "string \<Rightarrow> (string \<times> string) option" where
  "frac_part s =
     (case s of
        [] \<Rightarrow> Some ([], [])
      | c # r \<Rightarrow> if c = CHR ''.'' then prepend [c] (digits_of r) else Some ([], s))"

definition exp_part :: "string \<Rightarrow> (string \<times> string) option" where
  "exp_part s =
     (case s of
        [] \<Rightarrow> Some ([], [])
      | c # r \<Rightarrow>
          if c = CHR ''e'' \<or> c = CHR ''E'' then
            (case r of
               [] \<Rightarrow> None
             | g # r' \<Rightarrow> if g = CHR ''+'' \<or> g = CHR ''-'' then prepend [c, g] (digits_of r')
                          else prepend [c] (digits_of r))
          else Some ([], s))"

definition and_then :: "(string \<times> string) option \<Rightarrow> (string \<Rightarrow> (string \<times> string) option) \<Rightarrow> (string \<times> string) option" where
  "and_then x f = (case x of None \<Rightarrow> None | Some (a, r) \<Rightarrow> prepend a (f r))"

definition unsigned_text :: "string \<Rightarrow> (string \<times> string) option" where
  "unsigned_text s = and_then (and_then (int_part s) frac_part) exp_part"

definition number_text :: "string \<Rightarrow> (string \<times> string) option" where
  "number_text s =
     (case s of
        [] \<Rightarrow> None
      | c # r \<Rightarrow> if c = CHR ''-'' then prepend [c] (unsigned_text r) else unsigned_text s)"

definition keyword :: "string \<Rightarrow> (token \<times> string) option" where
  "keyword s =
     (if has_prefix s ''null'' then Some (TNull, drop 4 s)
      else if has_prefix s ''true'' then Some (TBool True, drop 4 s)
      else if has_prefix s ''false'' then Some (TBool False, drop 5 s)
      else None)"

definition punctuation :: "char \<Rightarrow> token option" where
  "punctuation c =
     map_of [(CHR ''['', TOpenArr), (CHR '']'', TCloseArr), (CHR ''{'', TOpenObj), (CHR ''}'', TCloseObj),
       (CHR '','', TComma), (CHR '':'', TColon)] c"

definition json_space :: "char \<Rightarrow> bool" where
  "json_space c \<longleftrightarrow> c = CHR '' '' \<or> c = CHR 0x09 \<or> c = CHR 0x0A \<or> c = CHR 0x0D"

text \<open>The first token of a text that begins with no white space.\<close>

definition token_at :: "char \<Rightarrow> string \<Rightarrow> (token \<times> string) option" where
  "token_at c s =
     (case punctuation c of
        Some t \<Rightarrow> Some (t, s)
      | None \<Rightarrow>
          if c = QUOTE then map_option (map_prod (\<lambda>b. TStr (unquote b)) id) (raw_string s)
          else if c = CHR ''-'' \<or> is_digit c then map_option (map_prod TNum id) (number_text (c # s))
          else keyword (c # s))"

lemma prepend_Some: "prepend p x = Some (a, r) \<longleftrightarrow> (\<exists>b. x = Some (b, r) \<and> a = p @ b)"
  by (cases x) (auto simp: prepend_def)

lemma raw_string_length: "raw_string s = Some (b, r) \<Longrightarrow> length r < length s"
proof (induction s arbitrary: b r rule: raw_string.induct)
  case (2 c s)
  show ?case
  proof (cases "c = QUOTE")
    case False
    with 2(2) obtain p q b' where q: "string_chunk c s = Some (p, q)" "raw_string q = Some (b', r)"
      by (auto simp: prepend_Some split: option.splits)
    from 2(1) [OF False q(1) refl q(2)] string_chunk_split [OF q(1)] show ?thesis by simp
  qed (use 2(2) in simp)
qed simp

lemma digits_of_split: "digits_of s = Some (a, r) \<Longrightarrow> s = a @ r \<and> a \<noteq> []"
  by (auto simp: digits_of_def split: if_splits)

lemma parts_split:
  "int_part s = Some (a, r) \<Longrightarrow> s = a @ r \<and> a \<noteq> []"
  "frac_part s = Some (a, r) \<Longrightarrow> s = a @ r"
  "exp_part s = Some (a, r) \<Longrightarrow> s = a @ r"
  by (auto simp: int_part_def frac_part_def exp_part_def prepend_Some
      split: list.splits if_splits dest!: digits_of_split)

lemma and_then_Some: "and_then x f = Some (a, r) \<longleftrightarrow> (\<exists>b q c. x = Some (b, q) \<and> f q = Some (c, r) \<and> a = b @ c)"
  by (auto simp: and_then_def prepend_Some split: option.splits)

lemma unsigned_split: "unsigned_text s = Some (a, r) \<Longrightarrow> s = a @ r \<and> a \<noteq> []"
  by (auto simp: unsigned_text_def and_then_Some dest!: parts_split)

lemma number_split: "number_text s = Some (a, r) \<Longrightarrow> s = a @ r \<and> a \<noteq> []"
  by (auto simp: number_text_def prepend_Some split: list.splits if_splits dest: unsigned_split)

lemma token_at_length: "token_at c s = Some (t, r) \<Longrightarrow> length r < Suc (length s)"
proof -
  have "length r \<le> length s" if "number_text (c # s) = Some (a, r)" for a
    using number_split [OF that] by (cases a) auto
  then show "token_at c s = Some (t, r) \<Longrightarrow> length r < Suc (length s)"
    by (auto simp: token_at_def keyword_def less_Suc_eq_le split: option.splits if_splits
        dest: raw_string_length)
qed

function json_tokens :: "string \<Rightarrow> token list option" where
  "json_tokens [] = Some []"
| "json_tokens (c # s) =
     (if json_space c then json_tokens s
      else (case token_at c s of
              None \<Rightarrow> None
            | Some (t, r) \<Rightarrow> map_option (Cons t) (json_tokens r)))"
  by pat_completeness auto
termination by (relation "measure length") (auto dest: token_at_length)

subsection \<open>Values\<close>

text \<open>
  The parser is the state machine of the package's scanner: what may come next, and a stack with
  one frame for each open array or object. The stack is at most \<open>maxNestingDepth\<close> high.
\<close>

datatype frame = InArr "json list" | InObj "(string \<times> json) list" string

datatype scan =
    AtValue "frame list"
  | AtElement "frame list"
  | AtMember "frame list"
  | AtKey "(string \<times> json) list" "frame list"
  | AtColon "(string \<times> json) list" string "frame list"
  | Filled json "frame list"

definition max_depth :: int where "max_depth = 10000"

definition take_value :: "token \<Rightarrow> frame list \<Rightarrow> scan option" where
  "take_value t fs =
     (case t of
        TNull \<Rightarrow> Some (Filled JNull fs)
      | TBool b \<Rightarrow> Some (Filled (JBool b) fs)
      | TNum n \<Rightarrow> Some (Filled (JNum n) fs)
      | TStr s \<Rightarrow> Some (Filled (JStr s) fs)
      | TOpenArr \<Rightarrow> if int (length fs) < max_depth then Some (AtElement fs) else None
      | TOpenObj \<Rightarrow> if int (length fs) < max_depth then Some (AtMember fs) else None
      | _ \<Rightarrow> None)"

definition take_key :: "token \<Rightarrow> (string \<times> json) list \<Rightarrow> frame list \<Rightarrow> scan option" where
  "take_key t ms fs = (case t of TStr k \<Rightarrow> Some (AtColon ms k fs) | _ \<Rightarrow> None)"

fun scan_step :: "token \<Rightarrow> scan \<Rightarrow> scan option" where
  "scan_step t (AtValue fs) = take_value t fs"
| "scan_step t (AtElement fs) = (if t = TCloseArr then Some (Filled (JArr []) fs) else take_value t (InArr [] # fs))"
| "scan_step t (AtMember fs) = (if t = TCloseObj then Some (Filled (JObj []) fs) else take_key t [] fs)"
| "scan_step t (AtKey ms fs) = take_key t ms fs"
| "scan_step t (AtColon ms k fs) = (if t = TColon then Some (AtValue (InObj ms k # fs)) else None)"
| "scan_step t (Filled v []) = None"
| "scan_step t (Filled v (InArr vs # fs)) =
     (if t = TComma then Some (AtValue (InArr (vs @ [v]) # fs))
      else if t = TCloseArr then Some (Filled (JArr (vs @ [v])) fs)
      else None)"
| "scan_step t (Filled v (InObj ms k # fs)) =
     (if t = TComma then Some (AtKey (ms @ [(k, v)]) fs)
      else if t = TCloseObj then Some (Filled (JObj (ms @ [(k, v)])) fs)
      else None)"

fun scan_all :: "token list \<Rightarrow> scan \<Rightarrow> scan option" where
  "scan_all [] st = Some st"
| "scan_all (t # ts) st = (case scan_step t st of None \<Rightarrow> None | Some st' \<Rightarrow> scan_all ts st')"

definition parse_json :: "string \<Rightarrow> json option" where
  "parse_json s =
     (case json_tokens s of
        None \<Rightarrow> None
      | Some ts \<Rightarrow> (case scan_all ts (AtValue []) of Some (Filled v []) \<Rightarrow> Some v | _ \<Rightarrow> None))"

lemma json_samples:
  "parse_json ('' { '' @ [QUOTE, CHR ''a'', BACKSLASH, CHR ''n'', QUOTE] @ '' : [1, -2.5e+3, true, null], '' @ [QUOTE, QUOTE] @ '':{} }'')
     = Some (JObj [([CHR ''a'', CHR 0x0A], JArr [JNum ''1'', JNum ''-2.5e+3'', JBool True, JNull]), ([], JObj [])])"
  "parse_json ''[1,]'' = None" "parse_json ''01'' = None" "parse_json ''1 2'' = None" "parse_json ''truefalse'' = None"
  "parse_json [] = None"
  by code_simp+

section \<open>What is read back\<close>

subsection \<open>Strings\<close>

text \<open>\<open>Marshal\<close> writes valid UTF-8: an invalid byte comes back as \<open>U+FFFD\<close>.\<close>

definition repaired :: "string \<Rightarrow> string" where
  "repaired s = encode_runes (runes s)"

definition valid_utf8 :: "string \<Rightarrow> bool" where
  "valid_utf8 s \<longleftrightarrow> repaired s = s"

lemma repaired_valid [simp]: "valid_utf8 (repaired s)"
  by (simp add: valid_utf8_def repaired_def runes_scalar)

lemma hex_digit_val: "n < 16 \<Longrightarrow> hex_val (hex_digit n) = Some n"
  by (auto simp: hex_digit_def hex_val_def byte_val_def Let_def)

lemma byte_consts [simp]:
  "byte_val QUOTE = 34" "byte_val BACKSLASH = 92"
  by (simp_all add: byte_val_def)

lemma byte_val_inject: "byte_val a = byte_val b \<longleftrightarrow> a = b"
  by (metis byte_chr_val)

lemma raw_plain: "\<forall>x \<in> set p. 32 \<le> byte_val x \<and> x \<noteq> QUOTE \<and> x \<noteq> BACKSLASH \<Longrightarrow> raw_string (p @ t) = prepend p (raw_string t)"
  by (induction p) (simp_all add: string_chunk_def)

lemma raw_short: "short_escape e \<Longrightarrow> raw_string (BACKSLASH # e # t) = prepend [BACKSLASH, e] (raw_string t)"
  by (simp add: string_chunk_def)

lemma not_short_u: "\<not> short_escape (CHR ''u'')" by (simp add: short_escape_def)

lemma raw_unit:
  "hex4 x y z w \<noteq> None \<Longrightarrow> raw_string ([BACKSLASH, CHR ''u'', x, y, z, w] @ t)
     = prepend [BACKSLASH, CHR ''u'', x, y, z, w] (raw_string t)"
  by (simp add: string_chunk_def unit_at_def not_short_u)

lemma unquote_unit:
  assumes "hex4 x y z w = Some r" "\<not> is_surrogate r"
  shows "unquote ([BACKSLASH, CHR ''u'', x, y, z, w] @ t) = encode_rune r @ unquote t"
  using assms by (simp add: unit_at_def)

lemma unquote_short:
  "e \<noteq> CHR ''u'' \<Longrightarrow> unquote (BACKSLASH # e # t) = escaped e # unquote t"
  by (simp add: unit_at_def split: list.split)

lemma unquote_rune:
  assumes "decode_rune c s = (r, n)" "\<not> (r = rune_error \<and> n = 1)" "128 \<le> byte_val c"
  shows "unquote (c # take (n - 1) s @ t) = encode_rune r @ unquote t"
proof -
  have "c \<noteq> BACKSLASH" using assms(3) by auto
  moreover have "length (take (n - 1) s) = n - 1" using decode_size [OF assms(1)] by simp
  ultimately show ?thesis using assms(3) decode_local [OF assms(1,2), of t] by simp
qed

lemma escape_cases:
  assumes "byte_val c < 128"
  obtains (plain) "escape_byte c = [c]" "32 \<le> byte_val c" "c \<noteq> QUOTE" "c \<noteq> BACKSLASH"
    | (short) e where "escape_byte c = [BACKSLASH, e]" "short_escape e" "e \<noteq> CHR ''u''" "escaped e = c"
    | (unit) x y where "escape_byte c = [BACKSLASH, CHR ''u'', CHR ''0'', CHR ''0'', x, y]"
        "hex4 CHR ''0'' CHR ''0'' x y = Some (byte_val c)"
proof -
  let ?h = "byte_val c div 16" and ?l = "byte_val c mod 16"
  have h: "hex4 CHR ''0'' CHR ''0'' (hex_digit ?h) (hex_digit ?l) = Some (byte_val c)"
    using assms by (simp add: hex4_def hex_digit_val) (simp add: hex_val_def byte_val_def)
  have s: "short_escape e" if "e \<in> {QUOTE, BACKSLASH, CHR ''b'', CHR ''f'', CHR ''n'', CHR ''r'', CHR ''t''}" for e
    using that by (auto simp: short_escape_def)
  show thesis
  proof (cases "html_safe c")
    case True
    then show thesis by (intro plain) (auto simp: escape_byte_def html_safe_def)
  next
    case False
    consider "c = QUOTE" | "c = BACKSLASH" | "c = CHR 0x08" | "c = CHR 0x0C" | "c = CHR 0x0A" | "c = CHR 0x0D" | "c = CHR 0x09"
      | "escape_byte c = [BACKSLASH, CHR ''u'', CHR ''0'', CHR ''0'', hex_digit ?h, hex_digit ?l]"
      using False unfolding escape_byte_def by presburger
    then show thesis
    proof cases
      case 8
      then show thesis using h by (rule unit)
    qed (rule short [OF _ s], auto simp: escape_byte_def escaped_def html_safe_def byte_val_def)+
  qed
qed

lemma quote_escape:
  assumes "byte_val c < 128"
  shows "raw_string (escape_byte c @ t) = prepend (escape_byte c) (raw_string t)
    \<and> unquote (escape_byte c @ t) = c # unquote t"
  using assms
proof (cases rule: escape_cases)
  case plain
  with raw_plain [of "[c]" t] assms show ?thesis by simp
next
  case (short e)
  then show ?thesis using raw_short [of e t] unquote_short [of e t] by simp
next
  case (unit x y)
  have "\<not> is_surrogate (byte_val c)" "encode_rune (byte_val c) = [c]"
    using assms by (simp_all add: is_surrogate_def encode_rune_def)
  with raw_unit [of "CHR ''0''" "CHR ''0''" x y t] unquote_unit [OF unit(2), of t] show ?thesis
    by (simp only: unit append.simps) (simp add: unit(2))
qed

lemma quote_reads:
  "raw_string (quote_body s @ t) = prepend (quote_body s) (raw_string t)
    \<and> unquote (quote_body s @ t) = repaired s @ unquote t"
proof (induction s rule: quote_body.induct)
  case (2 c s)
  obtain r n where d: "decode_rune c s = (r, n)" by fastforce
  have rep: "repaired (c # s) = encode_rune r @ repaired (drop (n - 1) s)" by (simp add: repaired_def d)
  show ?case
  proof (cases "byte_val c < 128")
    case True
    then have "r = byte_val c" "n = 1" using d by (simp_all add: decode_rune_def)
    with True rep have "repaired (c # s) = c # repaired s" by (simp add: encode_rune_def)
    have q: "quote_body (c # s) = escape_byte c @ quote_body s" using True by simp
    from 2(1) [OF True] quote_escape [OF True, of "quote_body s @ t"] show ?thesis
      by (simp only: q \<open>repaired (c # s) = c # repaired s\<close> append_assoc prepend_simps append_Cons simp_thms)
  next
    case False
    define p where "p = (if r = rune_error \<and> n = 1 then BACKSLASH # ''ufffd''
      else if r = 8232 \<or> r = 8233 then BACKSLASH # ''u202'' @ [hex_digit (r mod 16)] else c # take (n - 1) s)"
    let ?q = "quote_body (drop (n - 1) s) @ t"
    have unit: "raw_string (p @ ?q) = prepend p (raw_string ?q) \<and> unquote (p @ ?q) = encode_rune r @ unquote ?q"
      if "p = [BACKSLASH, CHR ''u'', x, y, z, w]" "hex4 x y z w = Some r" "\<not> is_surrogate r" for x y z w
      using raw_unit [of x y z w ?q] unquote_unit [OF that(2,3), of ?q] that(2) unfolding that(1) by simp
    have "raw_string (p @ ?q) = prepend p (raw_string ?q) \<and> unquote (p @ ?q) = encode_rune r @ unquote ?q"
    proof (cases "r = rune_error \<and> n = 1")
      case True
      have "hex4 CHR ''f'' CHR ''f'' CHR ''f'' CHR ''d'' = Some rune_error"
        by (simp add: hex4_def hex_val_def byte_val_def rune_error_def)
      moreover have "p = [BACKSLASH, CHR ''u'', CHR ''f'', CHR ''f'', CHR ''f'', CHR ''d'']" using True by (simp add: p_def)
      ultimately show ?thesis using True by (intro unit) (simp_all add: is_surrogate_def rune_error_def)
    next
      case valid: False
      show ?thesis
      proof (cases "r = 8232 \<or> r = 8233")
        case True
        have "hex4 CHR ''2'' CHR ''0'' CHR ''2'' (hex_digit (8232 mod 16)) = Some 8232"
          "hex4 CHR ''2'' CHR ''0'' CHR ''2'' (hex_digit (8233 mod 16)) = Some 8233"
          by (simp_all add: hex4_def hex_val_def hex_digit_def byte_val_def)
        with True have "hex4 CHR ''2'' CHR ''0'' CHR ''2'' (hex_digit (r mod 16)) = Some r" by auto
        moreover have "p = [BACKSLASH, CHR ''u'', CHR ''2'', CHR ''0'', CHR ''2'', hex_digit (r mod 16)]"
          using True valid by (auto simp: p_def rune_error_def)
        ultimately show ?thesis using True by (intro unit) (auto simp: is_surrogate_def)
      next
        case False
        have "128 \<le> byte_val c" using \<open>\<not> byte_val c < 128\<close> by simp
        from decode_high [OF d valid this] have "\<forall>x \<in> set (c # take (n - 1) s). 32 \<le> byte_val x \<and> x \<noteq> QUOTE \<and> x \<noteq> BACKSLASH"
          by fastforce
        from raw_plain [OF this, of ?q] have "raw_string (c # take (n - 1) s @ ?q) = prepend (c # take (n - 1) s) (raw_string ?q)"
          by (simp only: append_Cons)
        moreover have "p = c # take (n - 1) s" using False valid by (auto simp: p_def)
        ultimately show ?thesis using unquote_rune [OF d valid \<open>128 \<le> byte_val c\<close>, of ?q] by (simp only: append_Cons simp_thms)
      qed
    qed
    moreover have "quote_body (c # s) = p @ quote_body (drop (n - 1) s)" using False by (simp add: d p_def)
    moreover note 2(2) [OF False d [symmetric]]
    ultimately show ?thesis by (simp only: rep append_assoc prepend_simps simp_thms)
  qed
qed (simp_all add: repaired_def)

lemma raw_quoted: "raw_string (quote_body s @ QUOTE # t) = Some (quote_body s, t)"
  using quote_reads [of s "QUOTE # t"] by simp

lemma unquote_quoted: "unquote (quote_body s) = repaired s"
  using quote_reads [of s "[]"] by simp

lemma tokens_quoted: "json_tokens (json_quote s @ t) = map_option (Cons (TStr (repaired s))) (json_tokens t)"
  by (simp add: json_quote_def json_space_def token_at_def punctuation_def raw_quoted unquote_quoted)

subsection \<open>Numbers\<close>

definition number_ok :: "string \<Rightarrow> bool" where
  "number_ok t \<longleftrightarrow> number_text t = Some (t, [])"

text \<open>What follows does not go on with the number.\<close>

definition ends :: "string \<Rightarrow> bool" where
  "ends r \<longleftrightarrow> (case r of [] \<Rightarrow> True | c # _ \<Rightarrow> \<not> is_digit c \<and> c \<notin> {CHR ''.'', CHR ''e'', CHR ''E''})"

lemma ends_simps [simp]: "ends []" "ends (c # r) \<longleftrightarrow> \<not> is_digit c \<and> c \<notin> {CHR ''.'', CHR ''e'', CHR ''E''}"
  by (simp_all add: ends_def)

lemma digits_more:
  assumes "digits_of s = Some (a, b)" "ends r"
  shows "digits_of (s @ r) = Some (a, b @ r)"
proof -
  have a: "a = takeWhile is_digit s" "b = dropWhile is_digit s" "takeWhile is_digit s \<noteq> []"
    using assms(1) by (auto simp: digits_of_def split: if_splits)
  have "takeWhile is_digit (s @ r) = a \<and> dropWhile is_digit (s @ r) = b @ r"
  proof (cases "\<forall>c \<in> set s. is_digit c")
    case True
    then have "takeWhile is_digit s = s" "dropWhile is_digit s = []" by (simp_all add: takeWhile_eq_all_conv)
    with True a assms(2) show ?thesis by (cases r) (simp_all add: takeWhile_append2 dropWhile_append2)
  next
    case False
    then show ?thesis using a by (auto simp: takeWhile_append1 dropWhile_append1)
  qed
  then show ?thesis using a by (simp add: digits_of_def)
qed

lemma parts_more:
  assumes "ends r"
  shows "int_part s = Some (a, b) \<Longrightarrow> int_part (s @ r) = Some (a, b @ r)"
    "frac_part s = Some (a, b) \<Longrightarrow> frac_part (s @ r) = Some (a, b @ r)"
    "exp_part s = Some (a, b) \<Longrightarrow> exp_part (s @ r) = Some (a, b @ r)"
proof -
  note more = digits_more [OF _ assms]
  show "int_part s = Some (a, b) \<Longrightarrow> int_part (s @ r) = Some (a, b @ r)"
    using more [of s a b] by (cases s) (auto simp: int_part_def split: if_splits)
  show "frac_part s = Some (a, b) \<Longrightarrow> frac_part (s @ r) = Some (a, b @ r)"
    using assms by (cases s; cases r) (auto simp: frac_part_def prepend_Some split: if_splits dest: more)
  show "exp_part s = Some (a, b) \<Longrightarrow> exp_part (s @ r) = Some (a, b @ r)"
  proof (cases s)
    case Nil
    then show "exp_part s = Some (a, b) \<Longrightarrow> ?thesis" using assms by (cases r) (auto simp: exp_part_def)
  next
    case (Cons c s')
    then show "exp_part s = Some (a, b) \<Longrightarrow> ?thesis"
      by (cases s') (auto simp: exp_part_def prepend_Some split: if_splits dest: more)
  qed
qed

lemma number_more:
  assumes "number_ok t" "ends r"
  shows "number_text (t @ r) = Some (t, r)"
proof -
  have u: "unsigned_text (s @ r) = Some (a, b @ r)" if "unsigned_text s = Some (a, b)" for s a b
    using that parts_more [OF assms(2)] unfolding unsigned_text_def and_then_Some by blast
  have "t \<noteq> []" using assms(1) by (auto simp: number_ok_def number_text_def)
  with assms(1) show ?thesis
    by (cases t) (auto simp: number_ok_def number_text_def prepend_Some split: if_splits dest: u)
qed

lemma number_start:
  assumes "number_ok t"
  obtains c s where "t = c # s" "c = CHR ''-'' \<or> is_digit c"
proof (cases t)
  case Nil
  with assms show thesis by (simp add: number_ok_def number_text_def)
next
  case (Cons c s)
  have "is_digit c" if "c \<noteq> CHR ''-''"
  proof -
    from assms Cons that have "int_part (c # s) \<noteq> None"
      by (auto simp: number_ok_def number_text_def unsigned_text_def and_then_def split: option.splits)
    then show ?thesis by (auto simp: int_part_def digits_of_def is_digit_def split: if_splits)
  qed
  with Cons that show thesis by blast
qed

lemma digit_plain:
  assumes "c = CHR ''-'' \<or> is_digit c"
  shows "\<not> json_space c" "punctuation c = None" "c \<noteq> QUOTE"
  using assms by (auto simp: is_digit_def json_space_def punctuation_def)

lemma tokens_number:
  assumes "number_ok t" "ends r"
  shows "json_tokens (t @ r) = map_option (Cons (TNum t)) (json_tokens r)"
proof -
  obtain c s where t: "t = c # s" "c = CHR ''-'' \<or> is_digit c" using assms(1) by (rule number_start)
  have "token_at c (s @ r) = Some (TNum t, r)"
    using number_more [OF assms] digit_plain [OF t(2)] t by (simp add: token_at_def)
  then show ?thesis using digit_plain(1) [OF t(2)] by (simp add: t(1))
qed

lemma nat_itoa_zero: "hd (nat_itoa n) = CHR ''0'' \<Longrightarrow> n = 0"
proof (induction n rule: nat_itoa.induct)
  case (1 n)
  show ?case
  proof (cases "n < 10")
    case True
    have "of_char (digit_char n) = (48 + n :: nat)" using True by (simp add: digit_char_def)
    moreover have "digit_char n = CHR ''0''" using 1(2) True by (subst (asm) nat_itoa.simps) simp
    ultimately show ?thesis by simp
  next
    case False
    have "hd (nat_itoa n) = hd (nat_itoa (n div 10))" using False by (subst nat_itoa.simps) simp
    with 1 False show ?thesis by simp
  qed
qed

lemma number_itoa [simp]: "number_ok (itoa i)"
proof -
  have z: "nat_itoa 0 = ''0''" by code_simp
  have "unsigned_text (nat_itoa n) = Some (nat_itoa n, [])" for n
  proof -
    have "int_part (nat_itoa n) = Some (nat_itoa n, [])"
    proof (cases "n = 0")
      case True
      then show ?thesis by (simp add: int_part_def z)
    next
      case False
      obtain c s where c: "nat_itoa n = c # s" by (meson list.exhaust nat_itoa_not_Nil)
      then have "c \<noteq> CHR ''0''" using nat_itoa_zero [of n] False by auto
      moreover have "digits_of (nat_itoa n) = Some (nat_itoa n, [])"
        using nat_itoa_digits [of _ n] by (simp add: digits_of_def takeWhile_eq_all_conv [THEN iffD2])
      ultimately show ?thesis by (simp add: int_part_def c)
    qed
    then show ?thesis by (simp add: unsigned_text_def and_then_def frac_part_def exp_part_def)
  qed
  then have "number_text (nat_itoa n) = Some (nat_itoa n, [])" for n
    using nat_itoa_hd [of n] by (cases "nat_itoa n") (auto simp: number_text_def, metis)
  with \<open>\<And>n. unsigned_text (nat_itoa n) = Some (nat_itoa n, [])\<close> show ?thesis
    by (auto simp: number_ok_def itoa_def) (simp add: number_text_def)
qed

subsection \<open>Values\<close>

declare raw_string.simps [simp del] unquote.simps [simp del] json_tokens.simps(2) [simp del]

fun between_commas :: "token list list \<Rightarrow> token list" where
  "between_commas [] = []"
| "between_commas [ts] = ts"
| "between_commas (ts # us # tss) = ts @ TComma # between_commas (us # tss)"

primrec value_tokens :: "json \<Rightarrow> token list" where
  "value_tokens JNull = [TNull]"
| "value_tokens (JBool b) = [TBool b]"
| "value_tokens (JNum t) = [TNum t]"
| "value_tokens (JStr s) = [TStr (repaired s)]"
| "value_tokens (JArr vs) = TOpenArr # between_commas (map value_tokens vs) @ [TCloseArr]"
| "value_tokens (JObj ms) = TOpenObj # between_commas
     (map (\<lambda>(k, ts). TStr (repaired k) # TColon # ts) (map (map_prod id value_tokens) ms)) @ [TCloseObj]"

text \<open>Every number of a value is a literal; every string is repaired.\<close>

primrec numbers_ok :: "json \<Rightarrow> bool" where
  "numbers_ok JNull = True"
| "numbers_ok (JBool b) = True"
| "numbers_ok (JNum t) = number_ok t"
| "numbers_ok (JStr s) = True"
| "numbers_ok (JArr vs) = list_all id (map numbers_ok vs)"
| "numbers_ok (JObj ms) = list_all snd (map (map_prod id numbers_ok) ms)"

primrec mended :: "json \<Rightarrow> json" where
  "mended JNull = JNull"
| "mended (JBool b) = JBool b"
| "mended (JNum t) = JNum t"
| "mended (JStr s) = JStr (repaired s)"
| "mended (JArr vs) = JArr (map mended vs)"
| "mended (JObj ms) = JObj (map (map_prod repaired mended) ms)"

primrec depth :: "json \<Rightarrow> nat" where
  "depth JNull = 0"
| "depth (JBool b) = 0"
| "depth (JNum t) = 0"
| "depth (JStr s) = 0"
| "depth (JArr vs) = Suc (foldr max (map depth vs) 0)"
| "depth (JObj ms) = Suc (foldr max (map snd (map (map_prod id depth) ms)) 0)"

lemma json_induct [case_names null bool num str arr obj, induct type: json]:
  assumes "P JNull" "\<And>b. P (JBool b)" "\<And>t. P (JNum t)" "\<And>s. P (JStr s)"
    and "\<And>vs. (\<And>v. v \<in> set vs \<Longrightarrow> P v) \<Longrightarrow> P (JArr vs)"
    and "\<And>ms. (\<And>k v. (k, v) \<in> set ms \<Longrightarrow> P v) \<Longrightarrow> P (JObj ms)"
  shows "P v"
proof (induction v rule: json.induct)
  case (JObj ms)
  have "P v" if "(k, v) \<in> set ms" for k v using JObj [OF that] by (simp add: prod_set_simps)
  with assms(6) show ?case by blast
qed (use assms in blast)+

text \<open>
  A text that becomes these tokens whatever follows, and one that does so unless what follows could
  go on with a number.
\<close>

definition closed_text :: "string \<Rightarrow> token list \<Rightarrow> bool" where
  "closed_text p ts \<longleftrightarrow> (\<forall>r. json_tokens (p @ r) = map_option ((@) ts) (json_tokens r))"

definition open_text :: "string \<Rightarrow> token list \<Rightarrow> bool" where
  "open_text p ts \<longleftrightarrow> (\<forall>r. ends r \<longrightarrow> json_tokens (p @ r) = map_option ((@) ts) (json_tokens r))"

lemma map_append_append: "map_option ((@) ts) (map_option ((@) us) x) = map_option ((@) (ts @ us)) x"
  by (cases x) simp_all

lemma map_append_one [simp]:
  "map_option ((@) []) x = x" "map_option ((@) [t]) x = map_option (Cons t) x"
  by (cases x; simp)+

lemma closed_open: "closed_text p ts \<Longrightarrow> open_text p ts"
  by (simp add: closed_text_def open_text_def)

lemma closed_append: "closed_text p ts \<Longrightarrow> closed_text q us \<Longrightarrow> closed_text (p @ q) (ts @ us)"
  by (simp add: closed_text_def map_append_append)

lemma closed_open_append: "closed_text p ts \<Longrightarrow> open_text q us \<Longrightarrow> open_text (p @ q) (ts @ us)"
  by (simp add: closed_text_def open_text_def map_append_append)

lemma open_closed_append: "open_text p ts \<Longrightarrow> closed_text q us \<Longrightarrow> q \<noteq> [] \<Longrightarrow> ends q \<Longrightarrow> closed_text (p @ q) (ts @ us)"
  by (cases q) (auto simp: closed_text_def open_text_def map_append_append)

lemma open_open_append: "open_text p ts \<Longrightarrow> open_text q us \<Longrightarrow> q \<noteq> [] \<Longrightarrow> ends q \<Longrightarrow> open_text (p @ q) (ts @ us)"
  by (cases q) (auto simp: open_text_def map_append_append)

lemma closed_Nil: "closed_text [] []"
  by (simp add: closed_text_def)

lemma closed_punctuation: "punctuation c = Some t \<Longrightarrow> closed_text [c] [t]"
  by (auto simp: closed_text_def json_tokens.simps token_at_def punctuation_def json_space_def split: if_splits)

lemma closed_space: "json_space c \<Longrightarrow> closed_text [c] []"
  by (simp add: closed_text_def json_tokens.simps)

lemma closed_quoted: "closed_text (json_quote s) [TStr (repaired s)]"
  using tokens_quoted by (auto simp: closed_text_def)

lemma closed_keyword:
  "closed_text ''null'' [TNull]" "closed_text (show_bool b) [TBool b]"
  by (auto simp: closed_text_def json_tokens.simps json_space_def token_at_def punctuation_def keyword_def is_digit_def
      show_bool_def)

lemma open_number: "number_ok t \<Longrightarrow> open_text t [TNum t]"
  using tokens_number by (auto simp: open_text_def)

lemma punctuation_simps [simp]:
  "punctuation CHR ''['' = Some TOpenArr" "punctuation CHR '']'' = Some TCloseArr"
  "punctuation CHR ''{'' = Some TOpenObj" "punctuation CHR ''}'' = Some TCloseObj"
  "punctuation CHR '','' = Some TComma" "punctuation CHR '':'' = Some TColon"
  by (simp_all add: punctuation_def)

lemma open_join:
  assumes "list_all2 open_text ps tss" "closed_text sep [TComma]" "sep \<noteq> []" "ends sep"
  shows "open_text (join sep ps) (between_commas tss)"
  using assms(1)
proof (induction tss arbitrary: ps rule: between_commas.induct)
  case (3 ts us tss)
  then obtain p q ps' where p: "ps = p # q # ps'" "open_text p ts" "list_all2 open_text (q # ps') (us # tss)"
    by (auto simp: list_all2_Cons2)
  have "open_text (sep @ join sep (q # ps')) ([TComma] @ between_commas (us # tss))"
    by (rule closed_open_append [OF assms(2) 3(1) [OF p(3)]])
  from open_open_append [OF p(2) this] assms(3,4) show ?case
    by (cases sep) (simp_all add: p(1))
next
  case (2 ts)
  then show ?case by (auto simp: list_all2_Cons2)
qed (auto intro: closed_open closed_Nil)

lemma closed_brackets:
  assumes "open_text p ts" "punctuation c = Some t" "punctuation d = Some u"
  shows "closed_text ([c] @ p @ [d]) ([t] @ ts @ [u])"
proof -
  have "ends [d]" using assms(3) by (auto simp: punctuation_def is_digit_def split: if_splits)
  with open_closed_append [OF assms(1) closed_punctuation [OF assms(3)]] have "closed_text (p @ [d]) (ts @ [u])" by simp
  from closed_append [OF closed_punctuation [OF assms(2)] this] show ?thesis .
qed

lemma ends_comma [simp]: "ends [CHR '','']" "ends (CHR '','' # r)" "ends (CHR 0x0A # r)"
  by (simp_all add: is_digit_def)

lemma open_commas: "list_all2 open_text ps tss \<Longrightarrow> open_text (commas ps) (between_commas tss)"
  unfolding commas_def by (rule open_join) (simp_all add: closed_punctuation is_digit_def)

lemma open_member: "open_text p ts \<Longrightarrow> open_text (json_quote k @ '':'' @ p) (TStr (repaired k) # TColon # ts)"
  using closed_open_append [OF closed_append [OF closed_quoted closed_punctuation [of "CHR '':''" TColon]]] by simp

lemma json_text_tokens: "numbers_ok v \<Longrightarrow> open_text (json_text v) (value_tokens v)"
proof (induction v)
  case (arr vs)
  then have "list_all2 open_text (map json_text vs) (map value_tokens vs)"
    by (simp add: list_all2_conv_all_nth list_all_length)
  from closed_brackets [OF open_commas [OF this] punctuation_simps(1,2)] show ?case
    by (simp add: closed_open)
next
  case (obj ms)
  have "open_text (json_text (snd (ms ! i))) (value_tokens (snd (ms ! i)))" if "i < length ms" for i
    using obj(1) [of "fst (ms ! i)" "snd (ms ! i)"] obj(2) that by (simp add: list_all_length)
  then have "list_all2 open_text (map (\<lambda>(k, t). json_quote k @ '':'' @ t) (map (map_prod id json_text) ms))
      (map (\<lambda>(k, ts). TStr (repaired k) # TColon # ts) (map (map_prod id value_tokens) ms))"
    by (auto simp: list_all2_conv_all_nth split_def intro!: open_member [simplified])
  from closed_brackets [OF open_commas [OF this] punctuation_simps(3,4)] show ?case
    by (simp add: closed_open)
qed (auto intro: closed_open closed_keyword closed_quoted open_number)

lemma closed_new_line: "closed_text (new_line n) []"
proof -
  have "closed_text (replicate m (CHR '' '')) []" for m
  proof (induction m)
    case (Suc m)
    from closed_append [OF closed_space [of "CHR '' ''"] Suc] show ?case by (simp add: json_space_def)
  qed (simp add: closed_Nil)
  from closed_append [OF closed_space [of "CHR 0x0A"] this] show ?thesis
    by (simp add: new_line_def json_space_def)
qed

lemma open_block:
  assumes "list_all2 open_text ps tss" "punctuation c = Some t" "punctuation d = Some u"
  shows "open_text (block_of c d n ps) ([t] @ between_commas tss @ [u])"
proof (cases "ps = []")
  case True
  with closed_append [OF closed_punctuation closed_punctuation, OF assms(2,3)] assms(1) show ?thesis
    by (simp add: block_of_def closed_open)
next
  case False
  have "closed_text ('','' @ new_line (Suc n)) [TComma]"
    using closed_append [OF closed_punctuation closed_new_line, of "CHR '',''" TComma "Suc n"] by simp
  from open_join [OF assms(1) this] have "open_text (join ('','' @ new_line (Suc n)) ps) (between_commas tss)"
    by (simp add: is_digit_def)
  from closed_open_append [OF closed_new_line this] have "open_text (new_line (Suc n) @ join ('','' @ new_line (Suc n)) ps) (between_commas tss)"
    by simp
  from open_closed_append [OF this closed_new_line] have "closed_text ((new_line (Suc n) @ join ('','' @ new_line (Suc n)) ps) @ new_line n) (between_commas tss)"
    by (simp add: new_line_def is_digit_def)
  from closed_brackets [OF closed_open [OF this] assms(2,3)] False show ?thesis
    by (simp add: block_of_def closed_open)
qed

lemma json_indent_tokens: "numbers_ok v \<Longrightarrow> open_text (json_indent v n) (value_tokens v)"
proof (induction v arbitrary: n)
  case (arr vs)
  then have "list_all2 open_text (map (\<lambda>p. p (Suc n)) (map json_indent vs)) (map value_tokens vs)"
    by (simp add: list_all2_conv_all_nth list_all_length)
  from open_block [OF this punctuation_simps(1,2)] show ?case by simp
next
  case (obj ms)
  have blank: "closed_text '': '' [TColon]"
    using closed_append [OF closed_punctuation closed_space, of "CHR '':''" TColon "CHR '' ''"] by (simp add: json_space_def)
  have "open_text (json_quote k @ '': '' @ p) (TStr (repaired k) # TColon # ts)" if "open_text p ts" for k p ts
    using closed_open_append [OF closed_append [OF closed_quoted blank] that] by simp
  moreover have "open_text (json_indent (snd (ms ! i)) (Suc n)) (value_tokens (snd (ms ! i)))" if "i < length ms" for i
    using obj(1) [of "fst (ms ! i)" "snd (ms ! i)"] obj(2) that by (simp add: list_all_length)
  ultimately have "list_all2 open_text (map (\<lambda>(k, p). json_quote k @ '': '' @ p (Suc n)) (map (map_prod id json_indent) ms))
      (map (\<lambda>(k, ts). TStr (repaired k) # TColon # ts) (map (map_prod id value_tokens) ms))"
    by (auto simp: list_all2_conv_all_nth split_def)
  from open_block [OF this punctuation_simps(3,4)] show ?case by simp
qed (auto intro: closed_open closed_keyword closed_quoted open_number)

subsection \<open>Scanning\<close>

lemma value_tokens_start: "\<exists>t ts. value_tokens v = t # ts \<and> t \<noteq> TCloseArr \<and> t \<noteq> TComma"
  by (cases v) simp_all

lemma scan_element:
  "scan_all (value_tokens v @ ts) (AtElement fs) = scan_all (value_tokens v @ ts) (AtValue (InArr [] # fs))"
  using value_tokens_start [of v] by auto

lemma scan_first:
  "scan_all (between_commas (map value_tokens (v # vs)) @ ts) (AtElement fs)
    = scan_all (between_commas (map value_tokens (v # vs)) @ ts) (AtValue (InArr [] # fs))"
proof -
  have "\<exists>r. between_commas (map value_tokens (v # vs)) = value_tokens v @ r" by (cases vs) auto
  then show ?thesis using scan_element by fastforce
qed

lemma scan_first_member:
  "scan_all (between_commas (map (\<lambda>(k, ts). TStr (repaired k) # TColon # ts) (m # ms)) @ ts) (AtMember fs)
    = scan_all (between_commas (map (\<lambda>(k, ts). TStr (repaired k) # TColon # ts) (m # ms)) @ ts) (AtKey [] fs)"
  by (cases m; cases ms) (simp_all add: take_key_def)

lemma depth_fold: "foldr max xs 0 \<le> (m :: nat) \<longleftrightarrow> (\<forall>x \<in> set xs. x \<le> m)"
  by (induction xs) auto

definition scans :: "json \<Rightarrow> bool" where
  "scans v \<longleftrightarrow> (\<forall>fs ts. int (length fs) + int (depth v) \<le> max_depth \<longrightarrow>
     scan_all (value_tokens v @ ts) (AtValue fs) = scan_all ts (Filled (mended v) fs))"

lemma scan_elements:
  assumes "\<forall>x \<in> set (v # vs). scans x \<and> int (Suc (length fs)) + int (depth x) \<le> max_depth"
  shows "scan_all (between_commas (map value_tokens (v # vs)) @ TCloseArr # ts) (AtValue (InArr acc # fs))
    = scan_all ts (Filled (JArr (acc @ map mended (v # vs))) fs)"
  using assms
proof (induction vs arbitrary: v acc)
  case Nil
  then show ?case by (simp add: scans_def)
next
  case (Cons w ws)
  have "scan_all (value_tokens v @ TComma # r) (AtValue (InArr acc # fs)) = scan_all r (AtValue (InArr (acc @ [mended v]) # fs))" for r
    using Cons.prems by (simp add: scans_def)
  moreover have "\<forall>x \<in> set (w # ws). scans x \<and> int (Suc (length fs)) + int (depth x) \<le> max_depth" using Cons.prems by simp
  note Cons.IH [OF this, of "acc @ [mended v]"]
  ultimately show ?case by simp
qed

lemma scan_members:
  assumes "\<forall>x \<in> set (m # ms). scans (snd x) \<and> int (Suc (length fs)) + int (depth (snd x)) \<le> max_depth"
  shows "scan_all (between_commas (map (\<lambda>(k, ts). TStr (repaired k) # TColon # ts) (map (map_prod id value_tokens) (m # ms)))
      @ TCloseObj # ts) (AtKey acc fs)
    = scan_all ts (Filled (JObj (acc @ map (map_prod repaired mended) (m # ms))) fs)"
  using assms
proof (induction ms arbitrary: m acc)
  case Nil
  then show ?case by (cases m) (simp add: scans_def take_key_def)
next
  case (Cons n ns)
  have "scan_all (TStr (repaired (fst m)) # TColon # value_tokens (snd m) @ TComma # r) (AtKey acc fs)
      = scan_all r (AtKey (acc @ [map_prod repaired mended m]) fs)" for r
    using Cons.prems by (simp add: scans_def take_key_def map_prod_def split_def)
  moreover have "\<forall>x \<in> set (n # ns). scans (snd x) \<and> int (Suc (length fs)) + int (depth (snd x)) \<le> max_depth" using Cons.prems by simp
  note Cons.IH [OF this, of "acc @ [map_prod repaired mended m]"]
  ultimately show ?case by (simp add: split_def)
qed

lemma scan_value: "scans v"
proof (induction v)
  case (arr vs)
  show ?case
    unfolding scans_def
  proof (intro allI impI)
    fix fs :: "frame list" and ts
    assume d: "int (length fs) + int (depth (JArr vs)) \<le> max_depth"
    then have "\<forall>x \<in> set vs. int (Suc (length fs)) + int (depth x) \<le> max_depth"
      using depth_fold [of "map depth vs" "foldr max (map depth vs) 0"] by fastforce
    note below = this
    show "scan_all (value_tokens (JArr vs) @ ts) (AtValue fs) = scan_all ts (Filled (mended (JArr vs)) fs)"
    proof (cases vs)
      case Nil
      with d show ?thesis by (simp add: take_value_def)
    next
      case (Cons w ws)
      with arr below scan_elements [of w ws fs ts "[]"]
      have "scan_all (between_commas (map value_tokens vs) @ TCloseArr # ts) (AtElement fs) = scan_all ts (Filled (mended (JArr vs)) fs)"
        unfolding Cons scan_first by simp
      then show ?thesis using d by (simp add: take_value_def)
    qed
  qed
next
  case (obj ms)
  show ?case
    unfolding scans_def
  proof (intro allI impI)
    fix fs :: "frame list" and ts
    assume d: "int (length fs) + int (depth (JObj ms)) \<le> max_depth"
    then have "\<forall>x \<in> set ms. int (Suc (length fs)) + int (depth (snd x)) \<le> max_depth"
      using depth_fold [of "map (depth \<circ> snd) ms" "foldr max (map (depth \<circ> snd) ms) 0"] by (fastforce simp: o_def)
    moreover have "scans (snd x)" if "x \<in> set ms" for x using obj that by (metis prod.collapse)
    ultimately have below: "\<forall>x \<in> set ms. scans (snd x) \<and> int (Suc (length fs)) + int (depth (snd x)) \<le> max_depth" by blast
    show "scan_all (value_tokens (JObj ms) @ ts) (AtValue fs) = scan_all ts (Filled (mended (JObj ms)) fs)"
    proof (cases ms)
      case Nil
      with d show ?thesis by (simp add: take_value_def)
    next
      case (Cons m ns)
      have "scan_all (value_tokens (JObj ms) @ ts) (AtValue fs) = scan_all (between_commas
          (map (\<lambda>(k, ts). TStr (repaired k) # TColon # ts) (map (map_prod id value_tokens) ms)) @ TCloseObj # ts) (AtMember fs)"
        using d by (simp add: take_value_def)
      also have "\<dots> = scan_all ts (Filled (mended (JObj ms)) fs)"
        using below scan_members [of m ns fs ts "[]"]
          scan_first_member [of "map_prod id value_tokens m" "map (map_prod id value_tokens) ns" "TCloseObj # ts" fs]
        by (simp add: Cons)
      finally show ?thesis .
    qed
  qed
qed (simp_all add: scans_def take_value_def)

text \<open>\<open>Unmarshal\<close> reads what \<open>Marshal\<close> and \<open>MarshalIndent\<close> wrote, with its strings repaired.\<close>

lemma parse_tokens:
  assumes "open_text p (value_tokens v)" "int (depth v) \<le> max_depth"
  shows "parse_json p = Some (mended v)"
proof -
  have "json_tokens p = Some (value_tokens v)"
    using assms(1) by (auto simp: open_text_def dest: spec [of _ "[]"])
  moreover have "scan_all (value_tokens v @ []) (AtValue []) = scan_all [] (Filled (mended v) [])"
    using scan_value [of v] assms(2) unfolding scans_def by (metis add_0 list.size(3) of_nat_0)
  ultimately show ?thesis by (simp add: parse_json_def)
qed

lemma parse_text: "numbers_ok v \<Longrightarrow> int (depth v) \<le> max_depth \<Longrightarrow> parse_json (json_text v) = Some (mended v)"
  by (rule parse_tokens [OF json_text_tokens])

lemma parse_indent: "numbers_ok v \<Longrightarrow> int (depth v) \<le> max_depth \<Longrightarrow> parse_json (json_indent v n) = Some (mended v)"
  by (rule parse_tokens [OF json_indent_tokens])

end
