(* ===== verification/GoTime.thy ===== *)
theory GoTime
  imports GoNum
begin

text \<open>
  The JSON form of a \<open>time.Time\<close>, RFC 3339 in UTC with the nanoseconds that are not zero: the calendar
  of package \<open>time\<close>, what \<open>MarshalJSON\<close> writes, what \<open>UnmarshalJSON\<close> accepts, and that an instant in the
  years 0 to 9999 is read back as it was written. Days are counted from January 1 of the year 1,
  the day of Go's zero time.
\<close>

section \<open>The calendar\<close>

definition leap_year :: "int \<Rightarrow> bool" where
  "leap_year y \<longleftrightarrow> y mod 4 = 0 \<and> (y mod 100 \<noteq> 0 \<or> y mod 400 = 0)"

definition month_lengths :: "int \<Rightarrow> int list" where
  "month_lengths y = [31, if leap_year y then 29 else 28, 31, 30, 31, 30, 31, 31, 30, 31, 30, 31]"

definition year_start :: "int \<Rightarrow> int" where
  "year_start y = (let p = y - 1 in 365 * p + p div 4 - p div 100 + p div 400)"

text \<open>A date is a year, a month from 0 and a day from 1.\<close>

definition day_number :: "int \<Rightarrow> nat \<Rightarrow> int \<Rightarrow> int" where
  "day_number y m d = year_start y + sum_list (take m (month_lengths y)) + d - 1"

text \<open>\<open>absDate\<close>: cut off the cycles of 400, 100, 4 and 1 years; the last cycle of its kind may have a day more.\<close>

definition year_of :: "int \<Rightarrow> int \<times> int" where
  "year_of n =
     (let a = n div 146097; r = n mod 146097;
          b = min 3 (r div 36524); r1 = r - 36524 * b;
          c = r1 div 1461; r2 = r1 - 1461 * c;
          e = min 3 (r2 div 365)
      in (400 * a + 100 * b + 4 * c + e + 1, r2 - 365 * e))"

fun month_of :: "int list \<Rightarrow> int \<Rightarrow> nat \<times> int" where
  "month_of [] d = (0, d)"
| "month_of (l # ls) d = (if d < l then (0, d) else (case month_of ls (d - l) of (m, d') \<Rightarrow> (Suc m, d')))"

definition date_of :: "int \<Rightarrow> int \<times> nat \<times> int" where
  "date_of n = (case year_of n of (y, d) \<Rightarrow> (case month_of (month_lengths y) d of (m, d') \<Rightarrow> (y, m, d' + 1)))"

lemma year_parts:
  assumes "year_of n = (y, d)"
  obtains a b c e where "y = 400 * a + 100 * b + 4 * c + e + 1" "n = 146097 * a + 36524 * b + 1461 * c + 365 * e + d"
    "0 \<le> b" "b \<le> 3" "0 \<le> c" "c \<le> 24" "0 \<le> e" "e \<le> 3" "0 \<le> d" "d < 366" "d = 365 \<Longrightarrow> e = 3 \<and> (c = 24 \<longrightarrow> b = 3)"
proof -
  define a r where "a = n div 146097" and "r = n mod 146097"
  define b where "b = min 3 (r div 36524)"
  define r1 where "r1 = r - 36524 * b"
  define c where "c = r1 div 1461"
  define r2 where "r2 = r1 - 1461 * c"
  define e where "e = min 3 (r2 div 365)"
  have yd: "y = 400 * a + 100 * b + 4 * c + e + 1" "d = r2 - 365 * e"
  proof -
    have "year_of n = (400 * a + 100 * b + 4 * c + e + 1, r2 - 365 * e)"
      by (simp only: year_of_def Let_def a_def r_def b_def r1_def c_def r2_def e_def)
    with assms show "y = 400 * a + 100 * b + 4 * c + e + 1" "d = r2 - 365 * e" by simp_all
  qed
  have n: "n = 146097 * a + r" "0 \<le> r" "r < 146097" by (simp_all add: a_def r_def)
  have b: "0 \<le> b" "b \<le> 3" "0 \<le> r1" "r1 \<le> 36524" "b < 3 \<Longrightarrow> r1 < 36524"
  proof -
    show "0 \<le> b" "b \<le> 3" using n by (simp_all add: b_def pos_imp_zdiv_nonneg_iff)
    have "b < 3 \<Longrightarrow> b = r div 36524" by (simp add: b_def)
    then show "b < 3 \<Longrightarrow> r1 < 36524" unfolding r1_def by linarith
    show "0 \<le> r1" "r1 \<le> 36524" using n unfolding r1_def b_def min_def by (cases "3 \<le> r div 36524"; simp; linarith)+
  qed
  have c: "0 \<le> c" "c \<le> 24" "0 \<le> r2" "r2 < 1461" "c = 24 \<Longrightarrow> r2 = 1460 \<Longrightarrow> r1 = 36524"
    using b by (simp_all add: c_def r2_def)
  have e: "0 \<le> e" "e \<le> 3" "0 \<le> d" "d < 366" "d = 365 \<Longrightarrow> e = 3 \<and> r2 = 1460"
  proof -
    have "0 \<le> r2 div 365" using c by (simp add: pos_imp_zdiv_nonneg_iff)
    then show "0 \<le> e" "e \<le> 3" by (simp_all add: e_def)
    consider "r2 div 365 < 3" "d = r2 mod 365" | "e = 3" "d = r2 - 1095" "1095 \<le> r2"
    proof (cases "r2 div 365 < 3")
      case True
      then have "e = r2 div 365" by (simp add: e_def)
      with True that(1) show thesis by (simp add: yd(2) minus_mult_div_eq_mod)
    next
      case False
      with that(2) show thesis by (simp add: e_def yd(2))
    qed
    then show "0 \<le> d" "d < 366" "d = 365 \<Longrightarrow> e = 3 \<and> r2 = 1460"
      using c pos_mod_bound [of 365 r2] by (cases; force)+
  qed
  show thesis
  proof (rule that [OF yd(1)])
    show "n = 146097 * a + 36524 * b + 1461 * c + 365 * e + d" using n(1) by (simp add: yd r1_def r2_def)
    show "d = 365 \<Longrightarrow> e = 3 \<and> (c = 24 \<longrightarrow> b = 3)" using e(5) c(5) b(2,5) by fastforce
  qed (use b c e in auto)
qed

lemma year_start_parts:
  fixes a b c e :: int
  assumes "0 \<le> b" "b \<le> 3" "0 \<le> c" "c \<le> 24" "0 \<le> e" "e \<le> 3"
  shows "year_start (400 * a + 100 * b + 4 * c + e + 1) = 146097 * a + 36524 * b + 1461 * c + 365 * e"
proof -
  let ?p = "400 * a + 100 * b + 4 * c + e"
  have "?p div 4 = 100 * a + 25 * b + c" by (rule int_div_pos_eq [where r = e]) (use assms in auto)
  moreover have "?p div 100 = 4 * a + b" by (rule int_div_pos_eq [where r = "4 * c + e"]) (use assms in auto)
  moreover have "?p div 400 = a" by (rule int_div_pos_eq [where r = "100 * b + 4 * c + e"]) (use assms in auto)
  ultimately
  show ?thesis by (simp add: year_start_def)
qed

lemma year_length: "sum_list (month_lengths y) = (if leap_year y then 366 else 365)"
  by (simp add: month_lengths_def)

lemma leap_last:
  fixes a b c :: int
  assumes "0 \<le> b" "b \<le> 3" "0 \<le> c" "c \<le> 24" "c = 24 \<longrightarrow> b = 3" "y = 400 * a + 100 * b + 4 * c + 4"
  shows "leap_year y"
proof -
  have "y mod 4 = 0" using assms(6) by presburger
  moreover have "y mod 100 \<noteq> 0 \<or> y mod 400 = 0"
  proof (cases "c = 24")
    case True
    then have "y = 400 * (a + 1)" using assms(5,6) by simp
    then show ?thesis by simp
  next
    case False
    then have "4 \<le> 4 * c + 4" "4 * c + 4 < 100" using assms(3,4) by linarith+
    moreover have "y = (4 * c + 4) + 100 * (4 * a + b)" using assms(6) by simp
    then have "y mod 100 = (4 * c + 4) mod 100" by (simp only: mod_mult_self2)
    ultimately show ?thesis by simp
  qed
  ultimately show ?thesis by (simp add: leap_year_def)
qed

lemma year_of_day:
  assumes "year_of n = (y, d)"
  shows "n = year_start y + d" "0 \<le> d" "d < sum_list (month_lengths y)"
  using assms
proof (atomize (full), cases rule: year_parts)
  case (1 a b c e)
  have "leap_year y" if "d = 365"
    using leap_last [of b c y a] 1(1,3-6) 1(11) [OF that] by simp
  then have "d < sum_list (month_lengths y)" using 1(10) by (cases "d = 365") (auto simp: year_length)
  with 1 year_start_parts [of b c e a] show "n = year_start y + d \<and> 0 \<le> d \<and> d < sum_list (month_lengths y)" by simp
qed

lemma month_of_day:
  "month_of ls d = (m, d') \<Longrightarrow> 0 \<le> d \<Longrightarrow> d < sum_list ls \<Longrightarrow>
     m < length ls \<and> 0 \<le> d' \<and> d' < ls ! m \<and> sum_list (take m ls) + d' = d"
  by (induction ls d arbitrary: m d' rule: month_of.induct) (auto split: if_splits prod.splits)

text \<open>Every day has a date, and it is the day of that date.\<close>

lemma date_of_day:
  assumes "date_of n = (y, m, d)"
  shows "day_number y m d = n" "m < 12" "1 \<le> d" "d \<le> month_lengths y ! m"
proof -
  obtain yd where y: "year_of n = (y, yd)" and m: "month_of (month_lengths y) yd = (m, d - 1)"
    using assms by (auto simp: date_of_def split: prod.splits)
  note year_of_day [OF y] month_of_day [OF m]
  moreover have "length (month_lengths y) = 12" by (simp add: month_lengths_def)
  ultimately show "day_number y m d = n" "m < 12" "1 \<le> d" "d \<le> month_lengths y ! m"
    by (auto simp: day_number_def)
qed

section \<open>Fixed width numbers\<close>

fun pad :: "nat \<Rightarrow> int \<Rightarrow> string" where
  "pad 0 n = []"
| "pad (Suc k) n = pad k (n div 10) @ [digit_char (nat (n mod 10))]"

lemma length_pad [simp]: "length (pad k n) = k"
  by (induction k n rule: pad.induct) simp_all

lemma pad_digits: "c \<in> set (pad k n) \<Longrightarrow> is_digit c"
  by (induction k n rule: pad.induct) (auto simp: digit_char_val nat_less_iff)

lemma digits_val_pad: "0 \<le> n \<Longrightarrow> n < 10 ^ k \<Longrightarrow> digits_val acc (pad k n) = Some (acc * 10 ^ k + n)"
proof (induction k n arbitrary: acc rule: pad.induct)
  case (2 k n)
  have "0 \<le> n div 10" "n div 10 < 10 ^ k" using 2(2,3) by (simp_all add: pos_imp_zdiv_nonneg_iff div_less_iff_less_mult)
  note IH = 2(1) [OF this, of acc]
  have "is_digit (digit_char (nat (n mod 10)))" "digit_val (digit_char (nat (n mod 10))) = n mod 10"
    by (simp_all add: digit_char_val nat_less_iff)
  then have "digits_val acc (pad (Suc k) n) = Some (10 * (acc * 10 ^ k + n div 10) + n mod 10)"
    using IH by (simp add: digits_val_append)
  also have "10 * (acc * 10 ^ k + n div 10) + n mod 10 = acc * 10 ^ Suc k + n"
    using mult_div_mod_eq [of 10 n] by (simp add: algebra_simps)
  finally show ?case .
qed simp

text \<open>\<open>parseUint\<close>: digits, between two bounds.\<close>

definition number_in :: "int \<Rightarrow> int \<Rightarrow> string \<Rightarrow> int option" where
  "number_in lo hi s = (case parse_nat s of Some n \<Rightarrow> if lo \<le> n \<and> n \<le> hi then Some n else None | None \<Rightarrow> None)"

lemma number_in_pad: "0 \<le> n \<Longrightarrow> n < 10 ^ k \<Longrightarrow> lo \<le> n \<Longrightarrow> n \<le> hi \<Longrightarrow> 0 < k \<Longrightarrow> number_in lo hi (pad k n) = Some n"
  using digits_val_pad [of n k 0] by (cases k) (auto simp: number_in_def parse_nat_def)

section \<open>RFC 3339\<close>

definition epoch_day :: int where "epoch_day = 719162"

text \<open>The fraction of a second, without the zeros at its end.\<close>

definition fraction_text :: "int \<Rightarrow> string" where
  "fraction_text ns = (if ns = 0 then [] else CHR ''.'' # trim_right_set (pad 9 ns) ''0'')"

definition date_text :: "int \<Rightarrow> nat \<Rightarrow> int \<Rightarrow> string" where
  "date_text y m d = pad 4 y @ ''-'' @ pad 2 (int m + 1) @ ''-'' @ pad 2 d"

definition clock_text :: "int \<Rightarrow> string" where
  "clock_text s = pad 2 (s div 3600) @ '':'' @ pad 2 (s div 60 mod 60) @ '':'' @ pad 2 (s mod 60)"

definition time_text :: "gtime \<Rightarrow> string option" where
  "time_text t =
     (let secs = nanos t div 1000000000
      in case date_of (secs div 86400 + epoch_day) of
           (y, m, d) \<Rightarrow>
             if 0 \<le> y \<and> y \<le> 9999
             then Some (date_text y m d @ ''T'' @ clock_text (secs mod 86400) @ fraction_text (nanos t mod 1000000000) @ ''Z'')
             else None)"

text \<open>The fraction is cut after nine digits; a point without a digit is not one.\<close>

definition read_fraction :: "string \<Rightarrow> int \<times> string" where
  "read_fraction s =
     (case s of
        c # r \<Rightarrow>
          if c = CHR ''.'' \<and> takeWhile is_digit r \<noteq> []
          then (case parse_nat (take 9 (takeWhile is_digit r @ replicate 9 (CHR ''0''))) of
                  Some n \<Rightarrow> (n, dropWhile is_digit r)
                | None \<Rightarrow> (0, s))
          else (0, s)
      | [] \<Rightarrow> (0, s))"

definition read_zone :: "string \<Rightarrow> int option" where
  "read_zone s =
     (if s = ''Z'' then Some 0
      else if length s \<noteq> 6 \<or> s ! 3 \<noteq> CHR '':'' then None
      else (case (number_in 0 23 (take 2 (drop 1 s)), number_in 0 59 (drop 4 s)) of
              (Some h, Some m) \<Rightarrow>
                if hd s = CHR ''+'' then Some (h * 3600 + m * 60)
                else if hd s = CHR ''-'' then Some (- (h * 3600 + m * 60))
                else None
            | _ \<Rightarrow> None))"

definition read_date :: "string \<Rightarrow> int option" where
  "read_date s =
     (if length s \<noteq> 10 \<or> s ! 4 \<noteq> CHR ''-'' \<or> s ! 7 \<noteq> CHR ''-'' then None
      else (case (number_in 0 9999 (take 4 s), number_in 1 12 (take 2 (drop 5 s))) of
              (Some y, Some m) \<Rightarrow>
                (case number_in 1 (month_lengths y ! nat (m - 1)) (drop 8 s) of
                   Some d \<Rightarrow> Some (day_number y (nat (m - 1)) d)
                 | None \<Rightarrow> None)
            | _ \<Rightarrow> None))"

definition read_clock :: "string \<Rightarrow> int option" where
  "read_clock s =
     (if length s \<noteq> 8 \<or> s ! 2 \<noteq> CHR '':'' \<or> s ! 5 \<noteq> CHR '':'' then None
      else (case (number_in 0 23 (take 2 s), number_in 0 59 (take 2 (drop 3 s)), number_in 0 59 (drop 6 s)) of
              (Some h, Some m, Some n) \<Rightarrow> Some (h * 3600 + m * 60 + n)
            | _ \<Rightarrow> None))"

definition read_time :: "string \<Rightarrow> gtime option" where
  "read_time s =
     (if length s < 19 \<or> s ! 10 \<noteq> CHR ''T'' then None
      else (case (read_date (take 10 s), read_clock (take 8 (drop 11 s)), read_fraction (drop 19 s)) of
              (Some day, Some secs, ns, z) \<Rightarrow>
                map_option (\<lambda>off. GTime (((day - epoch_day) * 86400 + secs - off) * 1000000000 + ns)) (read_zone z)
            | _ \<Rightarrow> None))"

lemma read_date_text:
  assumes "0 \<le> y" "y \<le> 9999" "m < 12" "1 \<le> d" "d \<le> month_lengths y ! m"
  shows "read_date (date_text y m d) = Some (day_number y m d)"
proof -
  have "list_all (\<lambda>l. l \<le> 31) (month_lengths y)" by (simp add: month_lengths_def)
  then have "month_lengths y ! m \<le> 31" using assms(3) by (simp add: list_all_length month_lengths_def)
  then have p: "number_in 0 9999 (pad 4 y) = Some y" "number_in 1 12 (pad 2 (int m + 1)) = Some (int m + 1)"
    "number_in 1 (month_lengths y ! m) (pad 2 d) = Some d"
    using assms by (auto intro!: number_in_pad)
  have "length (date_text y m d) = 10" "date_text y m d ! 4 = CHR ''-''" "date_text y m d ! 7 = CHR ''-''"
    "take 4 (date_text y m d) = pad 4 y" "take 2 (drop 5 (date_text y m d)) = pad 2 (int m + 1)"
    "drop 8 (date_text y m d) = pad 2 d"
    by (simp_all add: date_text_def nth_append)
  then show ?thesis using p by (simp add: read_date_def)
qed

lemma number_two: "0 \<le> n \<Longrightarrow> n \<le> hi \<Longrightarrow> hi < 100 \<Longrightarrow> number_in 0 hi (pad 2 n) = Some n"
  by (rule number_in_pad) simp_all

lemma read_clock_text:
  assumes "0 \<le> s" "s < 86400"
  shows "read_clock (clock_text s) = Some s"
proof -
  have "0 \<le> s div 3600" using assms by (simp add: pos_imp_zdiv_nonneg_iff)
  moreover have "s div 3600 \<le> 23" using assms by linarith
  ultimately have h: "number_in 0 23 (pad 2 (s div 3600)) = Some (s div 3600)" by (rule number_two) simp
  have sixty: "number_in 0 59 (pad 2 (n mod 60)) = Some (n mod 60)" for n
    using pos_mod_bound [of 60 n] by (intro number_two) simp_all
  note p = h sixty [of "s div 60"] sixty [of s]
  have "length (clock_text s) = 8" "clock_text s ! 2 = CHR '':''" "clock_text s ! 5 = CHR '':''"
    "take 2 (clock_text s) = pad 2 (s div 3600)" "take 2 (drop 3 (clock_text s)) = pad 2 (s div 60 mod 60)"
    "drop 6 (clock_text s) = pad 2 (s mod 60)"
    by (simp_all add: clock_text_def nth_append)
  moreover have "s div 3600 * 3600 + s div 60 mod 60 * 60 + s mod 60 = s"
    using zdiv_zmult2_eq [of 60 s 60] by (simp add: minus_mod_eq_mult_div [symmetric] mult.commute) presburger
  ultimately show ?thesis using p by (simp add: read_clock_def)
qed

lemma trim_right_zeros: "\<exists>k. s = trim_right_set s ''0'' @ replicate k (CHR ''0'')"
proof -
  have "takeWhile (\<lambda>c. c = CHR ''0'') (rev s) = replicate (length (takeWhile (\<lambda>c. c = CHR ''0'') (rev s))) (CHR ''0'')"
    by (intro replicate_eqI) (auto dest: set_takeWhileD)
  then have "rev s = replicate (length (takeWhile (\<lambda>c. c = CHR ''0'') (rev s))) (CHR ''0'') @ dropWhile (\<lambda>c. c = CHR ''0'') (rev s)"
    by (metis takeWhile_dropWhile_id)
  then have "s = rev (dropWhile (\<lambda>c. c = CHR ''0'') (rev s)) @ replicate (length (takeWhile (\<lambda>c. c = CHR ''0'') (rev s))) (CHR ''0'')"
    by (metis rev_append rev_replicate rev_rev_ident)
  then show ?thesis by (auto simp: trim_right_set_def)
qed

lemma read_fraction_text:
  assumes "0 \<le> ns" "ns < 1000000000"
  shows "read_fraction (fraction_text ns @ ''Z'') = (ns, ''Z'')"
proof (cases "ns = 0")
  case True
  then show ?thesis by (simp add: fraction_text_def read_fraction_def)
next
  case False
  let ?p = "pad 9 ns" and ?f = "trim_right_set (pad 9 ns) ''0''"
  obtain k where k: "?p = ?f @ replicate k (CHR ''0'')" using trim_right_zeros by blast
  have v: "parse_nat ?p = Some ns"
    using digits_val_pad [of ns 9 0] assms length_pad [of 9 ns] by (auto simp: parse_nat_def simp del: length_pad)
  have d: "\<forall>c \<in> set ?f. is_digit c" using pad_digits k by (metis UnI1 set_append)
  have ne: "?f \<noteq> []"
  proof
    assume "?f = []"
    then have "?p = replicate 9 (CHR ''0'')" using k length_pad [of 9 ns] by (metis append_Nil length_replicate)
    moreover have "parse_nat (replicate 9 (CHR ''0'')) = Some 0" by code_simp
    ultimately show False using v False by simp
  qed
  have "length ?f + k = 9" using k length_pad [of 9 ns] by (metis length_append length_replicate)
  then have "take 9 (?f @ replicate 9 (CHR ''0'')) = ?f @ replicate k (CHR ''0'')"
    by (simp add: min_def)
  moreover have "takeWhile is_digit (?f @ ''Z'') = ?f" "dropWhile is_digit (?f @ ''Z'') = ''Z''"
    using d by (simp_all add: takeWhile_append2 dropWhile_append2 is_digit_def)
  ultimately show ?thesis using False ne v k by (simp add: fraction_text_def read_fraction_def)
qed

text \<open>An instant is read back as it was written.\<close>

lemma read_time_text:
  assumes "time_text t = Some s"
  shows "read_time s = Some t"
proof -
  let ?secs = "nanos t div 1000000000" and ?ns = "nanos t mod 1000000000"
  obtain y m d where dt: "date_of (?secs div 86400 + epoch_day) = (y, m, d)" by (metis prod_cases3)
  with assms have y: "0 \<le> y" "y \<le> 9999"
    and s: "s = date_text y m d @ ''T'' @ clock_text (?secs mod 86400) @ fraction_text ?ns @ ''Z''"
    by (auto simp: time_text_def Let_def split: if_splits)
  note day = date_of_day [OF dt]
  have len: "length (date_text y m d) = 10" "length (clock_text (?secs mod 86400)) = 8"
    by (simp_all add: date_text_def clock_text_def)
  then have cut: "s ! 10 = CHR ''T''" "take 10 s = date_text y m d" "take 8 (drop 11 s) = clock_text (?secs mod 86400)"
    "drop 19 s = fraction_text ?ns @ ''Z''" "\<not> length s < 19"
    by (simp_all add: s nth_append)
  have "read_clock (clock_text (?secs mod 86400)) = Some (?secs mod 86400)" by (rule read_clock_text) simp_all
  moreover have "read_fraction (fraction_text ?ns @ ''Z'') = (?ns, ''Z'')" by (rule read_fraction_text) simp_all
  moreover have "((?secs div 86400) * 86400 + ?secs mod 86400) * 1000000000 + ?ns = nanos t" by simp
  ultimately show ?thesis
    using read_date_text [OF y day(2-4)] day(1) cut(5) unfolding read_time_def cut(1-4)
    by (simp add: read_zone_def)
qed

lemma time_samples:
  "time_text (GTime 1700000000123000000) = Some ''2023-11-14T22:13:20.123Z''"
  "time_text zero_time = Some ''0001-01-01T00:00:00Z''"
  "read_time ''2024-02-29T23:59:59.5+01:30'' = Some (GTime 1709245799500000000)"
  "read_time ''2023-02-29T00:00:00Z'' = None"
  by code_simp+

end
