(* ===== verification/GoStruct.thy ===== *)
theory GoStruct
  imports GoJson GoTime Domain
begin

text \<open>
  How \<open>encoding/json\<close> moves values between JSON and Go. A struct is a list of fields, each with the
  name of its tag, what \<open>Marshal\<close> writes for it, if anything, and how \<open>Unmarshal\<close> reads it. Reading goes
  into a value that may already be set: an absent field and a \<open>null\<close> leave it, a pointer and a map
  are read into, a slice is read over. The text of an error is not modelled: \<open>Unmarshal\<close> goes on after
  a value of a wrong type but returns an error at the end, and no caller uses what was read
  then. A time is compared after its escapes are undone.
\<close>

section \<open>Reading values\<close>

type_synonym members = "(string \<times> json) list"
type_synonym 'a reader = "json \<Rightarrow> 'a \<Rightarrow> 'a option"

definition read_str :: "string reader" where
  "read_str v old = (case v of JNull \<Rightarrow> Some old | JStr s \<Rightarrow> Some s | _ \<Rightarrow> None)"

definition read_bool :: "bool reader" where
  "read_bool v old = (case v of JNull \<Rightarrow> Some old | JBool b \<Rightarrow> Some b | _ \<Rightarrow> None)"

definition read_int :: "int reader" where
  "read_int v old = (case v of JNull \<Rightarrow> Some old | JNum t \<Rightarrow> atoi t | _ \<Rightarrow> None)"

definition read_at :: "gtime reader" where
  "read_at v old = (case v of JNull \<Rightarrow> Some old | JStr s \<Rightarrow> read_time s | _ \<Rightarrow> None)"

definition read_opt :: "'a \<Rightarrow> 'a reader \<Rightarrow> 'a option reader" where
  "read_opt zero f v old =
     (if v = JNull then Some None
      else map_option Some (f v (case old of None \<Rightarrow> zero | Some x \<Rightarrow> x)))"

fun read_elements :: "'a \<Rightarrow> 'a reader \<Rightarrow> json list \<Rightarrow> 'a list \<Rightarrow> 'a list option" where
  "read_elements zero f [] old = Some []"
| "read_elements zero f (v # vs) old =
     (case f v (case old of [] \<Rightarrow> zero | x # _ \<Rightarrow> x) of
        None \<Rightarrow> None
      | Some x \<Rightarrow> map_option (Cons x) (read_elements zero f vs (tl old)))"

definition read_list :: "'a \<Rightarrow> 'a reader \<Rightarrow> 'a list reader" where
  "read_list zero f v old =
     (case v of JNull \<Rightarrow> Some [] | JArr vs \<Rightarrow> read_elements zero f vs old | _ \<Rightarrow> None)"

fun read_pairs :: "'a \<Rightarrow> 'a reader \<Rightarrow> members \<Rightarrow> (string \<times> 'a) list \<Rightarrow> (string \<times> 'a) list option" where
  "read_pairs zero f [] m = Some m"
| "read_pairs zero f ((k, v) # ms) m =
     (case f v zero of None \<Rightarrow> None | Some x \<Rightarrow> read_pairs zero f ms (put k x m))"

definition read_map :: "'a \<Rightarrow> 'a reader \<Rightarrow> (string \<times> 'a) list reader" where
  "read_map zero f v old =
     (case v of JNull \<Rightarrow> Some [] | JObj ms \<Rightarrow> read_pairs zero f ms old | _ \<Rightarrow> None)"

text \<open>
  \<open>any\<close>: how a \<open>float64\<close> is written and which literals one is read from are arguments. Every value can
  be read, unless a number is out of the range of a \<open>float64\<close>. A map is written with its keys in order.
\<close>

record float_text =
  fl_show :: "int \<Rightarrow> int \<Rightarrow> string"
  fl_read :: "string \<Rightarrow> (int \<times> int) option"

definition sorted_map :: "(string \<times> 'a) list \<Rightarrow> (string \<times> 'a) list" where
  "sorted_map m = sort_key fst m"

primrec any_json :: "float_text \<Rightarrow> goany \<Rightarrow> json" where
  "any_json fl VNil = JNull"
| "any_json fl (VBool b) = JBool b"
| "any_json fl (VInt i) = JNum (itoa i)"
| "any_json fl (VNum m e) = JNum (fl_show fl m e)"
| "any_json fl (VStr s) = JStr s"
| "any_json fl (VList vs) = JArr (map (any_json fl) vs)"
| "any_json fl (VMap m) = JObj (sorted_map (map (map_prod id (any_json fl)) m))"

fun all_some :: "'a option list \<Rightarrow> 'a list option" where
  "all_some [] = Some []"
| "all_some (x # xs) = (case x of None \<Rightarrow> None | Some y \<Rightarrow> map_option (Cons y) (all_some xs))"

primrec any_of :: "float_text \<Rightarrow> json \<Rightarrow> goany option" where
  "any_of fl JNull = Some VNil"
| "any_of fl (JBool b) = Some (VBool b)"
| "any_of fl (JNum t) = map_option (\<lambda>(m, e). VNum m e) (fl_read fl t)"
| "any_of fl (JStr s) = Some (VStr s)"
| "any_of fl (JArr vs) = map_option VList (all_some (map (any_of fl) vs))"
| "any_of fl (JObj ms) = map_option (\<lambda>m. VMap (fold (\<lambda>(k, x). put k x) m []))
     (all_some (map (\<lambda>(k, x). map_option (Pair k) x) (map (map_prod id (any_of fl)) ms)))"

definition read_any :: "float_text \<Rightarrow> goany reader" where
  "read_any fl v old = any_of fl v"

section \<open>Structs\<close>

text \<open>
  \<open>foldName\<close>: letters of ASCII in upper case, and the two other runes that fold to one of them, the
  long s and the Kelvin sign.
\<close>

fun fold_name :: "string \<Rightarrow> string" where
  "fold_name [] = []"
| "fold_name (c # s) =
     (if c = CHR 0xC5 \<and> has_prefix s [CHR 0xBF] then CHR ''S'' # fold_name (drop 1 s)
      else if c = CHR 0xE2 \<and> has_prefix s [CHR 0x84, CHR 0xAA] then CHR ''K'' # fold_name (drop 2 s)
      else upper_char c # fold_name s)"

record 'r field =
  fd_name :: string
  fd_write :: "'r \<Rightarrow> json option"
  fd_read :: "'r reader"

text \<open>A tag without and with \<open>omitempty\<close>.\<close>

definition tag ::
    "string \<Rightarrow> ('a \<Rightarrow> json) \<Rightarrow> 'a reader \<Rightarrow> ('r \<Rightarrow> 'a) \<Rightarrow> (('a \<Rightarrow> 'a) \<Rightarrow> 'r \<Rightarrow> 'r) \<Rightarrow> 'r field" where
  "tag k w rd get upd = \<lparr>fd_name = k, fd_write = (\<lambda>r. Some (w (get r))),
     fd_read = (\<lambda>v r. map_option (\<lambda>x. upd (\<lambda>_. x) r) (rd v (get r)))\<rparr>"

definition tag_omit ::
    "string \<Rightarrow> 'a \<Rightarrow> ('a \<Rightarrow> json) \<Rightarrow> 'a reader \<Rightarrow> ('r \<Rightarrow> 'a) \<Rightarrow> (('a \<Rightarrow> 'a) \<Rightarrow> 'r \<Rightarrow> 'r) \<Rightarrow> 'r field" where
  "tag_omit k zero w rd get upd =
     (tag k w rd get upd)\<lparr>fd_write := (\<lambda>r. if get r = zero then None else Some (w (get r)))\<rparr>"

definition map_json :: "('a \<Rightarrow> json) \<Rightarrow> (string \<times> 'a) list \<Rightarrow> json" where
  "map_json f m = JObj (map (map_prod id f) (sorted_map m))"

definition opt_json :: "('a \<Rightarrow> json) \<Rightarrow> 'a option \<Rightarrow> json" where
  "opt_json f x = (case x of None \<Rightarrow> JNull | Some v \<Rightarrow> f v)"

definition int_json :: "int \<Rightarrow> json" where "int_json i = JNum (itoa i)"

definition list_json :: "('a \<Rightarrow> json) \<Rightarrow> 'a list \<Rightarrow> json" where "list_json f xs = JArr (map f xs)"

text \<open>\<open>MarshalJSON\<close> of a time; a year that does not have four digits is an error of \<open>Marshal\<close>.\<close>

definition time_json :: "gtime \<Rightarrow> json" where
  "time_json t = JStr (case time_text t of Some s \<Rightarrow> s | None \<Rightarrow> [])"

definition write_struct :: "'r field list \<Rightarrow> 'r \<Rightarrow> json" where
  "write_struct fs r = JObj (List.map_filter (\<lambda>f. map_option (Pair (fd_name f)) (fd_write f r)) fs)"

text \<open>A member belongs to the field of its name, else to the first whose name differs in case only.\<close>

definition field_of :: "'r field list \<Rightarrow> string \<Rightarrow> 'r field option" where
  "field_of fs k =
     (case find (\<lambda>f. fd_name f = k) fs of
        Some f \<Rightarrow> Some f
      | None \<Rightarrow> find (\<lambda>f. fold_name (fd_name f) = fold_name k) fs)"

fun read_members :: "'r field list \<Rightarrow> members \<Rightarrow> 'r \<Rightarrow> 'r option" where
  "read_members fs [] r = Some r"
| "read_members fs ((k, v) # ms) r =
     (case field_of fs k of
        None \<Rightarrow> read_members fs ms r
      | Some f \<Rightarrow> (case fd_read f v r of None \<Rightarrow> None | Some r' \<Rightarrow> read_members fs ms r'))"

definition read_struct :: "'r field list \<Rightarrow> 'r reader" where
  "read_struct fs v r = (case v of JNull \<Rightarrow> Some r | JObj ms \<Rightarrow> read_members fs ms r | _ \<Rightarrow> None)"

definition unmarshal :: "'r reader \<Rightarrow> 'r \<Rightarrow> string \<Rightarrow> 'r option" where
  "unmarshal f zero s = (case parse_json s of None \<Rightarrow> None | Some v \<Rightarrow> f v zero)"

section \<open>What is written is read\<close>

definition ascii :: "string \<Rightarrow> bool" where
  "ascii s \<longleftrightarrow> (\<forall>c \<in> set s. byte_val c < 128)"

lemma ascii_valid: "ascii s \<Longrightarrow> valid_utf8 s"
proof (induction s)
  case (Cons c s)
  then have "runes (c # s) = byte_val c # runes s" by (simp add: ascii_def runes_ascii del: runes.simps)
  moreover have "encode_rune (byte_val c) = [c]" using Cons(2) by (simp add: ascii_def encode_rune_def)
  ultimately show ?case using Cons by (simp add: valid_utf8_def repaired_def ascii_def del: runes.simps)
qed (simp add: valid_utf8_def repaired_def)

lemma repaired_id: "valid_utf8 s \<Longrightarrow> repaired s = s"
  by (simp add: valid_utf8_def)

text \<open>A value that is read as it was written, when nothing was there before.\<close>

definition kept_by :: "('a \<Rightarrow> json) \<Rightarrow> 'a reader \<Rightarrow> 'a \<Rightarrow> 'a \<Rightarrow> bool" where
  "kept_by w rd zero x \<longleftrightarrow> rd (mended (w x)) zero = Some x"

lemma kept_str: "valid_utf8 s \<Longrightarrow> kept_by JStr read_str z s"
  by (simp add: kept_by_def read_str_def repaired_id)

lemma kept_bool: "kept_by JBool read_bool z b"
  by (simp add: kept_by_def read_bool_def)

lemma kept_int: "min_int64 \<le> i \<Longrightarrow> i \<le> max_int64 \<Longrightarrow> kept_by int_json read_int z i"
  by (simp add: kept_by_def int_json_def read_int_def atoi_itoa)

lemma time_text_ascii: "time_text t = Some s \<Longrightarrow> ascii s"
proof -
  have d: "byte_val c < 128" if "is_digit c" for c using that by (simp add: is_digit_def byte_val_def)
  have p: "\<forall>c \<in> set (pad k n). byte_val c < 128" for k n using pad_digits d by blast
  have f: "\<forall>c \<in> set (fraction_text n). byte_val c < 128" for n
  proof -
    have "byte_val c < 128" if "c \<in> set (trim_right_set (pad 9 n) ''0'')" for c
      using that set_trim_right_set [of "pad 9 n" "''0''"] p [of 9 n] by blast
    then show ?thesis by (simp add: fraction_text_def byte_val_def)
  qed
  show "time_text t = Some s \<Longrightarrow> ascii s"
    using p f by (auto simp: time_text_def Let_def date_text_def clock_text_def ascii_def byte_val_def
        split: prod.splits if_splits)
qed

lemma kept_time: "time_text t \<noteq> None \<Longrightarrow> kept_by time_json read_at z t"
  using ascii_valid [OF time_text_ascii [of t]] read_time_text [of t]
  by (auto simp: kept_by_def time_json_def read_at_def repaired_id)

lemma kept_opt:
  assumes "\<And>v. x = Some v \<Longrightarrow> kept_by w rd zero v \<and> mended (w v) \<noteq> JNull"
  shows "kept_by (opt_json w) (read_opt zero rd) None x"
  using assms by (cases x) (auto simp: kept_by_def opt_json_def read_opt_def)

lemma kept_list:
  assumes "\<And>x. x \<in> set xs \<Longrightarrow> kept_by w rd zero x"
  shows "kept_by (list_json w) (read_list zero rd) [] xs"
proof -
  have "read_elements zero rd (map (mended \<circ> w) xs) [] = Some xs"
    using assms by (induction xs) (auto simp: kept_by_def)
  then show ?thesis by (simp add: kept_by_def list_json_def read_list_def)
qed

lemma sorted_map_props:
  "set (sorted_map m) = set m" "distinct (keys m) \<Longrightarrow> distinct (keys (sorted_map m))"
  "distinct (keys m) \<Longrightarrow> map_of (sorted_map m) = map_of m"
proof -
  show "set (sorted_map m) = set m" by (simp add: sorted_map_def)
  show d: "distinct (keys m) \<Longrightarrow> distinct (keys (sorted_map m))" by (simp add: sorted_map_def distinct_map)
  show "distinct (keys m) \<Longrightarrow> map_of (sorted_map m) = map_of m"
    using d by (intro map_of_inject_set [THEN iffD2]) (simp_all add: sorted_map_def)
qed

lemma read_pairs_kept:
  assumes "\<And>k x. (k, x) \<in> set ms \<Longrightarrow> valid_utf8 k \<and> kept_by w rd zero x"
    and "distinct (keys m @ keys ms)"
  shows "read_pairs zero rd (map (map_prod repaired mended) (map (map_prod id w) ms)) m = Some (m @ ms)"
  using assms
proof (induction ms arbitrary: m)
  case (Cons p ms)
  obtain k x where p: "p = (k, x)" by (cases p)
  with Cons.prems(1) [of k x] have "repaired k = k" "rd (mended (w x)) zero = Some x" by (auto simp: repaired_id kept_by_def)
  moreover have "put k x m = m @ [(k, x)]" using Cons.prems(2) by (auto simp: p put_def)
  ultimately show ?case using Cons.IH [of "m @ [(k, x)]"] Cons.prems by (auto simp: p)
qed simp

text \<open>A map is read with its keys in order.\<close>

lemma read_map_json:
  assumes "\<And>k x. (k, x) \<in> set m \<Longrightarrow> valid_utf8 k \<and> kept_by w rd zero x" and "distinct (keys m)"
  shows "read_map zero rd (mended (map_json w m)) [] = Some (sorted_map m)"
  using read_pairs_kept [of "sorted_map m" w rd zero "[]"] assms sorted_map_props [of m]
  by (simp add: map_json_def read_map_def)

subsection \<open>Structs\<close>

text \<open>What one field carries over from a record that is written to the one that is read.\<close>

definition carry :: "'r \<Rightarrow> 'r field \<Rightarrow> 'r option \<Rightarrow> 'r option" where
  "carry r f acc =
     (case acc of None \<Rightarrow> None
      | Some a \<Rightarrow> (case fd_write f r of None \<Rightarrow> Some a | Some v \<Rightarrow> fd_read f (mended v) a))"

lemma fold_carry_None: "fold (carry r) fs None = None"
  by (induction fs) (simp_all add: carry_def)

lemma field_of_own:
  assumes "distinct (map fd_name fs)" "f \<in> set fs"
  shows "field_of fs (fd_name f) = Some f"
proof -
  have "find (\<lambda>g. fd_name g = fd_name f) fs = Some f"
    using assms by (induction fs) force+
  then show ?thesis by (simp add: field_of_def)
qed

lemma read_written:
  assumes "distinct (map fd_name fs)" "\<forall>f \<in> set fs. valid_utf8 (fd_name f)"
  shows "read_struct fs (mended (write_struct fs r)) a = fold (carry r) fs (Some a)"
proof -
  have "read_members fs (map (map_prod repaired mended)
        (List.map_filter (\<lambda>f. map_option (Pair (fd_name f)) (fd_write f r)) gs)) a = fold (carry r) gs (Some a)"
    if "set gs \<subseteq> set fs" for gs
    using that
  proof (induction gs arbitrary: a)
    case (Cons g gs)
    then have g: "field_of fs (fd_name g) = Some g" "repaired (fd_name g) = fd_name g"
      using field_of_own [OF assms(1)] assms(2) by (auto simp: repaired_id)
    with Cons show ?case
      by (cases "fd_write g r") (auto simp: carry_def [of r g] fold_carry_None split: option.split)
  qed simp
  then show ?thesis by (simp add: read_struct_def write_struct_def)
qed

lemma carry_tag:
  assumes "kept_by w rd (get a) (get r)"
  shows "carry r (tag k w rd get upd) (Some a) = Some (upd (\<lambda>_. get r) a)"
  using assms by (simp add: carry_def tag_def kept_by_def)

lemma carry_omit:
  assumes "kept_by w rd zero (get r)" "get a = zero" "upd (\<lambda>_. zero) a = a"
  shows "carry r (tag_omit k zero w rd get upd) (Some a) = Some (upd (\<lambda>_. get r) a)"
  using assms by (simp add: carry_def tag_omit_def tag_def kept_by_def)

lemma tag_names [simp]: "fd_name (tag k w rd get upd) = k" "fd_name (tag_omit k e w rd get upd) = k"
  by (simp_all add: tag_def tag_omit_def)

section \<open>The text of a struct\<close>

text \<open>A value that \<open>Unmarshal\<close> takes: its numbers are literals, and it is not too deep.\<close>

definition fits_in :: "nat \<Rightarrow> json \<Rightarrow> bool" where
  "fits_in n v \<longleftrightarrow> numbers_ok v \<and> depth v \<le> n"

lemma fits_simps [simp]:
  "fits_in n JNull" "fits_in n (JBool b)" "fits_in n (JStr s)" "fits_in n (int_json i)" "fits_in n (time_json t)"
  by (simp_all add: fits_in_def int_json_def time_json_def)

lemma fits_mono: "fits_in m v \<Longrightarrow> m \<le> n \<Longrightarrow> fits_in n v"
  by (simp add: fits_in_def)

lemma fits_arr: "fits_in (Suc n) (JArr vs) \<longleftrightarrow> (\<forall>v \<in> set vs. fits_in n v)"
  by (auto simp: fits_in_def list_all_iff depth_fold)

lemma fits_obj: "fits_in (Suc n) (JObj ms) \<longleftrightarrow> (\<forall>m \<in> set ms. fits_in n (snd m))"
  by (auto simp: fits_in_def list_all_iff depth_fold)

lemma fits_list: "(\<And>x. x \<in> set xs \<Longrightarrow> fits_in n (w x)) \<Longrightarrow> fits_in (Suc n) (list_json w xs)"
  by (simp add: list_json_def fits_arr)

lemma fits_map: "(\<And>k x. (k, x) \<in> set m \<Longrightarrow> fits_in n (w x)) \<Longrightarrow> fits_in (Suc n) (map_json w m)"
  by (auto simp: map_json_def fits_obj sorted_map_props)

lemma fits_opt: "(\<And>v. x = Some v \<Longrightarrow> fits_in n (w v)) \<Longrightarrow> fits_in n (opt_json w x)"
  by (cases x) (simp_all add: opt_json_def)

lemma fits_struct:
  assumes "\<And>f v. f \<in> set fs \<Longrightarrow> fd_write f r = Some v \<Longrightarrow> fits_in n v"
  shows "fits_in (Suc n) (write_struct fs r)"
  using assms by (auto simp: write_struct_def fits_obj map_filter_def)

lemma unmarshal_written:
  assumes "distinct (map fd_name fs)" "\<forall>f \<in> set fs. valid_utf8 (fd_name f)" "fits_in (nat max_depth) (write_struct fs r)"
  shows "unmarshal (read_struct fs) z (json_text (write_struct fs r)) = fold (carry r) fs (Some z)"
proof -
  have "int (depth (write_struct fs r)) \<le> max_depth" "numbers_ok (write_struct fs r)"
    using assms(3) by (auto simp: fits_in_def max_depth_def)
  then show ?thesis using read_written [OF assms(1,2), of r z] by (simp add: unmarshal_def parse_text)
qed

text \<open>\<open>Marshal\<close> writes no control character, so a line per value can be told apart.\<close>

definition one_line :: "string \<Rightarrow> bool" where
  "one_line s \<longleftrightarrow> (\<forall>c \<in> set s. 32 \<le> byte_val c)"

lemma one_line_simps [simp]:
  "one_line []" "one_line (c # s) \<longleftrightarrow> 32 \<le> byte_val c \<and> one_line s" "one_line (a @ b) \<longleftrightarrow> one_line a \<and> one_line b"
  by (auto simp: one_line_def)

lemma hex_digit_line: "n < 16 \<Longrightarrow> 32 \<le> byte_val (hex_digit n)"
  by (simp add: hex_digit_def byte_val_def)

lemma escape_line:
  assumes "byte_val c < 128"
  shows "one_line (escape_byte c)"
  using assms
proof (cases rule: escape_cases)
  case (short e)
  then have "32 \<le> byte_val e" by (auto simp: short_escape_def byte_val_def)
  with short(1) show ?thesis by simp
next
  case (unit x y)
  have "32 \<le> byte_val d" if "hex_val d \<noteq> None" for d using that by (auto simp: hex_val_def Let_def split: if_splits)
  moreover have "hex_val x \<noteq> None" "hex_val y \<noteq> None" using unit(2) by (auto simp: hex4_def split: option.splits)
  ultimately show ?thesis using unit(1) by (simp add: byte_val_def)
qed simp

lemma quote_line: "one_line (quote_body s)"
proof (induction s rule: quote_body.induct)
  case (2 c s)
  show ?case
  proof (cases "byte_val c < 128")
    case True
    then show ?thesis using 2(1) by (simp add: escape_line)
  next
    case False
    obtain r n where d: "decode_rune c s = (r, n)" by fastforce
    have "one_line (c # take (n - 1) s)" if "\<not> (r = rune_error \<and> n = 1)"
      using decode_high [OF d that] False unfolding one_line_def by fastforce
    moreover have "one_line (BACKSLASH # ''ufffd'')" "one_line (BACKSLASH # ''u202'' @ [hex_digit (r mod 16)])"
      by (simp_all add: hex_digit_line) (simp_all add: byte_val_def)
    ultimately show ?thesis using False 2(2) [OF False d [symmetric]] by (auto simp: d)
  qed
qed simp

lemma one_line_quoted [simp]: "one_line (json_quote s)"
  by (simp add: json_quote_def quote_line)

lemma one_line_digits: "one_line (takeWhile is_digit s)"
  by (auto simp: one_line_def is_digit_def byte_val_def dest: set_takeWhileD)

lemma one_line_number: "number_ok t \<Longrightarrow> one_line t"
proof -
  have d: "digits_of s = Some (a, r) \<Longrightarrow> one_line a" for s a r
    by (auto simp: digits_of_def one_line_digits split: if_splits)
  have "int_part s = Some (a, r) \<Longrightarrow> one_line a" "frac_part s = Some (a, r) \<Longrightarrow> one_line a"
    "exp_part s = Some (a, r) \<Longrightarrow> one_line a" for s a r
    by (auto simp: int_part_def frac_part_def exp_part_def prepend_Some byte_val_def split: list.splits if_splits dest: d)
  then have "unsigned_text s = Some (a, r) \<Longrightarrow> one_line a" for s a r
    unfolding unsigned_text_def and_then_Some by fastforce
  then have u: "unsigned_text s = Some (a, r) \<Longrightarrow> one_line a" for s a r by blast
  assume t: "number_ok t"
  show "one_line t"
  proof (cases t)
    case (Cons c s)
    show ?thesis
    proof (cases "c = CHR ''-''")
      case True
      with t Cons have "unsigned_text s = Some (s, [])" by (auto simp: number_ok_def number_text_def prepend_Some)
      from u [OF this] True Cons show ?thesis by (simp add: byte_val_def)
    next
      case False
      with t Cons show ?thesis using u [of t t "[]"] by (simp add: number_ok_def number_text_def)
    qed
  qed simp
qed

lemma one_line_commas: "(\<forall>p \<in> set ps. one_line p) \<Longrightarrow> one_line (commas ps)"
  unfolding commas_def by (induction "'',''" ps rule: join.induct) (simp_all add: byte_val_def)

lemma one_line_text: "numbers_ok v \<Longrightarrow> one_line (json_text v)"
proof (induction v)
  case (arr vs)
  then have "one_line (commas (map json_text vs))" by (intro one_line_commas) (auto simp: list_all_iff)
  then show ?case by (simp add: byte_val_def)
next
  case (obj ms)
  then have "one_line (commas (map (\<lambda>(k, t). json_quote k @ '':'' @ t) (map (map_prod id json_text) ms)))"
    by (intro one_line_commas) (fastforce simp: list_all_iff byte_val_def)
  then show ?case by (simp add: byte_val_def)
qed (auto simp: one_line_number show_bool_def byte_val_def)

lemma struct_line:
  assumes "numbers_ok (write_struct fs r)"
  shows "NL \<notin> set (json_text (write_struct fs r))" "json_text (write_struct fs r) \<noteq> []"
    "trim_space (json_text (write_struct fs r)) = json_text (write_struct fs r)"
proof -
  show "NL \<notin> set (json_text (write_struct fs r))"
    using one_line_text [OF assms] by (auto simp: one_line_def byte_val_def)
  show "json_text (write_struct fs r) \<noteq> []" by (simp add: write_struct_def)
  show "trim_space (json_text (write_struct fs r)) = json_text (write_struct fs r)"
    by (rule trim_space_plain) (simp_all add: write_struct_def plain_char_def)
qed

section \<open>Values of type \<open>any\<close>\<close>

text \<open>Every number in the value is written as a literal and is in the range of a \<open>float64\<close>.\<close>

primrec any_fit :: "float_text \<Rightarrow> goany \<Rightarrow> bool" where
  "any_fit fl VNil = True"
| "any_fit fl (VBool b) = True"
| "any_fit fl (VInt i) = (fl_read fl (itoa i) \<noteq> None)"
| "any_fit fl (VNum m e) = (number_ok (fl_show fl m e) \<and> fl_read fl (fl_show fl m e) \<noteq> None)"
| "any_fit fl (VStr s) = True"
| "any_fit fl (VList vs) = list_all id (map (any_fit fl) vs)"
| "any_fit fl (VMap m) = list_all snd (map (map_prod id (any_fit fl)) m)"

lemma goany_induct [case_names nil bool int num str list map, induct type: goany]:
  assumes "P VNil" "\<And>b. P (VBool b)" "\<And>i. P (VInt i)" "\<And>m e. P (VNum m e)" "\<And>s. P (VStr s)"
    and "\<And>vs. (\<And>v. v \<in> set vs \<Longrightarrow> P v) \<Longrightarrow> P (VList vs)"
    and "\<And>m. (\<And>k v. (k, v) \<in> set m \<Longrightarrow> P v) \<Longrightarrow> P (VMap m)"
  shows "P v"
proof (induction v rule: goany.induct)
  case (VMap m)
  have "P v" if "(k, v) \<in> set m" for k v using VMap [OF that] by (simp add: prod_set_simps)
  with assms(7) show ?case by blast
qed (use assms in blast)+

lemma all_some_iff: "(\<exists>ys. all_some xs = Some ys) \<longleftrightarrow> (\<forall>x \<in> set xs. x \<noteq> None)"
  by (induction xs) (auto split: option.splits)

lemma all_some_map: "(\<And>x. x \<in> set xs \<Longrightarrow> f (g x) = Some x) \<Longrightarrow> all_some (map f (map g xs)) = Some xs"
  by (induction xs) auto

lemma fold_put_distinct: "distinct (keys (m @ ms)) \<Longrightarrow> fold (\<lambda>(k, x). put k x) ms m = m @ ms"
proof (induction ms arbitrary: m)
  case (Cons p ms)
  then have "put (fst p) (snd p) m = m @ [p]" by (auto simp: put_def)
  with Cons show ?case by (auto simp: case_prod_beta)
qed simp

lemma any_numbers: "any_fit fl v \<Longrightarrow> numbers_ok (any_json fl v)"
proof (induction v)
  case (map m)
  then show ?case by (fastforce simp: list_all_iff sorted_map_props)
qed (auto simp: list_all_iff)

text \<open>Such a value can be read; what is read may have other numbers, and its strings are repaired.\<close>

lemma any_reads: "any_fit fl v \<Longrightarrow> \<exists>x. any_of fl (mended (any_json fl v)) = Some x"
proof (induction v)
  case (list vs)
  then have "\<exists>ys. all_some (map (any_of fl) (map mended (map (any_json fl) vs))) = Some ys"
    unfolding all_some_iff by (fastforce simp: list_all_iff)
  then show ?case by auto
next
  case (map m)
  have "any_of fl (mended (any_json fl v)) \<noteq> None" if "(k, v) \<in> set m" for k v
    using map(1) [OF that] map(2) that by (fastforce simp: list_all_iff)
  then have "\<exists>ys. all_some (map (\<lambda>(k, x). map_option (Pair k) x) (map (map_prod id (any_of fl))
      (map (map_prod repaired mended) (sorted_map (map (map_prod id (any_json fl)) m))))) = Some ys"
    unfolding all_some_iff by (auto simp: sorted_map_props)
  then show ?case by auto
qed auto

text \<open>Whole numbers, for the examples.\<close>

definition whole_floats :: float_text where
  "whole_floats = \<lparr>fl_show = (\<lambda>m e. itoa m), fl_read = (\<lambda>t. map_option (\<lambda>i. (i, 0)) (atoi t))\<rparr>"

end
