(* ===== verification/SessionJson.thy ===== *)
theory SessionJson
  imports GoStruct Sessions
begin

text \<open>
  The JSON of \<open>internal/sessions\<close>: the lines of a transcript, which \<open>manager.go\<close> writes with \<open>Marshal\<close>,
  and the file of \<open>store.go\<close>, written with \<open>MarshalIndent\<close>; both are read with \<open>Unmarshal\<close>. With
  \<open>encoding/json\<close> itself modelled, what \<open>Sessions\<close> and \<open>SessionStore\<close> ask of a codec is shown here: a
  record with valid UTF-8 comes back as it was, and a store that is opened again holds what was put.
\<close>

section \<open>The structs and their tags\<close>

abbreviation str_tag where "str_tag k \<equiv> tag k JStr read_str"
abbreviation str_omit where "str_omit k \<equiv> tag_omit k [] JStr read_str"
abbreviation int_omit where "int_omit k \<equiv> tag_omit k 0 int_json read_int"

definition tool_call_fields :: "float_text \<Rightarrow> tool_call field list" where
  "tool_call_fields fl =
     [str_tag ''name'' tc_name tc_name_update,
      tag_omit ''input'' [] (map_json (any_json fl)) (read_map VNil (read_any fl)) tc_input tc_input_update,
      tag_omit ''output'' VNil (any_json fl) (read_any fl) tc_output tc_output_update,
      str_omit ''error'' tc_error tc_error_update,
      str_omit ''status'' tc_status tc_status_update]"

definition usage_fields :: "usage field list" where
  "usage_fields =
     [int_omit ''inputTokens'' us_input us_input_update,
      int_omit ''outputTokens'' us_output us_output_update,
      int_omit ''totalTokens'' us_total us_total_update]"

definition zero_tool_call :: tool_call where
  "zero_tool_call = \<lparr>tc_name = [], tc_input = [], tc_output = VNil, tc_error = [], tc_status = []\<rparr>"

definition zero_usage :: usage where
  "zero_usage = \<lparr>us_input = 0, us_output = 0, us_total = 0\<rparr>"

definition tool_tag :: "float_text \<Rightarrow> msg_rec field" where
  "tool_tag fl = tag_omit ''toolCall'' None (opt_json (write_struct (tool_call_fields fl)))
     (read_opt zero_tool_call (read_struct (tool_call_fields fl))) mr_tool mr_tool_update"

definition usage_tag :: "msg_rec field" where
  "usage_tag = tag_omit ''usage'' None (opt_json (write_struct usage_fields))
     (read_opt zero_usage (read_struct usage_fields)) mr_usage mr_usage_update"

definition record_fields :: "float_text \<Rightarrow> msg_rec field list" where
  "record_fields fl =
     [int_omit ''schemaVersion'' mr_schema mr_schema_update,
      str_tag ''type'' mr_type mr_type_update,
      str_omit ''eventType'' mr_event mr_event_update,
      str_tag ''role'' mr_role mr_role_update,
      str_tag ''sessionId'' mr_session mr_session_update,
      str_tag ''sessionKey'' mr_key mr_key_update,
      str_tag ''agentId'' mr_agent mr_agent_update,
      str_omit ''runId'' mr_run mr_run_update,
      str_omit ''kind'' mr_kind mr_kind_update,
      str_omit ''provider'' mr_provider mr_provider_update,
      str_tag ''text'' mr_text mr_text_update,
      tag_omit ''aborted'' False JBool read_bool mr_aborted mr_aborted_update,
      tool_tag fl,
      usage_tag,
      tag_omit ''metadata'' [] (map_json JStr) (read_map [] read_str) mr_meta mr_meta_update,
      tag ''at'' time_json read_at mr_at mr_at_update]"

definition zero_record :: msg_rec where
  "zero_record = \<lparr>mr_schema = 0, mr_type = [], mr_event = [], mr_role = [], mr_session = [], mr_key = [],
     mr_agent = [], mr_run = [], mr_kind = [], mr_provider = [], mr_text = [], mr_aborted = False,
     mr_tool = None, mr_usage = None, mr_meta = [], mr_at = zero_time\<rparr>"

definition recent_fields :: "ctx_msg field list" where
  "recent_fields = [str_tag ''role'' cx_role cx_role_update, str_tag ''text'' cx_text cx_text_update]"

definition zero_recent :: ctx_msg where "zero_recent = \<lparr>cx_role = [], cx_text = []\<rparr>"

definition entry_fields :: "entry field list" where
  "entry_fields =
     [str_tag ''sessionKey'' en_key en_key_update,
      str_tag ''sessionId'' en_id en_id_update,
      str_tag ''agentId'' en_agent en_agent_update,
      tag ''updatedAt'' time_json read_at en_updated en_updated_update,
      int_omit ''contextStateVersion'' en_version en_version_update,
      str_omit ''contextStateSig'' en_sig en_sig_update,
      int_omit ''summarizedMessages'' en_summarized en_summarized_update,
      str_omit ''conversationSummary'' en_summary en_summary_update,
      tag_omit ''recentMessages'' [] (list_json (write_struct recent_fields))
        (read_list zero_recent (read_struct recent_fields)) en_recent en_recent_update]"

definition zero_entry :: entry where
  "zero_entry = \<lparr>en_key = [], en_id = [], en_agent = [], en_updated = zero_time, en_version = 0, en_sig = [],
     en_summarized = 0, en_summary = [], en_recent = []\<rparr>"

section \<open>A line of a transcript and the file of a store\<close>

definition year_error :: go_error where
  "year_error = ''json: error calling MarshalJSON for type time.Time: Time.MarshalJSON: year outside of range [0,9999]''"

definition marshal_record :: "float_text \<Rightarrow> msg_rec \<Rightarrow> go_error + string" where
  "marshal_record fl r =
     (if time_text (mr_at r) = None then Inl year_error
      else Inr (json_text (write_struct (record_fields fl) r)))"

definition unmarshal_record :: "float_text \<Rightarrow> string \<Rightarrow> msg_rec option" where
  "unmarshal_record fl = unmarshal (read_struct (record_fields fl)) zero_record"

definition marshal_store :: "(string \<times> entry) list \<Rightarrow> go_error + string" where
  "marshal_store d =
     (if \<exists>(k, e) \<in> set d. time_text (en_updated e) = None then Inl year_error
      else Inr (json_indent (map_json (write_struct entry_fields) d) 0))"

text \<open>
  The error of \<open>Unmarshal\<close> stands for all of its texts. A file that holds \<open>null\<close> is read as no entries,
  which is what \<open>Get\<close> and \<open>List\<close> see of the nil map the code is left with; a \<open>Put\<close> into it panics.
\<close>

definition unmarshal_store :: "string \<Rightarrow> go_error + (string \<times> entry) list" where
  "unmarshal_store b =
     (case unmarshal (read_map zero_entry (read_struct entry_fields)) [] b of
        None \<Rightarrow> Inl ''invalid''
      | Some d \<Rightarrow> Inr d)"

section \<open>What comes back\<close>

definition int64 :: "int \<Rightarrow> bool" where "int64 i \<longleftrightarrow> min_int64 \<le> i \<and> i \<le> max_int64"

definition usage_ok :: "usage \<Rightarrow> bool" where
  "usage_ok u \<longleftrightarrow> int64 (us_input u) \<and> int64 (us_output u) \<and> int64 (us_total u)"

lemma kept_int64: "int64 i \<Longrightarrow> kept_by int_json read_int z i"
  by (simp add: int64_def kept_int)

lemma written_kept:
  assumes "distinct (map fd_name fs)" "\<forall>f \<in> set fs. ascii (fd_name f)" "fold (carry r) fs (Some z) = Some r"
  shows "kept_by (write_struct fs) (read_struct fs) z r"
  using assms by (simp add: kept_by_def read_written ascii_valid)

lemma kept_usage:
  assumes "usage_ok u"
  shows "kept_by (write_struct usage_fields) (read_struct usage_fields) zero_usage u"
proof (rule written_kept)
  show "fold (carry u) usage_fields (Some zero_usage) = Some u"
    using assms by (simp add: usage_fields_def carry_omit kept_int64 usage_ok_def zero_usage_def)
qed (simp_all add: usage_fields_def ascii_def byte_val_def)

lemma kept_recent:
  assumes "valid_utf8 (cx_role m)" "valid_utf8 (cx_text m)"
  shows "kept_by (write_struct recent_fields) (read_struct recent_fields) zero_recent m"
proof (rule written_kept)
  show "fold (carry m) recent_fields (Some zero_recent) = Some m"
    using assms by (simp add: recent_fields_def carry_tag kept_str zero_recent_def)
qed (simp_all add: recent_fields_def ascii_def byte_val_def)

definition entry_ok :: "entry \<Rightarrow> bool" where
  "entry_ok e \<longleftrightarrow> valid_utf8 (en_key e) \<and> valid_utf8 (en_id e) \<and> valid_utf8 (en_agent e) \<and> time_text (en_updated e) \<noteq> None
     \<and> int64 (en_version e) \<and> valid_utf8 (en_sig e) \<and> int64 (en_summarized e) \<and> valid_utf8 (en_summary e)
     \<and> (\<forall>m \<in> set (en_recent e). valid_utf8 (cx_role m) \<and> valid_utf8 (cx_text m))"

lemma kept_entry:
  assumes "entry_ok e"
  shows "kept_by (write_struct entry_fields) (read_struct entry_fields) zero_entry e"
proof (rule written_kept)
  have "kept_by (list_json (write_struct recent_fields)) (read_list zero_recent (read_struct recent_fields)) [] (en_recent e)"
    using assms by (intro kept_list kept_recent) (auto simp: entry_ok_def)
  then show "fold (carry e) entry_fields (Some zero_entry) = Some e"
    using assms
    by (simp add: entry_fields_def carry_tag carry_omit kept_str kept_int64 kept_time entry_ok_def zero_entry_def)
qed (simp_all add: entry_fields_def ascii_def byte_val_def)

lemma fits_entry: "fits_in 3 (write_struct entry_fields e)"
proof -
  have "fits_in 2 (list_json (write_struct recent_fields) (en_recent e))"
  proof -
    have "fits_in (Suc 0) (write_struct recent_fields m)" for m
      by (rule fits_struct) (auto simp: recent_fields_def tag_def)
    then show ?thesis using fits_list [of "en_recent e" "Suc 0"] by (simp add: numeral_2_eq_2)
  qed
  then have "fits_in (Suc 2) (write_struct entry_fields e)"
    by (intro fits_struct) (auto simp: entry_fields_def tag_def tag_omit_def split: if_splits)
  then show ?thesis by simp
qed

text \<open>A table whose keys differ and whose entries are fit to be written.\<close>

definition table_fit :: "(string \<times> entry) list \<Rightarrow> bool" where
  "table_fit d \<longleftrightarrow> distinct (keys d) \<and> (\<forall>(k, e) \<in> set d. valid_utf8 k \<and> entry_ok e)"

lemma store_reads_back:
  assumes "table_fit d"
  shows "\<exists>b. marshal_store d = Inr b \<and> b \<noteq> [] \<and> unmarshal_store b = Inr (sorted_map d)"
proof -
  let ?v = "map_json (write_struct entry_fields) d"
  have "\<not> (\<exists>(k, e) \<in> set d. time_text (en_updated e) = None)" using assms by (auto simp: table_fit_def entry_ok_def)
  then have m: "marshal_store d = Inr (json_indent ?v 0)" unfolding marshal_store_def by presburger
  have "fits_in 4 ?v" using fits_map [of d 3 "write_struct entry_fields"] fits_entry by simp
  then have "parse_json (json_indent ?v 0) = Some (mended ?v)"
    by (intro parse_indent) (auto simp: fits_in_def max_depth_def)
  moreover have "read_map zero_entry (read_struct entry_fields) (mended ?v) [] = Some (sorted_map d)"
    using assms by (intro read_map_json) (auto simp: table_fit_def kept_entry)
  ultimately have "unmarshal_store (json_indent ?v 0) = Inr (sorted_map d)"
    by (simp add: unmarshal_store_def unmarshal_def)
  moreover have "json_indent ?v 0 \<noteq> []" by (simp add: map_json_def block_of_def)
  ultimately show ?thesis using m by blast
qed

section \<open>Records\<close>

text \<open>A tool call whose values can be read again; its strings and keys need not be.\<close>

definition tool_fit :: "float_text \<Rightarrow> nat \<Rightarrow> tool_call \<Rightarrow> bool" where
  "tool_fit fl n t \<longleftrightarrow> (\<forall>v \<in> insert (tc_output t) (snd ` set (tc_input t)). any_fit fl v \<and> depth (any_json fl v) \<le> n)"

lemma read_pairs_total:
  "(\<And>k v. (k, v) \<in> set ms \<Longrightarrow> \<exists>x. rd v zero = Some x) \<Longrightarrow> \<exists>m'. read_pairs zero rd ms m = Some m'"
proof (induction ms arbitrary: m)
  case (Cons p ms)
  obtain k v where p: "p = (k, v)" by (cases p)
  obtain x where "rd v zero = Some x" using Cons.prems [of k v] by (auto simp: p)
  moreover obtain m' where "read_pairs zero rd ms (put k x m) = Some m'" using Cons by (metis list.set_intros(2))
  ultimately show ?case by (auto simp: p)
qed simp

lemma read_map_total:
  assumes "\<And>k x. (k, x) \<in> set m \<Longrightarrow> \<exists>y. rd (mended (w x)) zero = Some y"
  shows "\<exists>m'. read_map zero rd (mended (map_json w m)) [] = Some m'"
proof -
  have "\<exists>m'. read_pairs zero rd (map (map_prod repaired mended) (map (map_prod id w) (sorted_map m))) [] = Some m'"
    using assms by (intro read_pairs_total) (auto simp: sorted_map_props)
  then show ?thesis by (auto simp: map_json_def read_map_def)
qed

text \<open>Carrying over a value that is not read as it was.\<close>

lemma carry_tag_read:
  "rd (mended (w (get r))) (get a) = Some x \<Longrightarrow> carry r (tag k w rd get upd) (Some a) = Some (upd (\<lambda>_. x) a)"
  by (simp add: carry_def tag_def)

lemma carry_omit_read:
  assumes "get r \<noteq> zero \<Longrightarrow> rd (mended (w (get r))) (get a) = Some x" "get r = zero \<Longrightarrow> x = get a" "upd (\<lambda>_. get a) a = a"
  shows "carry r (tag_omit k zero w rd get upd) (Some a) = Some (upd (\<lambda>_. x) a)"
  using assms by (auto simp: carry_def tag_omit_def tag_def)

lemma read_str_mended: "read_str (mended (JStr s)) z = Some (repaired s)" "read_str (JStr s) z = Some s"
  by (simp_all add: read_str_def)

lemma repaired_Nil [simp]: "repaired [] = []"
  by (simp add: repaired_def)

lemma carry_str:
  "carry r (str_tag k get upd) (Some a) = Some (upd (\<lambda>_. repaired (get r)) a)"
  "get a = [] \<Longrightarrow> upd (\<lambda>_. []) a = a \<Longrightarrow> carry r (str_omit k get upd) (Some a) = Some (upd (\<lambda>_. repaired (get r)) a)"
  by (rule carry_tag_read, rule read_str_mended(1)) (rule carry_omit_read, auto simp: read_str_mended)

lemma tool_reads:
  assumes "tool_fit fl n t"
  shows "\<exists>t'. read_struct (tool_call_fields fl) (mended (write_struct (tool_call_fields fl) t)) zero_tool_call = Some t'"
proof -
  have any: "\<exists>x. read_any fl (mended (any_json fl v)) VNil = Some x" if "v \<in> insert (tc_output t) (snd ` set (tc_input t))" for v
    using assms that any_reads by (auto simp: tool_fit_def read_any_def)
  have "\<exists>m'. read_map VNil (read_any fl) (mended (map_json (any_json fl) (tc_input t))) [] = Some m'"
    by (intro read_map_total any insertI2) (auto intro: rev_image_eqI)
  then obtain m' where read: "read_map VNil (read_any fl) (mended (map_json (any_json fl) (tc_input t))) [] = Some m'" by blast
  moreover have "tc_input t = [] \<Longrightarrow> m' = []" using read by (simp add: map_json_def read_map_def sorted_map_def)
  ultimately have m': "read_map VNil (read_any fl) (mended (map_json (any_json fl) (tc_input t))) [] = Some m'"
    "tc_input t = [] \<Longrightarrow> m' = []" by blast+
  obtain x where x: "read_any fl (mended (any_json fl (tc_output t))) VNil = Some x" using any by blast
  have "tc_output t = VNil \<Longrightarrow> x = VNil" using x by (auto simp: read_any_def)
  then have out: "carry t (tag_omit k VNil (any_json fl) (read_any fl) tc_output tc_output_update) (Some a)
      = Some (a\<lparr>tc_output := x\<rparr>)" if "tc_output a = VNil" for k a
    using that x by (intro carry_omit_read) simp_all
  have inp: "carry t (tag_omit k [] (map_json (any_json fl)) (read_map VNil (read_any fl)) tc_input tc_input_update) (Some a)
      = Some (a\<lparr>tc_input := m'\<rparr>)" if "tc_input a = []" for k a
    using that m' by (intro carry_omit_read) simp_all
  have "read_struct (tool_call_fields fl) (mended (write_struct (tool_call_fields fl) t)) zero_tool_call
      = fold (carry t) (tool_call_fields fl) (Some zero_tool_call)"
    by (intro read_written) (simp_all add: tool_call_fields_def ascii_valid ascii_def byte_val_def)
  moreover have "fold (carry t) (tool_call_fields fl) (Some zero_tool_call) =
      Some \<lparr>tc_name = repaired (tc_name t), tc_input = m', tc_output = x, tc_error = repaired (tc_error t), tc_status = repaired (tc_status t)\<rparr>"
    by (simp add: tool_call_fields_def carry_str zero_tool_call_def out inp)
  ultimately show ?thesis by simp
qed

lemma fits_tool:
  assumes "tool_fit fl n t"
  shows "fits_in (n + 2) (write_struct (tool_call_fields fl) t)"
proof -
  have any: "fits_in n (any_json fl v)" if "v \<in> insert (tc_output t) (snd ` set (tc_input t))" for v
    using assms that any_numbers by (auto simp: tool_fit_def fits_in_def)
  have "fits_in (Suc n) (map_json (any_json fl) (tc_input t))"
    by (intro fits_map any insertI2) (auto intro: rev_image_eqI)
  then have "fits_in (Suc (Suc n)) (write_struct (tool_call_fields fl) t)"
    using any fits_mono [of n _ "Suc n"]
    by (intro fits_struct) (auto simp: tool_call_fields_def tag_def tag_omit_def split: if_splits)
  then show ?thesis by simp
qed

definition record_fit :: "float_text \<Rightarrow> msg_rec \<Rightarrow> bool" where
  "record_fit fl r \<longleftrightarrow> time_text (mr_at r) \<noteq> None \<and> int64 (mr_schema r)
     \<and> (\<forall>u. mr_usage r = Some u \<longrightarrow> usage_ok u) \<and> (\<forall>t. mr_tool r = Some t \<longrightarrow> tool_fit fl 9000 t)"

lemma fits_record:
  assumes "record_fit fl r"
  shows "fits_in (nat max_depth) (write_struct (record_fields fl) r)"
proof -
  have "fits_in 9002 (opt_json (write_struct (tool_call_fields fl)) (mr_tool r))"
    using assms fits_tool [of fl 9000] by (intro fits_opt) (simp add: record_fit_def)
  moreover have "fits_in (Suc 0) (write_struct usage_fields u)" for u
    by (rule fits_struct) (auto simp: usage_fields_def tag_def tag_omit_def split: if_splits)
  then have "fits_in 9002 (opt_json (write_struct usage_fields) (mr_usage r))"
    by (intro fits_opt) (rule fits_mono, assumption, simp)
  moreover have "fits_in (Suc 0) (map_json JStr (mr_meta r))" by (intro fits_map) simp
  then have "fits_in 9002 (map_json JStr (mr_meta r))" by (rule fits_mono) simp
  ultimately have "fits_in (Suc 9002) (write_struct (record_fields fl) r)"
    by (intro fits_struct) (auto simp: record_fields_def tool_tag_def usage_tag_def tag_def tag_omit_def split: if_splits)
  then show ?thesis by (rule fits_mono) (simp add: max_depth_def)
qed

lemma carry_usage:
  assumes "\<forall>u. mr_usage r = Some u \<longrightarrow> usage_ok u" "mr_usage a = None"
  shows "carry r usage_tag (Some a) = Some (a\<lparr>mr_usage := mr_usage r\<rparr>)"
proof -
  have "mended (write_struct usage_fields u) \<noteq> JNull" for u by (simp add: write_struct_def)
  then have "kept_by (opt_json (write_struct usage_fields)) (read_opt zero_usage (read_struct usage_fields)) None (mr_usage r)"
    using assms(1) by (intro kept_opt) (simp add: kept_usage)
  then show ?thesis using assms(2) by (simp add: usage_tag_def carry_omit)
qed

lemma carry_tool:
  assumes "\<forall>t. mr_tool r = Some t \<longrightarrow> tool_fit fl n t"
  obtains t' where "\<And>a. mr_tool a = None \<Longrightarrow> carry r (tool_tag fl) (Some a) = Some (a\<lparr>mr_tool := t'\<rparr>)"
    "mr_tool r = None \<Longrightarrow> t' = None"
proof (cases "mr_tool r")
  case None
  then have "carry r (tool_tag fl) (Some a) = Some (a\<lparr>mr_tool := None\<rparr>)" if "mr_tool a = None" for a
    using that by (simp add: tool_tag_def carry_def tag_omit_def tag_def)
  with that show thesis by blast
next
  case (Some t)
  obtain t' where "read_struct (tool_call_fields fl) (mended (write_struct (tool_call_fields fl) t)) zero_tool_call = Some t'"
    using tool_reads assms Some by blast
  moreover have "mended (write_struct (tool_call_fields fl) t) \<noteq> JNull" by (simp add: write_struct_def)
  ultimately have "carry r (tool_tag fl) (Some a) = Some (a\<lparr>mr_tool := Some t'\<rparr>)" if "mr_tool a = None" for a
    using that Some by (simp add: tool_tag_def carry_def tag_omit_def tag_def opt_json_def read_opt_def)
  then show thesis by (rule that) (use Some in simp_all)
qed

lemma carry_meta:
  obtains m' where "\<And>a. mr_meta a = [] \<Longrightarrow> carry r (tag_omit k [] (map_json JStr) (read_map [] read_str) mr_meta mr_meta_update) (Some a)
      = Some (a\<lparr>mr_meta := m'\<rparr>)"
    "(\<And>k x. (k, x) \<in> set (mr_meta r) \<Longrightarrow> valid_utf8 k \<and> valid_utf8 x) \<Longrightarrow> distinct (keys (mr_meta r)) \<Longrightarrow> m' = sorted_map (mr_meta r)"
proof -
  have "\<exists>m'. read_map [] read_str (mended (map_json JStr (mr_meta r))) [] = Some m'"
    by (intro read_map_total) (simp add: read_str_mended)
  then obtain m' where m': "read_map [] read_str (mended (map_json JStr (mr_meta r))) [] = Some m'" by blast
  have "mr_meta r = [] \<Longrightarrow> m' = []" using m' by (simp add: map_json_def read_map_def sorted_map_def)
  then have "carry r (tag_omit k [] (map_json JStr) (read_map [] read_str) mr_meta mr_meta_update) (Some a) = Some (a\<lparr>mr_meta := m'\<rparr>)"
    if "mr_meta a = []" for a
    using that m' by (intro carry_omit_read) simp_all
  moreover have "m' = sorted_map (mr_meta r)"
    if "\<And>k x. (k, x) \<in> set (mr_meta r) \<Longrightarrow> valid_utf8 k \<and> valid_utf8 x" "distinct (keys (mr_meta r))"
    using read_map_json [of "mr_meta r" JStr read_str "[]"] that kept_str m' by auto
  ultimately show thesis using that by blast
qed

text \<open>What is read of a record: all of it, repaired, but for the values of a tool call.\<close>

lemma record_reads:
  assumes "record_fit fl r"
  obtains b t' m' where "marshal_record fl r = Inr b" "NL \<notin> set b" "trim_space b = b" "b \<noteq> []"
    "unmarshal_record fl b = Some \<lparr>mr_schema = mr_schema r, mr_type = repaired (mr_type r), mr_event = repaired (mr_event r),
       mr_role = repaired (mr_role r), mr_session = repaired (mr_session r), mr_key = repaired (mr_key r),
       mr_agent = repaired (mr_agent r), mr_run = repaired (mr_run r), mr_kind = repaired (mr_kind r),
       mr_provider = repaired (mr_provider r), mr_text = repaired (mr_text r), mr_aborted = mr_aborted r,
       mr_tool = t', mr_usage = mr_usage r, mr_meta = m', mr_at = mr_at r\<rparr>"
    "mr_tool r = None \<Longrightarrow> t' = None"
    "(\<And>k x. (k, x) \<in> set (mr_meta r) \<Longrightarrow> valid_utf8 k \<and> valid_utf8 x) \<Longrightarrow> distinct (keys (mr_meta r)) \<Longrightarrow> m' = sorted_map (mr_meta r)"
proof -
  let ?v = "write_struct (record_fields fl) r"
  have fits: "fits_in (nat max_depth) ?v" using assms by (rule fits_record)
  note line = struct_line [of "record_fields fl" r]
  obtain t' where t': "\<And>a. mr_tool a = None \<Longrightarrow> carry r (tool_tag fl) (Some a) = Some (a\<lparr>mr_tool := t'\<rparr>)"
    "mr_tool r = None \<Longrightarrow> t' = None" using carry_tool assms unfolding record_fit_def by blast
  obtain m' where m': "\<And>a. mr_meta a = [] \<Longrightarrow> carry r (tag_omit ''metadata'' [] (map_json JStr) (read_map [] read_str)
        mr_meta mr_meta_update) (Some a) = Some (a\<lparr>mr_meta := m'\<rparr>)"
    "(\<And>k x. (k, x) \<in> set (mr_meta r) \<Longrightarrow> valid_utf8 k \<and> valid_utf8 x) \<Longrightarrow> distinct (keys (mr_meta r)) \<Longrightarrow> m' = sorted_map (mr_meta r)"
    by (rule carry_meta [of r "''metadata''"]) blast
  have "unmarshal_record fl (json_text ?v) = fold (carry r) (record_fields fl) (Some zero_record)"
    unfolding unmarshal_record_def using fits
    by (intro unmarshal_written)
      (simp_all add: record_fields_def tool_tag_def usage_tag_def ascii_valid ascii_def byte_val_def)
  moreover have "int64 (mr_schema r)" "time_text (mr_at r) \<noteq> None" "\<forall>u. mr_usage r = Some u \<longrightarrow> usage_ok u"
    using assms by (simp_all add: record_fit_def)
  then have "fold (carry r) (record_fields fl) (Some zero_record) = Some \<lparr>mr_schema = mr_schema r, mr_type = repaired (mr_type r), mr_event = repaired (mr_event r),
       mr_role = repaired (mr_role r), mr_session = repaired (mr_session r), mr_key = repaired (mr_key r),
       mr_agent = repaired (mr_agent r), mr_run = repaired (mr_run r), mr_kind = repaired (mr_kind r),
       mr_provider = repaired (mr_provider r), mr_text = repaired (mr_text r), mr_aborted = mr_aborted r,
       mr_tool = t', mr_usage = mr_usage r, mr_meta = m', mr_at = mr_at r\<rparr>"
    by (simp add: record_fields_def zero_record_def carry_str carry_omit carry_tag kept_int64 kept_bool kept_time t'(1) m'(1) carry_usage)
  moreover have "marshal_record fl r = Inr (json_text ?v)"
    using assms by (simp add: marshal_record_def record_fit_def)
  moreover have "numbers_ok ?v" using fits by (simp add: fits_in_def)
  ultimately show thesis using that [of "json_text ?v" t' m'] line t'(2) m'(2) by simp
qed

text \<open>What the session manager asks of a codec, and what it gets of this one.\<close>

lemma json_codec:
  assumes "record_fit fl r" "valid_utf8 (mr_type r)" "valid_utf8 (mr_event r)" "valid_utf8 (mr_role r)" "valid_utf8 (mr_text r)"
  shows "codec_ok (marshal_record fl) (unmarshal_record fl) r"
proof -
  from assms(1) obtain b t' m' where "marshal_record fl r = Inr b" "NL \<notin> set b" "trim_space b = b" "b \<noteq> []"
    and "unmarshal_record fl b = Some \<lparr>mr_schema = mr_schema r, mr_type = repaired (mr_type r), mr_event = repaired (mr_event r),
       mr_role = repaired (mr_role r), mr_session = repaired (mr_session r), mr_key = repaired (mr_key r),
       mr_agent = repaired (mr_agent r), mr_run = repaired (mr_run r), mr_kind = repaired (mr_kind r),
       mr_provider = repaired (mr_provider r), mr_text = repaired (mr_text r), mr_aborted = mr_aborted r,
       mr_tool = t', mr_usage = mr_usage r, mr_meta = m', mr_at = mr_at r\<rparr>"
    by (rule record_reads)
  then show ?thesis using assms(2-) by (simp add: codec_ok_def repaired_id)
qed

section \<open>A record comes back whole\<close>

text \<open>
  A value of type \<open>any\<close> that is read as it was: its strings are UTF-8, its numbers are those of a
  \<open>float64\<close>, and its maps, which have no order in Go, are listed by their keys.
\<close>

definition in_order :: "(string \<times> 'a) list \<Rightarrow> bool" where
  "in_order m \<longleftrightarrow> distinct (keys m) \<and> sorted (keys m) \<and> (\<forall>k \<in> set (keys m). valid_utf8 k)"

primrec any_whole :: "float_text \<Rightarrow> goany \<Rightarrow> bool" where
  "any_whole fl VNil = True"
| "any_whole fl (VBool b) = True"
| "any_whole fl (VInt i) = False"
| "any_whole fl (VNum m e) = (number_ok (fl_show fl m e) \<and> fl_read fl (fl_show fl m e) = Some (m, e))"
| "any_whole fl (VStr s) = valid_utf8 s"
| "any_whole fl (VList vs) = list_all id (map (any_whole fl) vs)"
| "any_whole fl (VMap m) = (in_order m \<and> list_all snd (map (map_prod id (any_whole fl)) m))"

lemma sorted_map_id: "in_order m \<Longrightarrow> sorted_map m = m"
  by (simp add: in_order_def sorted_map_def sort_key_id_if_sorted)

lemma kept_any: "any_whole fl v \<Longrightarrow> kept_by (any_json fl) (read_any fl) z v"
  unfolding kept_by_def read_any_def
proof (induction v)
  case (list vs)
  then have "all_some (map (any_of fl) (map (mended \<circ> any_json fl) vs)) = Some vs"
    by (intro all_some_map) (simp add: list_all_iff)
  then show ?case by (simp add: comp_assoc)
next
  case (map m)
  then have m: "in_order m" "\<And>k v. (k, v) \<in> set m \<Longrightarrow> any_of fl (mended (any_json fl v)) = Some v"
    by (force simp: list_all_iff)+
  have "sorted_map (map (map_prod id (any_json fl)) m) = map (map_prod id (any_json fl)) m"
    using m(1) by (intro sorted_map_id) (simp add: in_order_def)
  moreover have "all_some (map ((\<lambda>(k, x). map_option (Pair k) x) \<circ> map_prod id (any_of fl))
      (map (map_prod repaired mended \<circ> map_prod id (any_json fl)) m)) = Some m"
    using m by (intro all_some_map) (force simp: in_order_def repaired_id)
  moreover have "fold (\<lambda>(k, x). put k x) m [] = m"
    using m(1) fold_put_distinct [of "[]" m] by (simp add: in_order_def)
  ultimately show ?case by (simp add: comp_assoc)
qed (simp_all add: repaired_id)

definition tool_whole :: "float_text \<Rightarrow> tool_call \<Rightarrow> bool" where
  "tool_whole fl t \<longleftrightarrow> valid_utf8 (tc_name t) \<and> in_order (tc_input t) \<and> (\<forall>v \<in> snd ` set (tc_input t). any_whole fl v)
     \<and> any_whole fl (tc_output t) \<and> valid_utf8 (tc_error t) \<and> valid_utf8 (tc_status t)"

lemma kept_tool:
  assumes "tool_whole fl t"
  shows "kept_by (write_struct (tool_call_fields fl)) (read_struct (tool_call_fields fl)) zero_tool_call t"
proof (rule written_kept)
  have t: "in_order (tc_input t)" "\<And>k v. (k, v) \<in> set (tc_input t) \<Longrightarrow> valid_utf8 k \<and> any_whole fl v"
    using assms by (force simp: tool_whole_def in_order_def)+
  then have "read_map VNil (read_any fl) (mended (map_json (any_json fl) (tc_input t))) [] = Some (sorted_map (tc_input t))"
    by (intro read_map_json) (auto simp: in_order_def kept_any)
  then have "kept_by (map_json (any_json fl)) (read_map VNil (read_any fl)) [] (tc_input t)"
    using t(1) by (simp add: kept_by_def sorted_map_id)
  then show "fold (carry t) (tool_call_fields fl) (Some zero_tool_call) = Some t"
    using assms by (simp add: tool_call_fields_def carry_tag carry_omit kept_str kept_any tool_whole_def zero_tool_call_def)
qed (simp_all add: tool_call_fields_def ascii_def byte_val_def)

definition record_whole :: "float_text \<Rightarrow> msg_rec \<Rightarrow> bool" where
  "record_whole fl r \<longleftrightarrow> record_fit fl r
     \<and> (\<forall>s \<in> {mr_type r, mr_event r, mr_role r, mr_session r, mr_key r, mr_agent r, mr_run r, mr_kind r, mr_provider r, mr_text r}.
          valid_utf8 s)
     \<and> (\<forall>t. mr_tool r = Some t \<longrightarrow> tool_whole fl t)
     \<and> in_order (mr_meta r) \<and> (\<forall>x \<in> snd ` set (mr_meta r). valid_utf8 x)"

lemma carry_whole_tool:
  assumes "\<forall>t. mr_tool r = Some t \<longrightarrow> tool_whole fl t" "mr_tool a = None"
  shows "carry r (tool_tag fl) (Some a) = Some (a\<lparr>mr_tool := mr_tool r\<rparr>)"
proof -
  have "mended (write_struct (tool_call_fields fl) t) \<noteq> JNull" for t by (simp add: write_struct_def)
  then have "kept_by (opt_json (write_struct (tool_call_fields fl)))
      (read_opt zero_tool_call (read_struct (tool_call_fields fl))) None (mr_tool r)"
    using assms(1) by (intro kept_opt) (simp add: kept_tool)
  then show ?thesis using assms(2) by (simp add: tool_tag_def carry_omit)
qed

lemma kept_meta:
  assumes "in_order m" "\<forall>x \<in> snd ` set m. valid_utf8 x"
  shows "kept_by (map_json JStr) (read_map [] read_str) [] m"
proof -
  have "read_map [] read_str (mended (map_json JStr m)) [] = Some (sorted_map m)"
    using assms by (intro read_map_json) (force simp: in_order_def kept_str)+
  with assms(1) show ?thesis by (simp add: kept_by_def sorted_map_id)
qed

text \<open>
  C23: a line of a transcript is read as it was written. What \<open>AppendWithOptions\<close> writes for a record
  is one line without a break and without white space around it, so the reader finds it again, and
  \<open>Unmarshal\<close> gives back the record: every field, also the ones \<open>omitempty\<close> leaves out, the time to
  the nanosecond, the tool call with its input, and every byte of the text.
\<close>

theorem transcript_line_reads_back:
  assumes "record_whole fl r"
  shows "\<exists>b. marshal_record fl r = Inr b \<and> NL \<notin> set b \<and> trim_space b = b \<and> b \<noteq> [] \<and> unmarshal_record fl b = Some r"
proof -
  let ?v = "write_struct (record_fields fl) r"
  have fits: "fits_in (nat max_depth) ?v" using assms fits_record by (simp add: record_whole_def)
  have "unmarshal_record fl (json_text ?v) = fold (carry r) (record_fields fl) (Some zero_record)"
    unfolding unmarshal_record_def using fits
    by (intro unmarshal_written)
      (simp_all add: record_fields_def tool_tag_def usage_tag_def ascii_valid ascii_def byte_val_def)
  moreover have "int64 (mr_schema r)" "time_text (mr_at r) \<noteq> None" "\<forall>u. mr_usage r = Some u \<longrightarrow> usage_ok u"
    "\<forall>t. mr_tool r = Some t \<longrightarrow> tool_whole fl t" "in_order (mr_meta r)" "\<forall>x \<in> snd ` set (mr_meta r). valid_utf8 x"
    using assms by (simp_all add: record_whole_def record_fit_def)
  then have "fold (carry r) (record_fields fl) (Some zero_record) = Some r"
    using assms
    by (simp add: record_fields_def zero_record_def carry_omit carry_tag kept_str kept_int64 kept_bool kept_time kept_meta
        carry_whole_tool carry_usage record_whole_def)
  moreover have "marshal_record fl r = Inr (json_text ?v)"
    using assms by (simp add: marshal_record_def record_whole_def record_fit_def)
  moreover have "numbers_ok ?v" using fits by (simp add: fits_in_def)
  ultimately show ?thesis using struct_line [of "record_fields fl" r] by simp
qed

definition sample_record :: msg_rec where
  "sample_record = \<lparr>mr_schema = 2, mr_type = ''message'', mr_event = ''tool_call'', mr_role = ''user'', mr_session = ''s'', mr_key = ''k'',
     mr_agent = ''main'', mr_run = [], mr_kind = [], mr_provider = [],
     mr_text = ''caf'' @ [CHR 0xC3, CHR 0xA9, NL, QUOTE, CHR 0x09], mr_aborted = False,
     mr_tool = Some \<lparr>tc_name = ''shell'', tc_input = [(''cmd'', VStr ''ls''), (''n'', VNum 5 0)], tc_output = VNil, tc_error = [], tc_status = ''ok''\<rparr>,
     mr_usage = Some \<lparr>us_input = 3, us_output = 0, us_total = 3\<rparr>, mr_meta = [(''a'', ''b'')], mr_at = GTime 1700000000123000000\<rparr>"

lemma sample_record_whole: "record_whole whole_floats sample_record"
proof -
  have "time_text (mr_at sample_record) \<noteq> None" using time_samples(1) by (simp add: sample_record_def)
  moreover have "int64 (mr_schema sample_record)" "valid_utf8 (mr_text sample_record)" "in_order (mr_meta sample_record)"
    by code_simp+
  moreover have "\<forall>u. mr_usage sample_record = Some u \<longrightarrow> usage_ok u"
    by (simp add: sample_record_def usage_ok_def int64_def min_int64_def max_int64_def)
  moreover have "tool_whole whole_floats (the (mr_tool sample_record))" by code_simp
  moreover have "depth (any_json whole_floats (VNum 5 0)) = 0" by simp
  ultimately show ?thesis
    by (auto simp: record_whole_def record_fit_def sample_record_def ascii_valid ascii_def byte_val_def tool_fit_def tool_whole_def)
qed

theorem transcript_line_reads_back_witness:
  "\<exists>b. marshal_record whole_floats sample_record = Inr b \<and> NL \<notin> set b \<and> unmarshal_record whole_floats b = Some sample_record"
  using transcript_line_reads_back [OF sample_record_whole] by blast

section \<open>A store that is opened again\<close>

lemma table_fit_put:
  assumes "table_fit d" "entry_ok e"
  shows "table_fit (put (en_key e) e d)"
proof -
  have "set (put (en_key e) e d) \<subseteq> insert (en_key e, e) (set d)" by (auto simp: put_def split: if_splits)
  moreover have "valid_utf8 (en_key e)" using assms(2) by (simp add: entry_ok_def)
  ultimately show ?thesis using assms by (force simp: table_fit_def distinct_put)
qed

lemma table_codec:
  assumes "table_fit d" "marshal_store d = Inr b"
  shows "b \<noteq> [] \<and> unmarshal_store b = Inr (sorted_map d) \<and> map_of (sorted_map d) = map_of d"
  using assms store_reads_back [OF assms(1)] sorted_map_props(3) [of d] by (auto simp: table_fit_def)

lemma file_put_data:
  "st_put (file_ops enc) now e s = (r, s') \<Longrightarrow> fl_data (ss_store s') = put (en_key e) e (fl_data (ss_store s))"
  by (auto simp: file_ops_def file_put_def Let_def split: prod.splits)

text \<open>
  C22: what was put is there after a restart. When a \<open>Put\<close> of the file store reports no error,
  \<open>NewFileStore\<close> on the same path reads the JSON that was written and gives the same entry for every
  key, the new one among them, if the strings of the entries are UTF-8 and their years have four
  digits.
\<close>

theorem store_reopened:
  assumes "st_put (file_ops marshal_store) now e s = (None, s')"
    and "table_fit (fl_data (ss_store s))" "entry_ok e"
    and "fs_fault (ss_fs s) OpRead (fl_path (ss_store s)) = None"
  shows "\<exists>st. new_file_store unmarshal_store (fl_path (ss_store s)) (ss_fs s') = Inr st
    \<and> (\<forall>k. st_get (file_ops marshal_store) st k =
         (if k = en_key e then Some e else st_get (file_ops marshal_store) (ss_store s) k))"
proof -
  note put = put_up_to_date [OF assms(1)]
  have "table_fit (fl_data (ss_store s'))"
    using table_fit_put [OF assms(2,3)] by (simp add: file_put_data [OF assms(1)])
  then have "b \<noteq> [] \<and> (\<exists>d'. unmarshal_store b = Inr d' \<and> map_of d' = map_of (fl_data (ss_store s')))"
    if "marshal_store (fl_data (ss_store s')) = Inr b" for b
    using table_codec that by blast
  moreover have "fs_fault (ss_fs s') OpRead (fl_path (ss_store s')) = None"
    using fst.put_fault [OF assms(1)] assms(4) put(2) by simp
  ultimately obtain st where "new_file_store unmarshal_store (fl_path (ss_store s')) (ss_fs s') = Inr st"
    and "st_get (file_ops marshal_store) st = st_get (file_ops marshal_store) (ss_store s')"
    using reopen [OF put(1), of unmarshal_store] by blast
  then show ?thesis using fst.get_put [OF assms(1)] put(2) by simp
qed

lemma sample_entry_ok: "entry_ok sample_entry" "table_fit [(''k'', sample_entry)]"
proof -
  have "time_text (en_updated sample_entry) \<noteq> None" by code_simp
  then show "entry_ok sample_entry"
    by (simp add: entry_ok_def sample_entry_def ascii_valid ascii_def byte_val_def int64_def min_int64_def max_int64_def)
  then show "table_fit [(''k'', sample_entry)]" by (simp add: table_fit_def ascii_valid ascii_def byte_val_def)
qed

lemma sample_json_put: "fst (st_put (file_ops marshal_store) (GTime 9) sample_entry sample_sess) = None"
  by code_simp

theorem store_reopened_witness:
  "\<exists>st. new_file_store unmarshal_store ''s/db''
      (ss_fs (snd (st_put (file_ops marshal_store) (GTime 9) sample_entry sample_sess))) = Inr st
    \<and> st_get (file_ops marshal_store) st ''k'' = Some sample_entry"
proof -
  let ?p = "st_put (file_ops marshal_store) (GTime 9) sample_entry sample_sess"
  have p: "?p = (None, snd ?p)" using sample_json_put by (simp add: prod_eq_iff)
  have "fs_fault (ss_fs sample_sess) OpRead (fl_path (ss_store sample_sess)) = None" "table_fit (fl_data (ss_store sample_sess))"
    by (simp_all add: sample_sess_def plain_fs_def table_fit_def)
  from store_reopened [OF p this(2) sample_entry_ok(1) this(1)] show ?thesis
    by (auto simp: sample_sess_def sample_entry_def)
qed

end
