(* ===== verification/Restart.thy ===== *)
theory Restart
  imports SessionJson Conversation
begin

text \<open>
  The gateway with the session manager and the JSON of its files: what a daemon that is started again
  finds of a conversation. The store file is up to date after every operation that succeeds, so the
  store that \<open>NewFileStore\<close> reads is the one the daemon had, and the transcript holds what was said.
\<close>

section \<open>The file of the store during a message\<close>

lemma up_to_date_cong:
  "ss_store s' = ss_store s \<Longrightarrow> file_text (ss_fs s') (fl_path (ss_store s)) = file_text (ss_fs s) (fl_path (ss_store s)) \<Longrightarrow>
     up_to_date enc s \<Longrightarrow> up_to_date enc s'"
  by (simp add: up_to_date_def split: sum.splits)

text \<open>The store is kept at its path with its file up to date.\<close>

definition kept_at :: "((string \<times> entry) list \<Rightarrow> go_error + string) \<Rightarrow> string \<Rightarrow> file_store sess \<Rightarrow> bool" where
  "kept_at enc p s \<longleftrightarrow> fl_path (ss_store s) = p \<and> up_to_date enc s"

lemma put_kept:
  "st_put (file_ops enc) now e s = (None, s') \<Longrightarrow> fl_path (ss_store s) = p \<Longrightarrow> kept_at enc p s'"
  using put_up_to_date [of enc now e s s'] by (simp add: kept_at_def)

lemma touch_kept:
  "touch (file_ops enc) now now' m key agent s = (Inr e, s') \<Longrightarrow> fl_path (ss_store s) = p \<Longrightarrow> kept_at enc p s'"
  by (auto simp: touch_def Let_def split: prod.splits option.splits intro: put_kept)

lemma ensure_kept:
  assumes "ensure_context (file_ops enc) dec now m e s = (Inr e', s')" "kept_at enc p s"
  shows "kept_at enc p s'"
proof (cases "context_fresh m e")
  case True
  with assms show ?thesis by (simp add: ensure_context_def)
next
  case False
  with assms(1) obtain x where "st_put (file_ops enc) now x s = (None, s')"
    by (auto simp: ensure_context_def split: sum.splits prod.splits option.splits)
  then show ?thesis by (rule put_kept) (use assms(2) in \<open>simp add: kept_at_def\<close>)
qed

lemma context_kept:
  assumes "model_context (file_ops enc) dec now m key s = (Inr v, s')" "kept_at enc p s"
  shows "kept_at enc p s'"
proof -
  from assms(1) obtain e e' where "ensure_context (file_ops enc) dec now m e s = (Inr e', s')"
    by (auto simp: model_context_def split: option.splits prod.splits sum.splits)
  then show ?thesis using assms(2) by (rule ensure_kept)
qed

lemma append_kept:
  assumes "append_with_options (file_ops enc) encr dec now now' m e role text o' s = (None, s')"
    and "kept_at enc p s" "p \<noteq> transcript_path m e"
  shows "kept_at enc p s'"
proof (cases "trim_space text = [] \<and> ao_tool o' = None \<and> ao_usage o' = None \<and> ao_meta o' = []")
  case True
  with assms show ?thesis by (simp add: append_with_options_def)
next
  case False
  then obtain f where w: "write_record encr now m e (new_record now e role text o') (ss_fs s) = (None, f)"
    and u: "(None, s') = (if is_context_message role text (event_type_of o')
      then update_context (file_ops enc) dec now' m e role text (s\<lparr>ss_fs := f\<rparr>) else (None, s\<lparr>ss_fs := f\<rparr>))"
    using assms(1) by (auto simp: append_with_options_def split: prod.splits option.splits if_splits)
  have "file_text f p = file_text (ss_fs s) p"
    using w assms(3) by (auto elim!: write_record_result)
  then have k: "kept_at enc p (s\<lparr>ss_fs := f\<rparr>)"
    using assms(2) up_to_date_cong [of "s\<lparr>ss_fs := f\<rparr>" s enc] by (auto simp: kept_at_def)
  show ?thesis
  proof (cases "is_context_message role text (event_type_of o')")
    case True
    with u obtain e1 e2 x s2 where "ensure_context (file_ops enc) dec now' m e1 (s\<lparr>ss_fs := f\<rparr>) = (Inr e2, s2)"
      and "st_put (file_ops enc) now' x s2 = (None, s')"
      by (auto simp: update_context_def Let_def split: prod.splits sum.splits)
    with k show ?thesis by (metis ensure_kept kept_at_def put_kept)
  next
    case False
    with u k show ?thesis by simp
  qed
qed

lemma open_kept:
  assumes "se_ops se = file_ops enc" "open_session se clock (Some m) route msg s = (Inr (Some e, hist, summary), s')"
    and "fl_path (ss_store s) = p" "p \<noteq> transcript_path m e"
  shows "kept_at enc p s'"
proof -
  from assms(1,2) obtain s1 v s2 where
    t: "touch (file_ops enc) (clock 1) (clock 2) m (rt_session route) (rt_agent route) s = (Inr e, s1)"
    and c: "model_context (file_ops enc) (se_dec se) (clock 3) m (rt_session route) s1 = (Inr v, s2)"
    and a: "append_with_options (file_ops enc) (se_enc se) (se_dec se) (clock 4) (clock 5) m e ''user'' (im_text msg)
        (input_opts msg) s2 = (None, s')"
    by (auto simp: open_session_def split: prod.splits sum.splits option.splits)
  show ?thesis using append_kept [OF a context_kept [OF c touch_kept [OF t assms(3)]] assms(4)] .
qed

lemma deliver_kept:
  assumes "se_ops se = file_ops enc" "sr_manager sv = Some m" "p \<noteq> transcript_path m e"
  shows "deliver_events sv se clock i (Some e) msg key evts s x = (None, seen, sent, s', x') \<Longrightarrow>
    kept_at enc p s \<Longrightarrow> kept_at enc p s'"
proof (induction evts arbitrary: i s x seen sent)
  case (Cons v evts)
  have ok: "ev_err v = None" using Cons.prems(1) by (auto split: option.splits)
  show ?case
  proof (cases "ev_text v = []")
    case True
    with Cons ok show ?thesis by (auto split: prod.splits)
  next
    case False
    then obtain x1 s1 seen' sent' where
      r: "record_event se (clock i) (clock (i + 1)) (sr_manager sv) (Some e) msg v s = (None, s1)"
      and d: "deliver_events sv se clock (i + 2) (Some e) msg key evts s1 x1 = (None, seen', sent', s', x')"
      using Cons.prems(1) ok by (auto split: prod.splits option.splits)
    have "append_with_options (file_ops enc) (se_enc se) (se_dec se) (clock i) (clock (i + 1)) m e ''assistant'' (ev_text v)
        (event_opts msg v) s = (None, s1)"
      using r assms(1,2) by (simp add: record_event_def)
    from Cons.IH [OF d append_kept [OF this Cons.prems(2) assms(3)]] show ?thesis .
  qed
qed simp

lemma handled_kept:
  assumes "handle_inbound sv en se clock token msg g = ((None, seen, sent), g')"
    and "se_ops se = file_ops enc" "sr_manager sv = Some m" "fl_path (ss_store (gw_sess g)) = p"
    and "st_get (file_ops enc) (ss_store (gw_sess g)) (rt_session (resolve (sr_config sv) msg)) = Some e0"
    and "p \<noteq> transcript_path m e0"
    and "\<forall>rq f x. file_text (fst (snd (snd (agent_run en rq (gw_runtime g) (f, x))))) p = file_text f p"
  shows "kept_at enc p (gw_sess g')"
proof -
  let ?m = "stamp (clock 0) msg" and ?r = "resolve (sr_config sv) msg"
  obtain e hist summary s1 rt' f' x' x2 where
    o: "open_session se clock (Some m) ?r ?m (gw_sess g) = (Inr (Some e, hist, summary), s1)"
    and run: "agent_run en (request_for ?r ?m hist summary) (gw_runtime g) (ss_fs s1, gw_rest g) = (seen, rt', (f', x'))"
    and d: "deliver_events sv se clock 6 (Some e) ?m (rt_session ?r) seen (s1\<lparr>ss_fs := f'\<rparr>) x'
      = (None, seen, sent, gw_sess g', x2)"
    by (rule handled_steps [OF assms(1,3)])
  have "en_id e = en_id e0"
    using o assms(2,5) by (auto simp: open_session_def touch_def Let_def split: prod.splits sum.splits option.splits)
  then have path: "p \<noteq> transcript_path m e" using assms(6) by (simp add: transcript_path_def)
  have k: "kept_at enc p s1" by (rule open_kept [OF assms(2) o assms(4) path])
  moreover have "file_text f' p = file_text (ss_fs s1) p" using assms(7) run by (metis fst_conv snd_conv)
  ultimately have "kept_at enc p (s1\<lparr>ss_fs := f'\<rparr>)"
    using up_to_date_cong [of "s1\<lparr>ss_fs := f'\<rparr>" s1 enc] by (auto simp: kept_at_def)
  with deliver_kept [OF assms(2,3) path d] show ?thesis .
qed

section \<open>Messages in JSON\<close>

definition json_env :: "float_text \<Rightarrow> file_store session_env" where
  "json_env fl = \<lparr>se_ops = file_ops marshal_store, se_enc = marshal_record fl, se_dec = unmarshal_record fl\<rparr>"

text \<open>An event whose record can be written and read again.\<close>

definition event_fit :: "float_text \<Rightarrow> agent_event \<Rightarrow> bool" where
  "event_fit fl v \<longleftrightarrow> valid_utf8 (ev_text v) \<and> (\<forall>u. ev_usage v = Some u \<longrightarrow> usage_ok u)
     \<and> (\<forall>t. ev_tool v = Some t \<longrightarrow> tool_fit fl 9000 t)"

lemma ascii_types [simp]:
  "valid_utf8 ''message''" "valid_utf8 ''event''" "valid_utf8 ''user''" "valid_utf8 ''assistant''" "valid_utf8 ''tool_call''"
  "valid_utf8 ''message_chunk''"
  by (simp_all add: ascii_valid ascii_def byte_val_def)

lemma trim_types [simp]:
  "trim_space ''message'' = ''message''" "trim_space ''event'' = ''event''" "trim_space ''tool_call'' = ''tool_call''"
  "trim_space ''message_chunk'' = ''message_chunk''"
  by code_simp+

lemma json_encodable:
  assumes "\<forall>i. time_text (clock i) \<noteq> None" "valid_utf8 (im_text msg)" "\<forall>v \<in> set evts. event_fit fl v"
  shows "encodable (marshal_record fl) (unmarshal_record fl) clock e msg evts"
proof -
  have two: "int64 2" by (simp add: int64_def min_int64_def max_int64_def)
  have none: "ao_tool (input_opts msg) = None" "ao_usage (input_opts msg) = None" by (simp_all add: input_opts_def)
  have ty: "event_type_of (input_opts msg) = ''message''"
    "event_type_of (event_opts msg v) \<in> {''message'', ''event'', ''tool_call'', ''message_chunk''}" for v
    by (simp_all add: event_type_of_def input_opts_def event_opts_def map_event_type_def)
  have ty': "valid_utf8 (event_type_of (event_opts msg v))" for v
    using ty(2) [of v] by auto
  have "codec_ok (marshal_record fl) (unmarshal_record fl) (new_record (clock i) e ''user'' (im_text msg) (input_opts msg))" for i
    using assms(1,2) two by (intro json_codec) (simp_all add: record_fit_def new_record_def ty(1) none)
  moreover have "codec_ok (marshal_record fl) (unmarshal_record fl) (new_record (clock i) e ''assistant'' (ev_text v) (event_opts msg v))"
    if "v \<in> set evts" for i v
  proof -
    have "event_fit fl v" using assms(3) that by blast
    then show ?thesis
      using assms(1) two ty' by (intro json_codec) (simp_all add: record_fit_def new_record_def event_fit_def event_opts_def)
  qed
  ultimately show ?thesis by (simp add: encodable_def)
qed

text \<open>
  The texts of a record are recorded whole, but the summary of an entry is cut at a byte, so the
  table of the store need not be UTF-8 where its messages are.
\<close>

definition cut_text :: string where "cut_text = ''ab'' @ [CHR 0xC3, CHR 0xA9] @ ''cdef''"

lemma summary_cut_in_rune: "valid_utf8 cut_text" "\<not> valid_utf8 (compact_conversation_text cut_text 6)"
proof -
  show "valid_utf8 cut_text" by code_simp
  have "compact_conversation_text cut_text 6 = ''ab'' @ [CHR 0xC3] @ ''...''" by code_simp
  moreover have "runes (''ab'' @ [CHR 0xC3] @ ''...'') = [97, 98, rune_error, 46, 46, 46]"
    by (simp add: decode_rune_def byte_val_def cont_def)
  then have "length (repaired (''ab'' @ [CHR 0xC3] @ ''...'')) = 8"
    by (simp add: repaired_def encode_rune_def rune_error_def scalar_def)
  then have "\<not> valid_utf8 (''ab'' @ [CHR 0xC3] @ ''...'')" by (auto simp: valid_utf8_def)
  ultimately show "\<not> valid_utf8 (compact_conversation_text cut_text 6)" by simp
qed

section \<open>After a restart\<close>

text \<open>
  C3: a conversation survives a restart. After a message was handled without an error, a daemon that
  is started on the same files reads a store with the entry of the session, and its conversation, read
  from the transcript by \<open>encoding/json\<close>, is the one before, then the message of the user, then every
  reply; the context in the entry is in step with it, so nothing is rebuilt or lost.
\<close>

theorem conversation_survives_restart:
  assumes "handle_inbound sv en (json_env fl) clock token msg g = ((None, seen, sent), g')"
    and "sr_manager sv = Some m" "budget_ok (mg_budget m)"
    and "st_get (file_ops marshal_store) (ss_store (gw_sess g)) (rt_session (resolve (sr_config sv) msg)) = Some e0"
    and "en_key e0 = rt_session (resolve (sr_config sv) msg)" "synced (unmarshal_record fl) m (ss_fs (gw_sess g)) e0"
    and "transcript_path m e0 \<notin> store_files (ss_store (gw_sess g))"
    and "\<forall>rq f x. \<forall>q \<in> {transcript_path m e0, fl_path (ss_store (gw_sess g))}.
           file_text (fst (snd (snd (agent_run en rq (gw_runtime g) (f, x))))) q = file_text f q"
    and "\<forall>i. time_text (clock i) \<noteq> None" "valid_utf8 (im_text msg)" "\<forall>v \<in> set seen. event_fit fl v"
    and "table_fit (fl_data (ss_store (gw_sess g')))"
    and "fs_fault (ss_fs (gw_sess g')) OpRead (fl_path (ss_store (gw_sess g))) = None"
  shows "\<exists>st e1. new_file_store unmarshal_store (fl_path (ss_store (gw_sess g))) (ss_fs (gw_sess g')) = Inr st
    \<and> st_get (file_ops marshal_store) st (rt_session (resolve (sr_config sv) msg)) = Some e1
    \<and> synced (unmarshal_record fl) m (ss_fs (gw_sess g')) e1 \<and> en_id e1 = en_id e0
    \<and> context_texts (unmarshal_record fl) e1 (transcript m (ss_fs (gw_sess g')) e1)
        = context_texts (unmarshal_record fl) e0 (transcript m (ss_fs (gw_sess g)) e0)
          @ new_texts ''user'' (im_text msg) (input_opts (stamp (clock 0) msg)) @ said (stamp (clock 0) msg) seen"
proof -
  let ?p = "fl_path (ss_store (gw_sess g))" and ?m = "stamp (clock 0) msg" and ?r = "resolve (sr_config sv) msg"
  have env: "se_ops (json_env fl) = file_ops marshal_store" "se_enc (json_env fl) = marshal_record fl"
    "se_dec (json_env fl) = unmarshal_record fl" by (simp_all add: json_env_def)
  have "encodable (marshal_record fl) (unmarshal_record fl) clock e0 ?m seen"
    using assms(9-11) by (intro json_encodable) (simp_all add: stamp_def)
  then obtain e1 where e1: "st_get (file_ops marshal_store) (ss_store (gw_sess g')) (rt_session ?r) = Some e1"
    and rest: "synced (unmarshal_record fl) m (ss_fs (gw_sess g')) e1" "en_id e1 = en_id e0"
      "context_texts (unmarshal_record fl) e1 (transcript m (ss_fs (gw_sess g')) e1)
        = context_texts (unmarshal_record fl) e0 (transcript m (ss_fs (gw_sess g)) e0)
          @ new_texts ''user'' (im_text msg) (input_opts ?m) @ said ?m seen"
    using conversation_kept [OF assms(1) env(1) assms(2-5)] assms(6-8) unfolding env by blast
  have "kept_at marshal_store ?p (gw_sess g')" 
    using handled_kept [OF assms(1) env(1) assms(2) refl assms(4)] assms(7,8) by (auto simp: store_files_def)
  then have k: "up_to_date marshal_store (gw_sess g')" "fl_path (ss_store (gw_sess g')) = ?p" by (simp_all add: kept_at_def)
  obtain st where "new_file_store unmarshal_store ?p (ss_fs (gw_sess g')) = Inr st"
    "st_get (file_ops marshal_store) st = st_get (file_ops marshal_store) (ss_store (gw_sess g'))"
    using reopen [OF k(1), of unmarshal_store] table_codec [OF assms(12)] assms(13) unfolding k(2) by blast
  with e1 rest show ?thesis by auto
qed

section \<open>An example\<close>

definition restart_env :: "file_store session_env" where "restart_env = json_env whole_floats"

definition restart_open where
  "restart_open = open_session restart_env (\<lambda>_. GTime 5) (Some demo_manager) (resolve sample_config demo_inbound) demo_inbound
     (gw_sess talk_gateway)"

definition restart_talk where
  "restart_talk = (case restart_open of (r, s1) \<Rightarrow>
     (case deliver_events talk_server restart_env (\<lambda>_. GTime 5) 6 (Some talk_touched) demo_inbound talk_key [demo_reply] s1 () of
        (r', _, _, s2, _) \<Rightarrow> (r, r', table_fit (fl_data (ss_store s2)), fs_fault (ss_fs s2) OpRead ''s/db'')))"

lemma restart_talk_ok: "restart_talk = (Inr (Some talk_touched, [], []), None, True, None)"
  by code_simp

text \<open>No run of the example touches the files.\<close>

lemma talk_quiet: "file_text (fst (snd (snd (agent_run demo_env rq (gw_runtime talk_gateway) (f, x))))) q = file_text f q"
  by (simp add: quiet_run talk_gateway_def demo_runtime_def)

theorem conversation_survives_restart_witness:
  "\<exists>sent g' st e1. handle_inbound talk_server demo_env (json_env whole_floats) (\<lambda>_. GTime 5) ''secret'' demo_inbound talk_gateway
       = ((None, [demo_reply], sent), g')
     \<and> new_file_store unmarshal_store ''s/db'' (ss_fs (gw_sess g')) = Inr st
     \<and> st_get (file_ops marshal_store) st talk_key = Some e1
     \<and> map cx_text (context_texts (unmarshal_record whole_floats) e1 (transcript demo_manager (ss_fs (gw_sess g')) e1))
       = [''hello'', ''Nix: hello'']"
proof -
  let ?clock = "\<lambda>_::nat. GTime 5"
  obtain r s1 where o: "open_session restart_env ?clock (Some demo_manager) (resolve sample_config demo_inbound) demo_inbound
      (gw_sess talk_gateway) = (r, s1)" by fastforce
  obtain r' seen sent s2 x2 where d: "deliver_events talk_server restart_env ?clock 6 (Some talk_touched) demo_inbound talk_key
      [demo_reply] s1 () = (r', seen, sent, s2, x2)" using prod_cases5 by blast
  have ok: "r = Inr (Some talk_touched, [], [])" "r' = None" "table_fit (fl_data (ss_store s2))"
    "fs_fault (ss_fs s2) OpRead ''s/db'' = None"
    using restart_talk_ok by (simp_all add: restart_talk_def restart_open_def o d del: deliver_events.simps)
  obtain g' where h: "handle_inbound talk_server demo_env (json_env whole_floats) ?clock ''secret'' demo_inbound talk_gateway
      = ((None, [demo_reply], sent), g')" and g': "gw_sess g' = s2"
    using talk_steps [OF o [unfolded ok(1)] d [unfolded ok(2)]] by (auto simp: restart_env_def)
  have c: "sr_config talk_server = sample_config" "sr_manager talk_server = Some demo_manager"
    "stamp (GTime 5) demo_inbound = demo_inbound" "fl_path (ss_store (gw_sess talk_gateway)) = ''s/db''"
    by (simp_all add: talk_server_def demo_gate_server_def stamp_def demo_inbound_def is_zero_time_def zero_time_def talk_gateway_def)
  have b: "budget_ok (mg_budget demo_manager)" by code_simp
  have e: "st_get (file_ops marshal_store) (ss_store (gw_sess talk_gateway)) (rt_session (resolve (sr_config talk_server) demo_inbound))
      = Some talk_entry"
    by (simp add: c talk_key_eq talk_gateway_def file_ops_def)
  have k: "en_key talk_entry = rt_session (resolve (sr_config talk_server) demo_inbound)"
    by (simp add: c talk_key_eq talk_entry_def)
  have before: "transcript demo_manager (ss_fs (gw_sess talk_gateway)) talk_entry = []" by code_simp
  have sy: "synced (unmarshal_record whole_floats) demo_manager (ss_fs (gw_sess talk_gateway)) talk_entry"
    using talk_synced before by (simp add: synced_def context_texts_def talk_gateway_def)
  have free: "transcript_path demo_manager talk_entry \<notin> store_files (ss_store (gw_sess talk_gateway))"
    by code_simp
  have "time_text (GTime 5) \<noteq> None" by code_simp
  then have t: "\<forall>i. time_text (?clock i) \<noteq> None" by simp
  have v: "valid_utf8 (im_text demo_inbound)" "\<forall>v \<in> set [demo_reply]. event_fit whole_floats v"
    by (simp_all add: demo_inbound_def demo_reply_def final_event_def event_fit_def ascii_valid ascii_def byte_val_def)
  have new: "map cx_text (new_texts ''user'' (im_text demo_inbound) (input_opts demo_inbound) @ said demo_inbound [demo_reply])
      = [''hello'', ''Nix: hello'']" by code_simp
  have quiet: "\<forall>rq f x. \<forall>q \<in> {transcript_path demo_manager talk_entry, fl_path (ss_store (gw_sess talk_gateway))}.
      file_text (fst (snd (snd (agent_run demo_env rq (gw_runtime talk_gateway) (f, x))))) q = file_text f q"
    by (simp add: talk_quiet)
  have fin: "table_fit (fl_data (ss_store (gw_sess g')))" "fs_fault (ss_fs (gw_sess g')) OpRead (fl_path (ss_store (gw_sess talk_gateway))) = None"
    using ok(3,4) by (simp_all add: g' c)
  have none: "context_texts (unmarshal_record whole_floats) talk_entry (transcript demo_manager (ss_fs (gw_sess talk_gateway)) talk_entry) = []"
    unfolding before by code_simp
  from conversation_survives_restart [OF h c(2) b e k sy free quiet t v fin] h new none show ?thesis
    unfolding c talk_key_eq by (metis append_Nil)
qed

end
