(* ===== verification/GoDecode.thy ===== *)
theory GoDecode
  imports GoStruct
begin

text \<open>
  Two more ways the source reads JSON. \<open>Decoder.Decode\<close> takes the first value of a text and leaves the rest
  alone. And where a handler ignores the error of \<open>Unmarshal\<close>, it goes on with the struct as far as it was
  filled, so here that struct is a result too. A value of type \<open>any\<close> that is marshalled again has its
  keys in order, whatever their order was.
\<close>

section \<open>The first value of a text\<close>

text \<open>
  An array or object ends with its bracket. What follows a string, a number or a literal must be
  white space or nothing.
\<close>

definition closed_value :: "json \<Rightarrow> bool" where
  "closed_value v = (case v of JArr _ \<Rightarrow> True | JObj _ \<Rightarrow> True | _ \<Rightarrow> False)"

definition completed :: "scan \<Rightarrow> json option" where
  "completed st = (case st of Filled v [] \<Rightarrow> Some v | _ \<Rightarrow> None)"

function first_from :: "scan \<Rightarrow> string \<Rightarrow> json option" where
  "first_from st [] = completed st"
| "first_from st (c # s) =
     (case completed st of
        Some v \<Rightarrow> if closed_value v \<or> json_space c then Some v else None
      | None \<Rightarrow>
          if json_space c then first_from st s
          else (case token_at c s of
                  None \<Rightarrow> None
                | Some (t, r) \<Rightarrow> (case scan_step t st of None \<Rightarrow> None | Some st' \<Rightarrow> first_from st' r)))"
  by pat_completeness auto
termination by (relation "measure (\<lambda>(st, s). length s)") (auto dest: token_at_length)

definition first_json :: "string \<Rightarrow> json option" where "first_json s = first_from (AtValue []) s"

lemma completed_step: "completed st = Some v \<Longrightarrow> scan_step t st = None"
  by (auto simp: completed_def split: scan.splits list.splits)

lemma first_of_tokens:
  "json_tokens s = Some ts \<Longrightarrow> scan_all ts st = Some (Filled v []) \<Longrightarrow> first_from st s = Some v"
proof (induction s arbitrary: ts st rule: json_tokens.induct)
  case 1
  then show ?case by (simp add: completed_def)
next
  case (2 c s)
  show ?case
  proof (cases "json_space c")
    case True
    have IH: "first_from st s = Some v" using "2.IH"(1) [OF True] "2.prems" True by (simp add: json_tokens.simps)
    show ?thesis
    proof (cases "completed st")
      case (Some w)
      have "ts = []" using completed_step [OF Some] "2.prems"(2) by (cases ts) auto
      with "2.prems"(2) Some True show ?thesis by (simp add: completed_def)
    qed (use IH True in simp)
  next
    case False
    then obtain t r ts' where t: "token_at c s = Some (t, r)" "json_tokens r = Some ts'" "ts = t # ts'"
      using "2.prems"(1) by (auto simp: json_tokens.simps split: option.splits)
    then obtain st' where st: "scan_step t st = Some st'" "scan_all ts' st' = Some (Filled v [])"
      using "2.prems"(2) by (auto split: option.splits)
    then have "completed st = None" using completed_step [of st _ t] by (cases "completed st") auto
    with "2.IH"(2) [OF False t(1) refl t(2) st(2)] False t(1) st(1) show ?thesis by simp
  qed
qed

text \<open>A text that is one value is read as it.\<close>

lemma first_of_value: "parse_json s = Some v \<Longrightarrow> first_json s = Some v"
  by (auto simp: parse_json_def first_json_def split: option.splits scan.splits list.splits intro: first_of_tokens)

lemma first_samples:
  "first_json ''[1] and more'' = Some (JArr [JNum ''1''])" "first_json ''nullx'' = None" "first_json ''7 x'' = Some (JNum ''7'')"
  "first_json ''  '' = None"
  by code_simp+

definition decode_first :: "'r reader \<Rightarrow> 'r \<Rightarrow> string \<Rightarrow> 'r option" where
  "decode_first f zero s = (case first_json s of None \<Rightarrow> None | Some v \<Rightarrow> f v zero)"

section \<open>A struct that is filled as far as it goes\<close>

text \<open>
  A member of a wrong type is passed over and its error reported at the end. Nested structs, which are
  read as a whole here, occur only where the error is not ignored.
\<close>

fun members_left :: "'r field list \<Rightarrow> members \<Rightarrow> 'r \<Rightarrow> bool \<times> 'r" where
  "members_left fs [] r = (True, r)"
| "members_left fs ((k, v) # ms) r =
     (case field_of fs k of
        None \<Rightarrow> members_left fs ms r
      | Some f \<Rightarrow>
          (case fd_read f v r of
             None \<Rightarrow> (False, snd (members_left fs ms r))
           | Some r' \<Rightarrow> members_left fs ms r'))"

definition struct_left :: "'r field list \<Rightarrow> json \<Rightarrow> 'r \<Rightarrow> bool \<times> 'r" where
  "struct_left fs v r = (case v of JNull \<Rightarrow> (True, r) | JObj ms \<Rightarrow> members_left fs ms r | _ \<Rightarrow> (False, r))"

lemma members_left_iff: "read_members fs ms r = Some r' \<longleftrightarrow> members_left fs ms r = (True, r')"
  by (induction fs ms r rule: members_left.induct) (auto split: option.splits)

lemma struct_left_iff: "read_struct fs v r = Some r' \<longleftrightarrow> struct_left fs v r = (True, r')"
  by (auto simp: read_struct_def struct_left_def members_left_iff split: json.splits)

section \<open>Through a value of type any\<close>

definition bad_json :: go_error where "bad_json = ''invalid''"

text \<open>\<open>decodeParams\<close>: the value is marshalled and read into the struct.\<close>

definition remarshal :: "float_text \<Rightarrow> 'r field list \<Rightarrow> 'r \<Rightarrow> goany \<Rightarrow> go_error option \<times> 'r" where
  "remarshal fl fs zero raw =
     (case parse_json (json_text (any_json fl raw)) of
        None \<Rightarrow> (Some bad_json, zero)
      | Some v \<Rightarrow> (case struct_left fs v zero of (ok, r) \<Rightarrow> (if ok then None else Some bad_json, r)))"

text \<open>
  A value crosses when the \<open>any\<close> it is read as is written so that it can be read back, from the zero
  value. A struct crosses when its fields do; its members come in the order of their names then.
\<close>

definition crosses :: "float_text \<Rightarrow> nat \<Rightarrow> ('a \<Rightarrow> json) \<Rightarrow> 'a reader \<Rightarrow> 'a \<Rightarrow> 'a \<Rightarrow> bool" where
  "crosses fl n w rd zero y \<longleftrightarrow>
     (case any_of fl (mended (w y)) of
        None \<Rightarrow> False
      | Some x \<Rightarrow> fits_in n (any_json fl x) \<and> rd (mended (any_json fl x)) zero = Some y)"

text \<open>A whole number that a \<open>float64\<close> keeps and shows as it is.\<close>

definition float_keeps :: "float_text \<Rightarrow> int \<Rightarrow> bool" where
  "float_keeps fl i = (case fl_read fl (itoa i) of None \<Rightarrow> False | Some (m, e) \<Rightarrow> fl_show fl m e = itoa i)"

lemma crosses_str: "valid_utf8 s \<Longrightarrow> crosses fl n JStr read_str z s"
  by (simp add: crosses_def repaired_id read_str_def)

lemma crosses_bool: "crosses fl n JBool read_bool z b"
  by (simp add: crosses_def read_bool_def)

lemma crosses_int:
  assumes "float_keeps fl i" "min_int64 \<le> i" "i \<le> max_int64"
  shows "crosses fl n int_json read_int z i"
  using assms by (auto simp: crosses_def float_keeps_def int_json_def fits_in_def read_int_def atoi_itoa split: option.splits)

lemma crosses_mono: "crosses fl m w rd z y \<Longrightarrow> m \<le> n \<Longrightarrow> crosses fl n w rd z y"
  by (auto simp: crosses_def fits_mono split: option.splits)

lemma sort_map: "sort_key k (map g xs) = map g (sort_key (\<lambda>x. k (g x)) xs)"
proof (induction xs)
  case (Cons x xs)
  have "insort_key k (g x) (map g ys) = map g (insort_key (\<lambda>x. k (g x)) x ys)" for ys by (induction ys) auto
  with Cons show ?case by simp
qed simp

text \<open>What a field is as an \<open>any\<close>, and what it brings back.\<close>

definition field_any :: "float_text \<Rightarrow> 'r \<Rightarrow> 'r field \<Rightarrow> goany option" where
  "field_any fl r f = Option.bind (fd_write f r) (\<lambda>v. any_of fl (mended v))"

definition bring :: "float_text \<Rightarrow> 'r \<Rightarrow> 'r field \<Rightarrow> 'r option \<Rightarrow> 'r option" where
  "bring fl r f acc = Option.bind acc (\<lambda>a. Option.bind (field_any fl r f) (\<lambda>x. fd_read f (mended (any_json fl x)) a))"

lemma bring_tag:
  assumes "crosses fl n w rd (get a) (get r)"
  shows "bring fl r (tag k w rd get upd) (Some a) = Some (upd (\<lambda>_. get r) a)"
  using assms by (auto simp: bring_def field_any_def tag_def crosses_def split: option.splits)

definition field_fits :: "float_text \<Rightarrow> nat \<Rightarrow> 'r \<Rightarrow> 'r field \<Rightarrow> bool" where
  "field_fits fl n r f \<longleftrightarrow> (case field_any fl r f of None \<Rightarrow> False | Some x \<Rightarrow> fits_in n (any_json fl x))"

lemma fits_tag: "crosses fl n w rd z (get r) \<Longrightarrow> field_fits fl n r (tag k w rd get upd)"
  by (auto simp: field_fits_def field_any_def tag_def crosses_def split: option.splits)

lemma struct_crosses:
  assumes names: "distinct (map fd_name fs)" "\<forall>f \<in> set fs. ascii (fd_name f)"
    and fits: "\<forall>f \<in> set fs. field_fits fl n r f"
    and brought: "fold (bring fl r) (sort_key fd_name fs) (Some zero) = Some r"
  shows "crosses fl (Suc n) (write_struct fs) (read_struct fs) zero r"
proof -
  let ?gs = "sort_key fd_name fs" and ?x = "\<lambda>f. the (field_any fl r f)"
  let ?m = "\<lambda>hs. map (\<lambda>f. (fd_name f, ?x f)) hs"
  have x: "field_any fl r f = Some (?x f)" "fits_in n (any_json fl (?x f))" "repaired (fd_name f) = fd_name f" if f: "f \<in> set fs" for f
  proof -
    obtain y where y: "field_any fl r f = Some y" "fits_in n (any_json fl y)"
      using bspec [OF fits f] by (auto simp: field_fits_def split: option.splits)
    then show "field_any fl r f = Some (?x f)" "fits_in n (any_json fl (?x f))" by simp_all
    show "repaired (fd_name f) = fd_name f" using f names(2) by (simp add: ascii_valid repaired_id)
  qed
  have "any_of fl (mended (write_struct fs r)) = Some (VMap (fold (\<lambda>(k, x). put k x) (?m fs) []))"
  proof -
    have "all_some (map ((\<lambda>(k, x). map_option (Pair k) x) \<circ> map_prod id (any_of fl) \<circ> map_prod repaired mended)
        (List.map_filter (\<lambda>f. map_option (Pair (fd_name f)) (fd_write f r)) hs)) = Some (?m hs)" if "set hs \<subseteq> set fs" for hs
      using that
    proof (induction hs)
      case (Cons h hs)
      then obtain y where y: "field_any fl r h = Some y" using x(1) [of h] by fastforce
      then obtain v where "fd_write h r = Some v" "any_of fl (mended v) = Some y"
        unfolding field_any_def bind_eq_Some_conv by blast
      then have v: "fd_write h r = Some v" "any_of fl (mended v) = Some (?x h)" by (simp_all add: y)
      with Cons x(3) [of h] show ?case by (simp add: map_filter_simps)
    qed (simp add: map_filter_simps)
    then show ?thesis by (simp add: write_struct_def comp_assoc)
  qed
  then have any: "any_of fl (mended (write_struct fs r)) = Some (VMap (?m fs))"
    using names(1) fold_put_distinct [of "[]" "?m fs"] by (simp add: comp_def)
  have json: "any_json fl (VMap (?m fs)) = JObj (map (\<lambda>f. (fd_name f, any_json fl (?x f))) ?gs)"
    by (simp add: sorted_map_def sort_map comp_def)
  have "read_members fs (map (map_prod repaired mended) (map (\<lambda>f. (fd_name f, any_json fl (?x f))) hs)) a = fold (bring fl r) hs (Some a)"
    if "set hs \<subseteq> set fs" for hs a
    using that
  proof (induction hs arbitrary: a)
    case (Cons h hs)
    have none: "fold (bring fl r) hs None = None" by (induction hs) (simp_all add: bring_def)
    obtain y where "field_any fl r h = Some y" using x(1) [of h] Cons.prems by fastforce
    then have "bring fl r h (Some a) = fd_read h (mended (any_json fl (?x h))) a" by (simp add: bring_def)
    with Cons field_of_own [OF names(1), of h] x(3) [of h] show ?case
      by (auto simp: none split: option.split)
  qed simp
  from this [of ?gs zero] brought
  have "read_struct fs (mended (any_json fl (VMap (?m fs)))) zero = Some r" unfolding json by (simp add: read_struct_def)
  moreover have "fits_in (Suc n) (any_json fl (VMap (?m fs)))" unfolding json fits_obj using x(2) by auto
  ultimately show ?thesis unfolding crosses_def any by simp
qed

text \<open>What crosses is decoded.\<close>

lemma remarshal_crosses:
  assumes "crosses fl n (write_struct fs) (read_struct fs) zero r" "n \<le> 10000"
  obtains x where "any_of fl (mended (write_struct fs r)) = Some x" "remarshal fl fs zero x = (None, r)"
proof -
  from assms(1) obtain x where x: "any_of fl (mended (write_struct fs r)) = Some x" "fits_in n (any_json fl x)"
    "read_struct fs (mended (any_json fl x)) zero = Some r" by (auto simp: crosses_def split: option.splits)
  have "parse_json (json_text (any_json fl x)) = Some (mended (any_json fl x))"
    using x(2) assms(2) by (intro parse_text) (auto simp: fits_in_def max_depth_def)
  then have "remarshal fl fs zero x = (None, r)" using x(3) by (simp add: remarshal_def struct_left_iff)
  with x(1) that show thesis by blast
qed

end
