(* ===== verification/WsJson.thy ===== *)
theory WsJson
  imports GoDecode Ws Daemon
begin

text \<open>
  The JSON that clients of the gateway send: the frames of \<open>internal/protocol/frames.go\<close>, read from a message
  of the WebSocket by \<open>ReadJSON\<close>, their parameters, which \<open>decodeParams\<close> marshals again and reads into
  a struct, and the body of the inbound endpoint of \<open>cmd/nisixd/main.go\<close>. These are the decoders that \<open>Ws\<close>
  and \<open>Daemon\<close> take as arguments.
\<close>

section \<open>Frames\<close>

abbreviation str_field where "str_field k \<equiv> tag k JStr read_str"
abbreviation int_field where "int_field k \<equiv> tag k int_json read_int"

definition frame_fields :: "float_text \<Rightarrow> request_frame field list" where
  "frame_fields fl =
     [str_field ''type'' rf_type rf_type_update,
      str_field ''id'' rf_id rf_id_update,
      str_field ''method'' rf_method rf_method_update,
      tag_omit ''params'' VNil (any_json fl) (read_any fl) rf_params rf_params_update]"

definition zero_frame :: request_frame where
  "zero_frame = \<lparr>rf_type = [], rf_id = [], rf_method = [], rf_params = VNil\<rparr>"

text \<open>\<open>ReadJSON\<close> decodes the first value of the next message.\<close>

definition read_json_frame :: "float_text \<Rightarrow> string \<Rightarrow> request_frame option" where
  "read_json_frame fl = decode_first (read_struct (frame_fields fl)) zero_frame"

section \<open>Parameters\<close>

text \<open>A struct with one field of interest is that field; the client's details are a triple.\<close>

definition client_fields :: "(string \<times> string \<times> string) field list" where
  "client_fields =
     [str_field ''id'' fst (\<lambda>f (a, b, c). (f a, b, c)),
      str_field ''version'' (fst \<circ> snd) (\<lambda>f (a, b, c). (a, f b, c)),
      str_field ''platform'' (snd \<circ> snd) (\<lambda>f (a, b, c). (a, b, f c))]"

definition auth_fields :: "string field list" where
  "auth_fields = [str_field ''token'' id (\<lambda>f. f)]"

definition connect_fields :: "connect_params field list" where
  "connect_fields =
     [int_field ''minProtocol'' cp_min cp_min_update,
      int_field ''maxProtocol'' cp_max cp_max_update,
      tag ''client'' (write_struct client_fields) (read_struct client_fields) cp_client cp_client_update,
      tag ''auth'' (write_struct auth_fields) (read_struct auth_fields) cp_token cp_token_update]"

definition send_fields :: "send_params field list" where
  "send_fields =
     [str_field ''channel'' sp_channel sp_channel_update,
      str_field ''accountId'' sp_account sp_account_update,
      str_field ''peerId'' sp_peer sp_peer_update,
      str_field ''peerType'' sp_peer_type sp_peer_type_update,
      str_field ''userId'' sp_user sp_user_update,
      str_field ''threadId'' sp_thread sp_thread_update,
      str_field ''text'' sp_text sp_text_update]"

definition history_fields :: "history_params field list" where
  "history_fields =
     [str_field ''sessionKey'' hp_session hp_session_update,
      int_field ''limit'' hp_limit hp_limit_update,
      str_field ''role'' hp_role hp_role_update,
      int_field ''from'' hp_from hp_from_update,
      int_field ''to'' hp_to hp_to_update,
      int_field ''before'' hp_before hp_before_update,
      int_field ''after'' hp_after hp_after_update,
      str_field ''cursor'' hp_cursor hp_cursor_update]"

definition skills_fields :: "bool field list" where
  "skills_fields = [tag ''enabledOnly'' JBool read_bool id (\<lambda>f. f)]"

definition abort_fields :: "abort_params field list" where
  "abort_fields =
     [str_field ''runId'' ab_run ab_run_update,
      str_field ''sessionKey'' ab_session ab_session_update]"

definition get_fields :: "string field list" where
  "get_fields = [str_field ''file'' id (\<lambda>f. f)]"

definition update_fields :: "update_params field list" where
  "update_fields =
     [str_field ''file'' uq_file uq_file_update,
      str_field ''content'' uq_content uq_content_update,
      str_field ''mode'' uq_mode uq_mode_update,
      str_field ''reason'' uq_reason uq_reason_update]"

definition complete_fields :: "bool field list" where
  "complete_fields = [tag ''removeBootstrap'' JBool read_bool id (\<lambda>f. f)]"

definition zero_send :: send_params where
  "zero_send = \<lparr>sp_channel = [], sp_account = [], sp_peer = [], sp_peer_type = [], sp_user = [], sp_thread = [], sp_text = []\<rparr>"

definition zero_history :: history_params where
  "zero_history = \<lparr>hp_session = [], hp_limit = 0, hp_role = [], hp_from = 0, hp_to = 0, hp_before = 0, hp_after = 0, hp_cursor = []\<rparr>"

definition json_decoders :: "float_text \<Rightarrow> ws_decoders" where
  "json_decoders fl =
     \<lparr>dc_connect = remarshal fl connect_fields \<lparr>cp_min = 0, cp_max = 0, cp_client = ([], [], []), cp_token = []\<rparr>,
      dc_skills = remarshal fl skills_fields False,
      dc_get = remarshal fl get_fields [],
      dc_update = remarshal fl update_fields \<lparr>uq_file = [], uq_content = [], uq_mode = [], uq_reason = []\<rparr>,
      dc_complete = remarshal fl complete_fields False,
      dc_send = remarshal fl send_fields zero_send,
      dc_abort = remarshal fl abort_fields \<lparr>ab_run = [], ab_session = []\<rparr>,
      dc_history = remarshal fl history_fields zero_history\<rparr>"

section \<open>The inbound endpoint\<close>

definition inbound_fields :: "inbound_request field list" where
  "inbound_fields =
     [str_field ''token'' ir_token ir_token_update,
      str_field ''channel'' ir_channel ir_channel_update,
      str_field ''accountId'' ir_account ir_account_update,
      str_field ''peerId'' ir_peer ir_peer_update,
      str_field ''peerType'' ir_peer_type ir_peer_type_update,
      str_field ''userId'' ir_user ir_user_update,
      str_field ''text'' ir_text ir_text_update,
      str_field ''threadId'' ir_thread ir_thread_update]"

definition zero_inbound :: inbound_request where
  "zero_inbound = \<lparr>ir_token = [], ir_channel = [], ir_account = [], ir_peer = [], ir_peer_type = [], ir_user = [], ir_text = [], ir_thread = []\<rparr>"

definition read_inbound :: "string \<Rightarrow> go_error + inbound_request" where
  "read_inbound body =
     (case decode_first (read_struct inbound_fields) zero_inbound body of
        None \<Rightarrow> Inl bad_json
      | Some r \<Rightarrow> Inr r)"

text \<open>\<open>writeJSON\<close> encodes a map with one key and ends it with a line break.\<close>

definition write_json :: "int \<Rightarrow> string \<Rightarrow> json \<Rightarrow> int \<times> string" where
  "write_json code k v = (code, json_text (JObj [(k, v)]) @ [NL])"

definition inbound_http ::
    "'x server \<Rightarrow> run_env \<Rightarrow> 's session_env \<Rightarrow> (nat \<Rightarrow> gtime) \<Rightarrow> gtime \<Rightarrow> string \<Rightarrow> string
      \<Rightarrow> ('c, 's, 'x) gateway \<Rightarrow> (int \<times> string) \<times> ('c, 's, 'x) gateway" where
  "inbound_http sv en se clock now verb body g =
     (case inbound_endpoint sv en se clock now read_inbound verb body g of
        ((code, Some e), g') \<Rightarrow> (write_json code ''error'' (JStr e), g')
      | ((code, None), g') \<Rightarrow> (write_json code ''ok'' (JBool True), g'))"

section \<open>What a client sends\<close>

definition client_request :: "string \<Rightarrow> string \<Rightarrow> json \<Rightarrow> string" where
  "client_request i m ps =
     json_text (JObj [(''type'', JStr ''req''), (''id'', JStr i), (''method'', JStr m), (''params'', ps)])"

lemma names_valid [simp]: "ascii s \<Longrightarrow> repaired s = s"
  by (simp add: ascii_valid repaired_id)

lemma ascii_simps [simp]: "ascii []" "ascii (c # s) \<longleftrightarrow> byte_val c < 128 \<and> ascii s"
  by (simp_all add: ascii_def)

lemma frame_names:
  "field_of (frame_fields fl) ''type'' = Some (str_field ''type'' rf_type rf_type_update)"
  "field_of (frame_fields fl) ''id'' = Some (str_field ''id'' rf_id rf_id_update)"
  "field_of (frame_fields fl) ''method'' = Some (str_field ''method'' rf_method rf_method_update)"
  "field_of (frame_fields fl) ''params'' = Some (tag_omit ''params'' VNil (any_json fl) (read_any fl) rf_params rf_params_update)"
  by (simp_all add: field_of_def frame_fields_def)

lemma frame_read:
  assumes "valid_utf8 i" "valid_utf8 m" "fits_in 9000 ps" "any_of fl (mended ps) = Some v"
  shows "read_json_frame fl (client_request i m ps) = Some \<lparr>rf_type = ''req'', rf_id = i, rf_method = m, rf_params = v\<rparr>"
proof -
  let ?v = "JObj [(''type'', JStr ''req''), (''id'', JStr i), (''method'', JStr m), (''params'', ps)]"
  have "fits_in (Suc 9000) ?v" unfolding fits_obj using assms(3) by simp
  then have "parse_json (json_text ?v) = Some (mended ?v)"
    by (intro parse_text) (auto simp: fits_in_def max_depth_def)
  then have "first_json (client_request i m ps) = Some (mended ?v)"
    unfolding client_request_def by (rule first_of_value)
  moreover have "read_struct (frame_fields fl) (mended ?v) zero_frame
      = Some \<lparr>rf_type = ''req'', rf_id = i, rf_method = m, rf_params = v\<rparr>"
    using assms(1,2,4)
    by (simp add: read_struct_def frame_names tag_def tag_omit_def read_str_def read_any_def repaired_id byte_val_def zero_frame_def)
  ultimately show ?thesis by (simp add: read_json_frame_def decode_first_def)
qed

text \<open>The frame of a request is read, and its parameters are decoded to what the client wrote.\<close>

definition arrives :: "float_text \<Rightarrow> 'r field list \<Rightarrow> 'r decoder \<Rightarrow> string \<Rightarrow> string \<Rightarrow> 'r \<Rightarrow> bool" where
  "arrives fl fs dec i m p \<longleftrightarrow>
     (case read_json_frame fl (client_request i m (write_struct fs p)) of
        None \<Rightarrow> False
      | Some f \<Rightarrow> rf_type f = ''req'' \<and> rf_id f = i \<and> rf_method f = m \<and> dec (rf_params f) = (None, p))"

lemma arrives_struct:
  assumes "valid_utf8 i" "valid_utf8 m" "crosses fl n (write_struct fs) (read_struct fs) zero p" "n \<le> 9000"
    and "fits_in 9000 (write_struct fs p)"
  shows "arrives fl fs (remarshal fl fs zero) i m p"
proof -
  have "n \<le> 10000" using assms(4) by linarith
  then obtain x where x: "any_of fl (mended (write_struct fs p)) = Some x" "remarshal fl fs zero x = (None, p)"
    by (rule remarshal_crosses [OF assms(3)])
  show ?thesis unfolding arrives_def frame_read [OF assms(1,2,5) x(1)] by (simp add: x(2))
qed

text \<open>Numbers and strings that a client can send and get through.\<close>

definition number_fit :: "float_text \<Rightarrow> int \<Rightarrow> bool" where
  "number_fit fl i \<longleftrightarrow> float_keeps fl i \<and> min_int64 \<le> i \<and> i \<le> max_int64"

lemma cross_rules:
  "valid_utf8 s \<Longrightarrow> crosses fl n JStr read_str z s" "number_fit fl i \<Longrightarrow> crosses fl n int_json read_int z' i"
  by (simp_all add: crosses_str crosses_int number_fit_def)

definition send_ok :: "send_params \<Rightarrow> bool" where
  "send_ok p \<longleftrightarrow> (\<forall>s \<in> {sp_channel p, sp_account p, sp_peer p, sp_peer_type p, sp_user p, sp_thread p, sp_text p}. valid_utf8 s)"

lemma send_sorted:
  "sort_key fd_name send_fields =
     [str_field ''accountId'' sp_account sp_account_update, str_field ''channel'' sp_channel sp_channel_update,
      str_field ''peerId'' sp_peer sp_peer_update, str_field ''peerType'' sp_peer_type sp_peer_type_update,
      str_field ''text'' sp_text sp_text_update, str_field ''threadId'' sp_thread sp_thread_update,
      str_field ''userId'' sp_user sp_user_update]"
  by (simp add: send_fields_def)

lemma send_crosses:
  assumes "send_ok p"
  shows "crosses fl 1 (write_struct send_fields) (read_struct send_fields) zero_send p"
proof -
  have "crosses fl (Suc 0) (write_struct send_fields) (read_struct send_fields) zero_send p"
  proof (rule struct_crosses)
    show "fold (bring fl p) (sort_key fd_name send_fields) (Some zero_send) = Some p"
      unfolding send_sorted using assms
      by (simp add: bring_tag [of fl 0] cross_rules send_ok_def zero_send_def)
    show "\<forall>f \<in> set send_fields. field_fits fl 0 p f"
      using assms by (simp add: send_fields_def fits_tag [where z = "[]"] cross_rules send_ok_def)
  qed (simp_all add: send_fields_def byte_val_def)
  then show ?thesis by simp
qed

definition history_ok :: "float_text \<Rightarrow> history_params \<Rightarrow> bool" where
  "history_ok fl p \<longleftrightarrow> (\<forall>s \<in> {hp_session p, hp_role p, hp_cursor p}. valid_utf8 s)
     \<and> (\<forall>i \<in> {hp_limit p, hp_from p, hp_to p, hp_before p, hp_after p}. number_fit fl i)"

lemma history_sorted:
  "sort_key fd_name history_fields =
     [int_field ''after'' hp_after hp_after_update, int_field ''before'' hp_before hp_before_update,
      str_field ''cursor'' hp_cursor hp_cursor_update, int_field ''from'' hp_from hp_from_update,
      int_field ''limit'' hp_limit hp_limit_update, str_field ''role'' hp_role hp_role_update,
      str_field ''sessionKey'' hp_session hp_session_update, int_field ''to'' hp_to hp_to_update]"
  by (simp add: history_fields_def)

lemma history_crosses:
  assumes "history_ok fl p"
  shows "crosses fl (Suc 0) (write_struct history_fields) (read_struct history_fields) zero_history p"
proof (rule struct_crosses)
  show "fold (bring fl p) (sort_key fd_name history_fields) (Some zero_history) = Some p"
    unfolding history_sorted using assms
    by (simp add: bring_tag [of fl 0] cross_rules history_ok_def zero_history_def)
  show "\<forall>f \<in> set history_fields. field_fits fl 0 p f"
    using assms by (simp add: history_fields_def fits_tag [where z = "[]"] fits_tag [where z = 0] cross_rules history_ok_def)
qed (simp_all add: history_fields_def byte_val_def)

definition update_ok :: "update_params \<Rightarrow> bool" where
  "update_ok p \<longleftrightarrow> (\<forall>s \<in> {uq_file p, uq_content p, uq_mode p, uq_reason p}. valid_utf8 s)"

lemma update_crosses:
  assumes "update_ok p"
  shows "crosses fl (Suc 0) (write_struct update_fields) (read_struct update_fields)
    \<lparr>uq_file = [], uq_content = [], uq_mode = [], uq_reason = []\<rparr> p"
proof (rule struct_crosses)
  have "sort_key fd_name update_fields =
     [str_field ''content'' uq_content uq_content_update, str_field ''file'' uq_file uq_file_update,
      str_field ''mode'' uq_mode uq_mode_update, str_field ''reason'' uq_reason uq_reason_update]"
    by (simp add: update_fields_def)
  then show "fold (bring fl p) (sort_key fd_name update_fields)
      (Some \<lparr>uq_file = [], uq_content = [], uq_mode = [], uq_reason = []\<rparr>) = Some p"
    using assms by (simp add: bring_tag [of fl 0] cross_rules update_ok_def)
  show "\<forall>f \<in> set update_fields. field_fits fl 0 p f"
    using assms by (simp add: update_fields_def fits_tag [where z = "[]"] cross_rules update_ok_def)
qed (simp_all add: update_fields_def byte_val_def)

definition abort_ok :: "abort_params \<Rightarrow> bool" where
  "abort_ok p \<longleftrightarrow> valid_utf8 (ab_run p) \<and> valid_utf8 (ab_session p)"

lemma abort_crosses:
  assumes "abort_ok p"
  shows "crosses fl (Suc 0) (write_struct abort_fields) (read_struct abort_fields) \<lparr>ab_run = [], ab_session = []\<rparr> p"
proof (rule struct_crosses)
  show "fold (bring fl p) (sort_key fd_name abort_fields) (Some \<lparr>ab_run = [], ab_session = []\<rparr>) = Some p"
    using assms by (simp add: abort_fields_def bring_tag [of fl 0] cross_rules abort_ok_def)
  show "\<forall>f \<in> set abort_fields. field_fits fl 0 p f"
    using assms by (simp add: abort_fields_def fits_tag [where z = "[]"] cross_rules abort_ok_def)
qed (simp_all add: abort_fields_def byte_val_def)

lemma flag_crosses:
  assumes "ascii k"
  shows "crosses fl (Suc 0) (write_struct [tag k JBool read_bool id (\<lambda>f. f)]) (read_struct [tag k JBool read_bool id (\<lambda>f. f)]) False b"
  using assms by (intro struct_crosses) (simp_all add: bring_tag [of fl 0] crosses_bool fits_tag [where z = False])

lemma string_crosses:
  assumes "ascii k" "valid_utf8 s"
  shows "crosses fl (Suc 0) (write_struct [str_field k id (\<lambda>f. f)]) (read_struct [str_field k id (\<lambda>f. f)]) [] s"
  using assms by (intro struct_crosses) (simp_all add: bring_tag [of fl 0] crosses_str fits_tag [where z = "[]"])

definition connect_ok :: "float_text \<Rightarrow> connect_params \<Rightarrow> bool" where
  "connect_ok fl p \<longleftrightarrow> number_fit fl (cp_min p) \<and> number_fit fl (cp_max p) \<and> valid_utf8 (cp_token p)
     \<and> (case cp_client p of (a, b, c) \<Rightarrow> valid_utf8 a \<and> valid_utf8 b \<and> valid_utf8 c)"

lemma client_crosses:
  assumes "valid_utf8 a" "valid_utf8 b" "valid_utf8 c"
  shows "crosses fl (Suc 0) (write_struct client_fields) (read_struct client_fields) ([], [], []) (a, b, c)"
proof (rule struct_crosses)
  have "sort_key fd_name client_fields =
     [str_field ''id'' fst (\<lambda>f (a, b, c). (f a, b, c)), str_field ''platform'' (snd \<circ> snd) (\<lambda>f (a, b, c). (a, b, f c)),
      str_field ''version'' (fst \<circ> snd) (\<lambda>f (a, b, c). (a, f b, c))]"
    by (simp add: client_fields_def)
  then show "fold (bring fl (a, b, c)) (sort_key fd_name client_fields) (Some ([], [], [])) = Some (a, b, c)"
    using assms by (simp add: bring_tag [of fl 0] cross_rules)
  show "\<forall>f \<in> set client_fields. field_fits fl 0 (a, b, c) f"
    using assms by (simp add: client_fields_def fits_tag [where z = "[]"] cross_rules)
qed (simp_all add: client_fields_def byte_val_def)

lemma connect_crosses:
  assumes "connect_ok fl p"
  shows "crosses fl (Suc (Suc 0)) (write_struct connect_fields) (read_struct connect_fields)
    \<lparr>cp_min = 0, cp_max = 0, cp_client = ([], [], []), cp_token = []\<rparr> p"
proof (rule struct_crosses)
  have sub: "crosses fl (Suc 0) (write_struct client_fields) (read_struct client_fields) ([], [], []) (cp_client p)"
    "crosses fl (Suc 0) (write_struct auth_fields) (read_struct auth_fields) [] (cp_token p)"
    using assms client_crosses string_crosses [of "''token''"]
    by (auto simp: connect_ok_def auth_fields_def byte_val_def split: prod.splits)
  have "sort_key fd_name connect_fields =
     [tag ''auth'' (write_struct auth_fields) (read_struct auth_fields) cp_token cp_token_update,
      tag ''client'' (write_struct client_fields) (read_struct client_fields) cp_client cp_client_update,
      int_field ''maxProtocol'' cp_max cp_max_update, int_field ''minProtocol'' cp_min cp_min_update]"
    by (simp add: connect_fields_def)
  then show "fold (bring fl p) (sort_key fd_name connect_fields)
      (Some \<lparr>cp_min = 0, cp_max = 0, cp_client = ([], [], []), cp_token = []\<rparr>) = Some p"
    using assms sub by (simp add: bring_tag [of fl "Suc 0"] cross_rules connect_ok_def)
  show "\<forall>f \<in> set connect_fields. field_fits fl (Suc 0) p f"
    using assms sub by (simp add: connect_fields_def fits_tag [where z = "[]"] fits_tag [where z = 0]
        fits_tag [where z = "([], [], [])"] cross_rules connect_ok_def)
qed (simp_all add: connect_fields_def byte_val_def)

lemma fields_fit:
  "fits_in 9000 (write_struct send_fields p1)" "fits_in 9000 (write_struct history_fields p2)"
  "fits_in 9000 (write_struct update_fields p3)" "fits_in 9000 (write_struct abort_fields p4)"
  "fits_in 9000 (write_struct connect_fields p5)" "fits_in 9000 (write_struct skills_fields b)"
  "fits_in 9000 (write_struct complete_fields b)" "fits_in 9000 (write_struct get_fields s)"
proof -
  have sub: "fits_in (Suc 0) (write_struct client_fields q)" "fits_in (Suc 0) (write_struct auth_fields t)" for q t
    by (rule fits_struct, auto simp: client_fields_def auth_fields_def tag_def)+
  have "fits_in (Suc (Suc 0)) (write_struct connect_fields p5)"
    by (rule fits_struct) (auto simp: connect_fields_def tag_def sub)
  then show "fits_in 9000 (write_struct connect_fields p5)" by (rule fits_mono) simp
qed (rule fits_mono [where m = "Suc 0"], rule fits_struct,
  auto simp: send_fields_def history_fields_def update_fields_def abort_fields_def skills_fields_def complete_fields_def
    get_fields_def tag_def)+

section \<open>Requests over the connection\<close>

text \<open>
  C24: every request is read as its client wrote it. A frame in JSON with the parameters of a method is
  read by \<open>ReadJSON\<close> with its id and method, and \<open>decodeParams\<close>, which goes through a value of type \<open>any\<close>
  whose keys come back in another order, gives the handler exactly the parameters that were sent,
  if strings are UTF-8 and numbers are whole and kept by a \<open>float64\<close>.
\<close>

theorem requests_read_as_written:
  assumes "valid_utf8 i" "connect_ok fl pc" "send_ok ps" "history_ok fl ph" "update_ok pu" "abort_ok pa" "valid_utf8 name"
  shows "arrives fl connect_fields (dc_connect (json_decoders fl)) i ''connect'' pc
    \<and> arrives fl send_fields (dc_send (json_decoders fl)) i ''chat.send'' ps
    \<and> arrives fl history_fields (dc_history (json_decoders fl)) i ''chat.history'' ph
    \<and> arrives fl update_fields (dc_update (json_decoders fl)) i ''profile.update'' pu
    \<and> arrives fl abort_fields (dc_abort (json_decoders fl)) i ''chat.abort'' pa
    \<and> arrives fl get_fields (dc_get (json_decoders fl)) i ''profile.get'' name
    \<and> arrives fl skills_fields (dc_skills (json_decoders fl)) i ''skills.list'' enabled
    \<and> arrives fl complete_fields (dc_complete (json_decoders fl)) i ''bootstrap.complete'' gone"
proof -
  have m: "valid_utf8 m" if "ascii m" for m using that by (rule ascii_valid)
  note go = arrives_struct [OF assms(1) m]
  have "arrives fl connect_fields (dc_connect (json_decoders fl)) i ''connect'' pc"
    using go [OF _ connect_crosses [OF assms(2)]] fields_fit(5) by (simp add: json_decoders_def byte_val_def)
  moreover have "arrives fl send_fields (dc_send (json_decoders fl)) i ''chat.send'' ps"
    using go [OF _ send_crosses [OF assms(3)]] fields_fit(1) by (simp add: json_decoders_def byte_val_def)
  moreover have "arrives fl history_fields (dc_history (json_decoders fl)) i ''chat.history'' ph"
    using go [OF _ history_crosses [OF assms(4)]] fields_fit(2) by (simp add: json_decoders_def byte_val_def)
  moreover have "arrives fl update_fields (dc_update (json_decoders fl)) i ''profile.update'' pu"
    using go [OF _ update_crosses [OF assms(5)]] fields_fit(3) by (simp add: json_decoders_def byte_val_def)
  moreover have "arrives fl abort_fields (dc_abort (json_decoders fl)) i ''chat.abort'' pa"
    using go [OF _ abort_crosses [OF assms(6)]] fields_fit(4) by (simp add: json_decoders_def byte_val_def)
  moreover have "arrives fl get_fields (dc_get (json_decoders fl)) i ''profile.get'' name"
    using go [OF _ string_crosses [OF _ assms(7)]] fields_fit(8) by (simp add: json_decoders_def get_fields_def byte_val_def)
  moreover have "arrives fl skills_fields (dc_skills (json_decoders fl)) i ''skills.list'' enabled"
    using go [OF _ flag_crosses] fields_fit(6) by (simp add: json_decoders_def skills_fields_def byte_val_def)
  moreover have "arrives fl complete_fields (dc_complete (json_decoders fl)) i ''bootstrap.complete'' gone"
    using go [OF _ flag_crosses] fields_fit(7) by (simp add: json_decoders_def complete_fields_def byte_val_def)
  ultimately show ?thesis by blast
qed


section \<open>The body of the inbound endpoint\<close>

lemma inbound_read_back:
  assumes "\<forall>s \<in> {ir_token r, ir_channel r, ir_account r, ir_peer r, ir_peer_type r, ir_user r, ir_text r, ir_thread r}. valid_utf8 s"
  shows "read_inbound (json_text (write_struct inbound_fields r)) = Inr r"
proof -
  have "fits_in (Suc 0) (write_struct inbound_fields r)" by (rule fits_struct) (auto simp: inbound_fields_def tag_def)
  then have "parse_json (json_text (write_struct inbound_fields r)) = Some (mended (write_struct inbound_fields r))"
    by (intro parse_text) (auto simp: fits_in_def max_depth_def)
  moreover have "read_struct inbound_fields (mended (write_struct inbound_fields r)) zero_inbound
      = fold (carry r) inbound_fields (Some zero_inbound)"
    by (rule read_written) (simp_all add: inbound_fields_def ascii_valid byte_val_def)
  moreover have "fold (carry r) inbound_fields (Some zero_inbound) = Some r"
    using assms by (simp add: inbound_fields_def carry_tag kept_str zero_inbound_def)
  ultimately show ?thesis using first_of_value by (simp add: read_inbound_def decode_first_def)
qed

section \<open>Examples\<close>

lemma whole_keeps: "min_int64 \<le> i \<Longrightarrow> i \<le> max_int64 \<Longrightarrow> number_fit whole_floats i"
  by (simp add: number_fit_def float_keeps_def whole_floats_def atoi_itoa)

definition sample_connect :: connect_params where
  "sample_connect = \<lparr>cp_min = 1, cp_max = 2, cp_client = (''cli'', ''1.0'', ''linux''), cp_token = ''secret''\<rparr>"

definition sample_send :: send_params where
  "sample_send = \<lparr>sp_channel = ''web'', sp_account = [], sp_peer = ''7'', sp_peer_type = ''direct'', sp_user = ''u'',
     sp_thread = [], sp_text = ''hi '' @ [CHR 0xC3, CHR 0xA9, NL]\<rparr>"

lemma sample_requests_ok: "connect_ok whole_floats sample_connect" "send_ok sample_send"
proof -
  show "connect_ok whole_floats sample_connect"
    by (simp add: connect_ok_def sample_connect_def whole_keeps min_int64_def max_int64_def ascii_valid byte_val_def)
  have "valid_utf8 (sp_text sample_send)" by code_simp
  then show "send_ok sample_send" by (simp add: send_ok_def sample_send_def ascii_valid byte_val_def)
qed

theorem requests_read_as_written_witness:
  "arrives whole_floats history_fields (dc_history (json_decoders whole_floats)) ''9'' ''chat.history''
     \<lparr>hp_session = ''s'', hp_limit = 20, hp_role = [], hp_from = 0, hp_to = 1700000000000, hp_before = 0, hp_after = 0, hp_cursor = ''5''\<rparr>
   \<and> arrives whole_floats send_fields (dc_send (json_decoders whole_floats)) ''9'' ''chat.send'' sample_send"
proof -
  let ?h = "\<lparr>hp_session = ''s'', hp_limit = 20, hp_role = [], hp_from = 0, hp_to = 1700000000000, hp_before = 0, hp_after = 0, hp_cursor = ''5''\<rparr>"
  let ?u = "\<lparr>uq_file = ''USER.md'', uq_content = ''c'', uq_mode = ''append'', uq_reason = []\<rparr>"
  have "history_ok whole_floats ?h"
    by (simp add: history_ok_def whole_keeps min_int64_def max_int64_def ascii_valid byte_val_def)
  moreover have "update_ok ?u" "abort_ok \<lparr>ab_run = ''r'', ab_session = []\<rparr>" "valid_utf8 ''9''" "valid_utf8 ''USER.md''"
    by (simp_all add: update_ok_def abort_ok_def ascii_valid byte_val_def)
  ultimately show ?thesis
    using requests_read_as_written [of "''9''" whole_floats sample_connect sample_send ?h ?u "\<lparr>ab_run = ''r'', ab_session = []\<rparr>" "''USER.md''" True True]
      sample_requests_ok by blast
qed

definition sample_ws :: "(mem_store, unit) ws_env" where
  "sample_ws = demo_ws\<lparr>we_dec := json_decoders whole_floats\<rparr>"


end
