(* ===== verification/Spec2Isabelle.thy ===== *)
theory Spec2Isabelle
  imports McpSpec McpTransport Concurrent DaemonLife Restart WsJson
begin

text \<open>
  Nisix is a daemon that connects chat channels to an agent. A message comes in from Telegram, over
  a WebSocket or through an HTTP endpoint; the gateway checks its token, the router chooses the agent
  and the session, the session manager supplies the earlier conversation, the runtime runs the
  message (a command, a tool, a proposal, or the model with the context of the workspace), and
  each reply goes back through the hub and is recorded in the session. Tools are built in or come
  from MCP servers. This library models these parts, one theory for each, on the Go source under
  \<open>src/\<close>.

  \<^bold>\<open>The base.\<close> \<open>GoBase\<close> (errors as sums, times, maps as association lists, \<open>int\<close> with its wrap-around),
  \<open>GoStrings\<close>, \<open>GoSpace\<close>, \<open>GoNum\<close>, \<open>GoUtf8\<close> (the functions of \<open>strings\<close>, \<open>strconv\<close> and \<open>unicode/utf8\<close> the
  source uses, on strings of bytes) and \<open>GoPath\<close> (\<open>path/filepath\<close>, and a file system in which every
  operation may fail). \<open>GoJson\<close> (the text of JSON: quoting, the scanner, indentation), \<open>GoTime\<close> (the calendar
  and RFC 3339) and \<open>GoStruct\<close> (tags, \<open>Marshal\<close> and \<open>Unmarshal\<close> of structs, maps, slices and \<open>any\<close>)
  and \<open>GoDecode\<close> (\<open>Decoder\<close>, a struct filled in part, a value that is marshalled again) are \<open>encoding/json\<close> and what it needs of \<open>time\<close>. A string is a list of bytes; white space, case and runes are those of Go as
  far as each theory says.

  \<^bold>\<open>The components.\<close>
  \<^item> \<open>Domain\<close>: \<open>internal/domain/types.go\<close>.
  \<^item> \<open>Config\<close>: \<open>internal/config/config.go\<close>, loading with defaults and validation.
  \<^item> \<open>Router\<close>: \<open>internal/router/router.go\<close>, bindings and session keys.
  \<^item> \<open>Access\<close>: \<open>internal/security/auth.go\<close>, \<open>internal/toolpolicy/policy.go\<close>, the request check of
    \<open>internal/protocol/frames.go\<close>; the locale \<open>authenticator\<close>.
  \<^item> \<open>Hub\<close>: \<open>internal/channels/hub.go\<close> and the loop of \<open>main\<close> that fills it; the locale \<open>message_hub\<close>.
  \<^item> \<open>Telegram\<close>: \<open>internal/channels/telegram.go\<close>, polling, the gates of an update, chunking, retries.
  \<^item> \<open>SessionStore\<close> and \<open>Sessions\<close>: \<open>internal/sessions/store.go\<close> and \<open>manager.go\<close>; the locale \<open>session_store\<close>
    is the contract the manager relies on, interpreted on the memory store and on the file store.
    \<open>SessionJson\<close>: the tags of their structs, the lines of a transcript and the file of the store.
  \<^item> \<open>Tools\<close>: \<open>internal/tools\<close>, the registry, the clock and the shell; the locale of the registry is
    also what the MCP loader relies on.
  \<^item> \<open>ProfileText\<close> and \<open>Profile\<close>: \<open>internal/profile\<close>.
  \<^item> \<open>Workspace\<close>: \<open>internal/workspace\<close>, \<open>bootstrap\<close>, \<open>identity\<close>, \<open>soul\<close> and \<open>memory\<close>.
  \<^item> \<open>Skills\<close>: \<open>internal/skills\<close>.
  \<^item> \<open>Mcp\<close>: \<open>internal/mcp/loader.go\<close>. \<open>McpWire\<close>, \<open>McpClient\<close> and \<open>McpCalls\<close>: \<open>internal/mcp/client.go\<close>, the
    bytes on the wire, the table of pending requests as a state machine whose steps are the critical
    sections of its goroutines, and the calls made through it. \<open>McpTransport\<close>: what a request writes on
    each transport and the loops that read, which put the wire and the table together. \<open>McpSpec\<close>: what
    the table promises, a request that is open or ended, and the refinement.
  \<^item> \<open>Prompts\<close>: \<open>internal/model\<close>; the locale \<open>model_client\<close>.
  \<^item> \<open>ToolCall\<close> and \<open>Runtime\<close>: \<open>internal/agentruntime/runtime.go\<close>, the calls a model writes and a whole run.
  \<^item> \<open>Gateway\<close>: \<open>internal/gateway/server.go\<close>. \<open>Conversation\<close>: the gateway with the session manager.
    \<open>Concurrent\<close>: many messages of one session handled at the same time. \<open>Restart\<close>: what a daemon that is
    started again reads of a conversation, through JSON.
  \<^item> \<open>Ws\<close>: \<open>internal/gateway/ws.go\<close>, a request method by method, and a connection as a state machine.
    \<open>WsJson\<close>: the JSON of its requests and of the inbound endpoint.
  \<^item> \<open>Daemon\<close>: \<open>cmd/nisixd/main.go\<close>, the start and the inbound endpoint. \<open>Service\<close>: its mux, and the goroutine
    that polls for an account. \<open>DaemonLife\<close>: from the configuration file to the running daemon, in which
    requests, connections and polling goroutines take their steps in any order.

  \<^bold>\<open>How they are put together.\<close> Each component is a record of its state and a function per operation
  that returns the new state; a Go error is a value of \<open>go_error\<close>, the left side of a sum. The
  runtime's record holds the services it was given; a run works on the file system beside the rest
  of the world. \<open>Gateway.handle_inbound\<close> calls \<open>Router.resolve\<close>, \<open>Sessions\<close>, \<open>Runtime.agent_run\<close> and the
  hub in the order of the code; \<open>Ws.ws_request\<close> and \<open>Daemon.inbound_endpoint\<close> call the gateway, and so does
  the polling loop of \<open>Telegram\<close>, to which \<open>Service.telegram_hooks\<close> gives the gateway as \<open>onInbound\<close>; the
  hub leads back to the adapter of an account. \<open>Daemon.start_daemon\<close> builds all of it from a
  configuration, and \<open>DaemonLife.daemon_step\<close> runs it: the gateway is shared, each polling goroutine and
  each connection has its own state. In \<open>Concurrent\<close> the steps are finer: \<open>advance\<close> is \<open>handleInbound\<close> as a
  program counter, and \<open>handling_alone\<close> relates the two.

  \<^bold>\<open>What is shown.\<close> End to end: a handled message and its replies are recorded in order
  (\<open>Conversation\<close>), also when several are handled at once (\<open>Concurrent\<close>), and are there after a restart
  (\<open>Restart\<close>), replies go back to where the
  message came from (\<open>Gateway\<close>), for a Telegram account down to the call of its own bot (\<open>DaemonLife\<close>),
  nothing happens on a connection before a valid token (\<open>Ws\<close>), a tool the policy blocks never runs
  (\<open>Runtime\<close>), MCP servers cannot replace the daemon's own tools, neither at the start nor later
  (\<open>Daemon\<close>, \<open>DaemonLife\<close>), and what an MCP server answers on the wire reaches its caller (\<open>McpTransport\<close>). Per component: invariants (the context
  of a session follows its transcript, updates are handled once, event numbers are distinct),
  round trips (the JSON of the store and of a transcript, times, the MCP framings, the identity file), refinement (the MCP client),
  termination (listing tools, and the loops given by recursion), liveness (nobody is left
  waiting when an MCP connection breaks), bounds (retries, pages), confinement of files and
  commands, and the behaviour on errors. Some theorems show what the code does where it differs
  from what it means to do; they say so.

  \<^bold>\<open>Bounds and fuel.\<close> The search for a free MCP tool name has one round more than there are names,
  which is enough. JSON is refused beyond ten thousand levels, as the scanner does; the parser of the
  model recurses on the text. \<open>McpCalls.list_pages\<close> may not end and is an option, whose result is shown for both
  cases. Polling and the read loops run over a given list of what the other side sends. Sequence
  numbers and counters of a connection are 64-bit words; where a slice would be out of bounds the
  model has no result, and it is shown when that cannot happen.

  \<^bold>\<open>Arguments.\<close> The text of a \<open>float64\<close>, the processes and HTTP replies, the clock, the environment, \<open>fmt\<close>'s
  \<open>%+v\<close> and the Unicode class of a letter beyond ASCII are arguments of the definitions that use them;
  so is \<open>encoding/json\<close> outside the files of the sessions and the requests of clients. A theorem that needs something of one of them says so as a hypothesis.

  \<^bold>\<open>Not modelled.\<close> Logging (\<open>internal/observability\<close>), which only prints; command-line flags, signals and
  the shutdown; the HTTP server itself, of which the paths of the mux and the endpoints are
  modelled; the JSON of the other structs, and \<open>net/url\<close>, which is an argument. The lock of the session
  manager makes each of its operations one step; a run of the agent, the delivery of one event and
  a step of a connection are one step each, so two runs do not interleave within themselves.
\<close>

end
